theory Spec2Isabelle
  imports Main "HOL-Library.Char_ord" "HOL-Library.List_Lexorder"
begin

section \<open>Bytes and UTF-8\<close>

text \<open>
  A Go \<^verbatim>\<open>string\<close> and a Go \<^verbatim>\<open>[]byte\<close> are sequences of bytes; \<^typ>\<open>char\<close> is a byte,
  so both are \<^typ>\<open>string\<close>.  \<^verbatim>\<open>utf8.DecodeRuneInString\<close> returns the rune at the head of
  a string and the number of bytes it takes; an ill-formed head is \<open>(RuneError, 1)\<close>.
\<close>

type_synonym bytes = string

definition byte :: "char \<Rightarrow> nat" where
  "byte c = of_char c"

definition RuneError :: nat where
  "RuneError = 0xFFFD"

definition RuneSelf :: nat where
  "RuneSelf = 0x80"

text \<open>The table \<^verbatim>\<open>first\<close> of package utf8 with its accept ranges: for a leading byte,
  the length of the sequence and the range of the second byte.\<close>

definition first :: "nat \<Rightarrow> (nat \<times> nat \<times> nat) option" where
  "first b =
     (if 0xC2 \<le> b \<and> b \<le> 0xDF then Some (2, 0x80, 0xBF)
      else if b = 0xE0 then Some (3, 0xA0, 0xBF)
      else if 0xE1 \<le> b \<and> b \<le> 0xEC then Some (3, 0x80, 0xBF)
      else if b = 0xED then Some (3, 0x80, 0x9F)
      else if 0xEE \<le> b \<and> b \<le> 0xEF then Some (3, 0x80, 0xBF)
      else if b = 0xF0 then Some (4, 0x90, 0xBF)
      else if 0xF1 \<le> b \<and> b \<le> 0xF3 then Some (4, 0x80, 0xBF)
      else if b = 0xF4 then Some (4, 0x80, 0x8F)
      else None)"

definition cont :: "nat \<Rightarrow> bool" where
  "cont b = (0x80 \<le> b \<and> b \<le> 0xBF)"

definition DecodeRune :: "bytes \<Rightarrow> nat \<times> nat" where
  "DecodeRune s =
     (case s of
        [] \<Rightarrow> (RuneError, 0)
      | c # cs \<Rightarrow>
          let s0 = byte c in
          if s0 < RuneSelf then (s0, 1)
          else
            (case first s0 of
               None \<Rightarrow> (RuneError, 1)
             | Some (sz, lo, hi) \<Rightarrow>
                 if length s < sz then (RuneError, 1)
                 else
                   let s1 = byte (s ! 1) in
                   if s1 < lo \<or> hi < s1 then (RuneError, 1)
                   else if sz \<le> 2 then ((s0 mod 0x20) * 0x40 + s1 mod 0x40, 2)
                   else
                     let s2 = byte (s ! 2) in
                     if \<not> cont s2 then (RuneError, 1)
                     else if sz \<le> 3 then
                       ((s0 mod 0x10) * 0x1000 + (s1 mod 0x40) * 0x40 + s2 mod 0x40, 3)
                     else
                       let s3 = byte (s ! 3) in
                       if \<not> cont s3 then (RuneError, 1)
                       else ((s0 mod 0x08) * 0x40000 + (s1 mod 0x40) * 0x1000
                               + (s2 mod 0x40) * 0x40 + s3 mod 0x40, 4)))"

text \<open>\<^verbatim>\<open>utf8.EncodeRune\<close>: surrogates and values beyond U+10FFFF become U+FFFD.\<close>

definition EncodeRune :: "nat \<Rightarrow> bytes" where
  "EncodeRune r =
     (if r < 0x80 then [char_of r]
      else if r < 0x800 then [char_of (0xC0 + r div 0x40), char_of (0x80 + r mod 0x40)]
      else if (0xD800 \<le> r \<and> r \<le> 0xDFFF) \<or> 0x10FFFF < r then
        [char_of (0xEF::nat), char_of (0xBF::nat), char_of (0xBD::nat)]
      else if r < 0x10000 then
        [char_of (0xE0 + r div 0x1000), char_of (0x80 + (r div 0x40) mod 0x40),
         char_of (0x80 + r mod 0x40)]
      else
        [char_of (0xF0 + r div 0x40000), char_of (0x80 + (r div 0x1000) mod 0x40),
         char_of (0x80 + (r div 0x40) mod 0x40), char_of (0x80 + r mod 0x40)])"

text \<open>\<^verbatim>\<open>utf16.IsSurrogate\<close> and \<^verbatim>\<open>utf16.DecodeRune\<close>.\<close>

definition IsSurrogate :: "nat \<Rightarrow> bool" where
  "IsSurrogate r = (0xD800 \<le> r \<and> r < 0xE000)"

definition utf16_DecodeRune :: "nat \<Rightarrow> nat \<Rightarrow> nat" where
  "utf16_DecodeRune r1 r2 =
     (if 0xD800 \<le> r1 \<and> r1 < 0xDC00 \<and> 0xDC00 \<le> r2 \<and> r2 < 0xE000
      then (r1 - 0xD800) * 0x400 + (r2 - 0xDC00) + 0x10000
      else RuneError)"

text \<open>A string is well-formed UTF-8 when no head of it decodes to \<open>(RuneError, 1)\<close>.\<close>

function valid_utf8 :: "bytes \<Rightarrow> bool" where
  "valid_utf8 [] = True"
| "valid_utf8 (c # cs) =
     (case DecodeRune (c # cs) of
        (r, n) \<Rightarrow>
          if r = RuneError \<and> n = 1 then False
          else valid_utf8 (drop n (c # cs)))"
  by pat_completeness auto

lemma DecodeRune_size_pos: "0 < snd (DecodeRune (c # cs))"
  by (simp add: DecodeRune_def Let_def split: option.splits prod.splits)

lemma DecodeRune_size_pos': "DecodeRune (c # cs) = (r, n) \<Longrightarrow> 0 < n"
  using DecodeRune_size_pos [of c cs] by simp

termination valid_utf8
  by (relation "measure length") (auto dest: DecodeRune_size_pos' [OF sym])

declare valid_utf8.simps(2) [simp del]

section \<open>JSON texts\<close>

text \<open>
  The syntax tree of a JSON text as package \<^verbatim>\<open>encoding/json\<close> scans it: a string and a
  member name keep the bytes between their quotes (escapes not yet resolved), a number keeps
  its literal, an object keeps its members in the order of the text.
\<close>

datatype json =
    JNull
  | JBool bool
  | JNumber bytes
  | JString bytes
  | JArray "json list"
  | JObject "(bytes \<times> json) list"

text \<open>Why a scan stops: the input ended inside a value, or a byte cannot stand where it
  is.\<close>

datatype scan_error = Truncated | Invalid

definition isSpace :: "char \<Rightarrow> bool" where
  "isSpace c = (c = CHR 0x20 \<or> c = CHR 0x09 \<or> c = CHR 0x0D \<or> c = CHR 0x0A)"

fun skip_space :: "bytes \<Rightarrow> bytes" where
  "skip_space [] = []"
| "skip_space (c # cs) = (if isSpace c then skip_space cs else c # cs)"

definition is_digit :: "char \<Rightarrow> bool" where
  "is_digit c = (0x30 \<le> byte c \<and> byte c \<le> 0x39)"

definition is_hex :: "char \<Rightarrow> bool" where
  "is_hex c = (is_digit c \<or> (0x61 \<le> byte c \<and> byte c \<le> 0x66) \<or> (0x41 \<le> byte c \<and> byte c \<le> 0x46))"

definition quote :: char where
  "quote = CHR 0x22"

definition backslash :: char where
  "backslash = CHR 0x5C"

definition prepend :: "bytes \<Rightarrow> scan_error + bytes \<times> bytes \<Rightarrow> scan_error + bytes \<times> bytes" where
  "prepend p r = (case r of Inl e \<Rightarrow> Inl e | Inr (b, rest) \<Rightarrow> Inr (p @ b, rest))"

text \<open>
  The scanner inside a string (states \<^verbatim>\<open>stateInString\<close>, \<^verbatim>\<open>stateInStringEsc\<close>,
  \<^verbatim>\<open>stateInStringEscU\<close>...): the argument starts after the opening quote, the result is
  the bytes before the closing quote and the input after it.
\<close>

fun scan_string :: "bytes \<Rightarrow> scan_error + bytes \<times> bytes" where
  "scan_string [] = Inl Truncated"
| "scan_string (c # cs) =
     (if c = quote then Inr ([], cs)
      else if c = backslash then
        (case cs of
           [] \<Rightarrow> Inl Truncated
         | e # es \<Rightarrow>
             if e \<in> set [CHR ''b'', CHR ''f'', CHR ''n'', CHR ''r'', CHR ''t'', backslash, CHR ''/'', quote]
             then prepend [c, e] (scan_string es)
             else if e = CHR ''u'' then
               (if \<not> list_all is_hex (take 4 es) then Inl Invalid
                else if length es < 4 then Inl Truncated
                else prepend (c # e # take 4 es) (scan_string (drop 4 es)))
             else Inl Invalid)
      else if byte c < 0x20 then Inl Invalid
      else prepend [c] (scan_string cs))"

text \<open>The scanner inside a number (\<^verbatim>\<open>stateNeg\<close>, \<^verbatim>\<open>state0\<close>, \<^verbatim>\<open>state1\<close>, \<^verbatim>\<open>stateDot\<close>,
  \<^verbatim>\<open>stateE\<close>...): the literal and the input after it.\<close>

definition scan_digits :: "bytes \<Rightarrow> scan_error + bytes \<times> bytes" where
  "scan_digits s =
     (case s of
        [] \<Rightarrow> Inl Truncated
      | c # cs \<Rightarrow>
          if is_digit c then Inr (takeWhile is_digit s, dropWhile is_digit s) else Inl Invalid)"

definition scan_exp :: "bytes \<Rightarrow> scan_error + bytes \<times> bytes" where
  "scan_exp s =
     (case s of
        c # cs \<Rightarrow>
          if c = CHR ''e'' \<or> c = CHR ''E'' then
            (case cs of
               [] \<Rightarrow> Inl Truncated
             | d # ds \<Rightarrow>
                 if d = CHR ''+'' \<or> d = CHR ''-'' then prepend [c, d] (scan_digits ds)
                 else prepend [c] (scan_digits cs))
          else Inr ([], s)
      | [] \<Rightarrow> Inr ([], s))"

definition scan_frac :: "bytes \<Rightarrow> scan_error + bytes \<times> bytes" where
  "scan_frac s =
     (case s of
        c # cs \<Rightarrow>
          if c = CHR ''.'' then
            (case scan_digits cs of
               Inl e \<Rightarrow> Inl e
             | Inr (ds, rest) \<Rightarrow> prepend (c # ds) (scan_exp rest))
          else scan_exp s
      | [] \<Rightarrow> Inr ([], s))"

definition scan_int :: "bytes \<Rightarrow> scan_error + bytes \<times> bytes" where
  "scan_int s =
     (case s of
        [] \<Rightarrow> Inl Truncated
      | c # cs \<Rightarrow>
          if c = CHR ''0'' then prepend [c] (scan_frac cs)
          else if is_digit c then
            prepend (c # takeWhile is_digit cs) (scan_frac (dropWhile is_digit cs))
          else Inl Invalid)"

definition scan_number :: "bytes \<Rightarrow> scan_error + bytes \<times> bytes" where
  "scan_number s =
     (case s of
        [] \<Rightarrow> Inl Truncated
      | c # cs \<Rightarrow> if c = CHR ''-'' then prepend [c] (scan_int cs) else scan_int s)"

text \<open>The scanner inside \<^verbatim>\<open>true\<close>, \<^verbatim>\<open>false\<close> and \<^verbatim>\<open>null\<close>.\<close>

fun scan_literal :: "bytes \<Rightarrow> bytes \<Rightarrow> scan_error + bytes" where
  "scan_literal [] s = Inr s"
| "scan_literal (l # ls) [] = Inl Truncated"
| "scan_literal (l # ls) (c # cs) = (if c = l then scan_literal ls cs else Inl Invalid)"

definition maxNestingDepth :: nat where
  "maxNestingDepth = 10000"

lemma length_skip_space: "length (skip_space s) \<le> length s"
  by (induction s) auto

lemma skip_space_Cons_length: "skip_space s = c # cs \<Longrightarrow> length cs < length s"
  using length_skip_space [of s] by simp

lemma prepend_Inr: "prepend p r = Inr (b, rest) \<longleftrightarrow> (\<exists>b'. r = Inr (b', rest) \<and> b = p @ b')"
  by (auto simp: prepend_def split: sum.splits)

lemma scan_string_length: "scan_string s = Inr (b, rest) \<Longrightarrow> length rest < length s"
proof (induction s arbitrary: b rest rule: scan_string.induct)
  case 1
  then show ?case by simp
next
  case (2 c cs)
  show ?case
  proof (cases "c = quote")
    case True
    with "2.prems" show ?thesis by auto
  next
    case nq: False
    show ?thesis
    proof (cases "c = backslash")
      case True
      then obtain e es where cs: "cs = e # es"
        using "2.prems" nq by (cases cs) auto
      show ?thesis
      proof (cases "e \<in> set [CHR ''b'', CHR ''f'', CHR ''n'', CHR ''r'', CHR ''t'', backslash, CHR ''/'', quote]")
        case esc: True
        with "2.prems" nq True cs obtain b' where "scan_string es = Inr (b', rest)"
          by (auto simp: prepend_Inr simp del: set_simps)
        with "2.IH"(1) [OF nq True cs esc] show ?thesis using cs by simp
      next
        case nesc: False
        with "2.prems" nq True cs have u: "e = CHR ''u''"
          by (auto split: if_splits)
        with "2.prems" nq True cs nesc have h: "\<not> \<not> list_all is_hex (take 4 es)" and l: "\<not> length es < 4"
          by (auto split: if_splits)
        with "2.prems" nq True cs nesc u obtain b' where "scan_string (drop 4 es) = Inr (b', rest)"
          by (auto simp: prepend_Inr simp del: set_simps split: if_splits)
        with "2.IH"(2) [OF nq True cs nesc u h l] show ?thesis using cs by simp
      qed
    next
      case nb: False
      with "2.prems" nq have c: "\<not> byte c < 0x20"
        by (auto split: if_splits)
      with "2.prems" nq nb obtain b' where "scan_string cs = Inr (b', rest)"
        by (auto simp: prepend_Inr)
      with "2.IH"(3) [OF nq nb c] show ?thesis by simp
    qed
  qed
qed

lemma skip_space_Cons_length': "c # cs = skip_space s \<Longrightarrow> length cs < length s"
  using skip_space_Cons_length [of s c cs] by simp

lemma scan_string_length': "Inr (b, rest) = scan_string s \<Longrightarrow> length rest < length s"
  using scan_string_length [of s b rest] by simp

text \<open>
  The scanner on values.  The depth is the number of arrays and objects open around the
  value; opening one more than \<^verbatim>\<open>maxNestingDepth\<close> is an error.  A scan returns the tree
  of the first value of the input and the input after it.
\<close>

function scan_value :: "nat \<Rightarrow> bytes \<Rightarrow> scan_error + json \<times> bytes"
  and scan_elements :: "nat \<Rightarrow> bytes \<Rightarrow> scan_error + json list \<times> bytes"
  and scan_members :: "nat \<Rightarrow> bytes \<Rightarrow> scan_error + (bytes \<times> json) list \<times> bytes"
where
  "scan_value d s =
     (case skip_space s of
        [] \<Rightarrow> Inl Truncated
      | c # cs \<Rightarrow>
          if c = CHR ''{'' then
            (if maxNestingDepth \<le> d then Inl Invalid
             else
               (case skip_space cs of
                  [] \<Rightarrow> Inl Truncated
                | c' # cs' \<Rightarrow>
                    if c' = CHR ''}'' then Inr (JObject [], cs')
                    else
                      (case scan_members (Suc d) (c' # cs') of
                         Inl e \<Rightarrow> Inl e
                       | Inr (ms, rest) \<Rightarrow> Inr (JObject ms, rest))))
          else if c = CHR ''['' then
            (if maxNestingDepth \<le> d then Inl Invalid
             else
               (case skip_space cs of
                  [] \<Rightarrow> Inl Truncated
                | c' # cs' \<Rightarrow>
                    if c' = CHR '']'' then Inr (JArray [], cs')
                    else
                      (case scan_elements (Suc d) (c' # cs') of
                         Inl e \<Rightarrow> Inl e
                       | Inr (vs, rest) \<Rightarrow> Inr (JArray vs, rest))))
          else if c = quote then
            (case scan_string cs of
               Inl e \<Rightarrow> Inl e
             | Inr (b, rest) \<Rightarrow> Inr (JString b, rest))
          else if c = CHR ''-'' \<or> is_digit c then
            (case scan_number (c # cs) of
               Inl e \<Rightarrow> Inl e
             | Inr (l, rest) \<Rightarrow> Inr (JNumber l, rest))
          else if c = CHR ''t'' then
            (case scan_literal ''rue'' cs of Inl e \<Rightarrow> Inl e | Inr rest \<Rightarrow> Inr (JBool True, rest))
          else if c = CHR ''f'' then
            (case scan_literal ''alse'' cs of Inl e \<Rightarrow> Inl e | Inr rest \<Rightarrow> Inr (JBool False, rest))
          else if c = CHR ''n'' then
            (case scan_literal ''ull'' cs of Inl e \<Rightarrow> Inl e | Inr rest \<Rightarrow> Inr (JNull, rest))
          else Inl Invalid)"
| "scan_elements d s =
     (case scan_value d s of
        Inl e \<Rightarrow> Inl e
      | Inr (v, r) \<Rightarrow>
          (case skip_space r of
             [] \<Rightarrow> Inl Truncated
           | c # cs \<Rightarrow>
               if c = CHR '']'' then Inr ([v], cs)
               else if c = CHR '','' then
                 (if length cs < length s then
                    (case scan_elements d cs of
                       Inl e \<Rightarrow> Inl e
                     | Inr (vs, rest) \<Rightarrow> Inr (v # vs, rest))
                  else Inl Invalid)
               else Inl Invalid))"
| "scan_members d s =
     (case skip_space s of
        [] \<Rightarrow> Inl Truncated
      | c # cs \<Rightarrow>
          if c \<noteq> quote then Inl Invalid
          else
            (case scan_string cs of
               Inl e \<Rightarrow> Inl e
             | Inr (k, r1) \<Rightarrow>
                 (case skip_space r1 of
                    [] \<Rightarrow> Inl Truncated
                  | c1 # r2 \<Rightarrow>
                      if c1 \<noteq> CHR '':'' then Inl Invalid
                      else
                        (case scan_value d r2 of
                           Inl e \<Rightarrow> Inl e
                         | Inr (v, r3) \<Rightarrow>
                             (case skip_space r3 of
                                [] \<Rightarrow> Inl Truncated
                              | c2 # r4 \<Rightarrow>
                                  if c2 = CHR ''}'' then Inr ([(k, v)], r4)
                                  else if c2 = CHR '','' then
                                    (if length r4 < length s then
                                       (case scan_members d r4 of
                                          Inl e \<Rightarrow> Inl e
                                        | Inr (ms, rest) \<Rightarrow> Inr ((k, v) # ms, rest))
                                     else Inl Invalid)
                                  else Inl Invalid)))))"
  by pat_completeness auto

termination scan_value
  apply (relation "measure (\<lambda>x. case x of
          Inl (d, s) \<Rightarrow> 2 * length s
        | Inr (Inl (d, s)) \<Rightarrow> 2 * length s + 1
        | Inr (Inr (d, s)) \<Rightarrow> 2 * length s + 1)")
        apply simp
       apply (auto dest!: skip_space_Cons_length' scan_string_length'
                          skip_space_Cons_length scan_string_length)
  done

declare scan_value.simps [simp del] scan_elements.simps [simp del] scan_members.simps [simp del]

definition scan_document :: "bytes \<Rightarrow> scan_error + json" where
  \<comment> \<open>\<^verbatim>\<open>checkValid\<close>: one value, and nothing but space after it\<close>
  "scan_document s =
     (case scan_value 0 s of
        Inl e \<Rightarrow> Inl e
      | Inr (j, rest) \<Rightarrow> if skip_space rest = [] then Inr j else Inl Invalid)"

subsection \<open>Writing a tree\<close>

text \<open>The encoder writes no space: a comma between elements and between members, a colon
  after a member name.\<close>

fun encode :: "json \<Rightarrow> bytes"
  and encode_elements :: "json list \<Rightarrow> bytes"
  and encode_members :: "(bytes \<times> json) list \<Rightarrow> bytes"
where
  "encode JNull = ''null''"
| "encode (JBool b) = (if b then ''true'' else ''false'')"
| "encode (JNumber l) = l"
| "encode (JString b) = quote # b @ [quote]"
| "encode (JArray vs) = CHR ''['' # encode_elements vs @ '']''"
| "encode (JObject ms) = CHR ''{'' # encode_members ms @ ''}''"
| "encode_elements [] = []"
| "encode_elements [v] = encode v"
| "encode_elements (v # w # vs) = encode v @ CHR '','' # encode_elements (w # vs)"
| "encode_members [] = []"
| "encode_members [(k, v)] = quote # k @ quote # CHR '':'' # encode v"
| "encode_members ((k, v) # m # ms) =
     quote # k @ quote # CHR '':'' # encode v @ CHR '','' # encode_members (m # ms)"

subsection \<open>Strings\<close>

definition hex :: "nat \<Rightarrow> char" where
  "hex n = ''0123456789abcdef'' ! n"

definition htmlSafe :: "char \<Rightarrow> bool" where
  \<comment> \<open>\<^verbatim>\<open>htmlSafeSet\<close>: the ASCII bytes a string keeps as they are\<close>
  "htmlSafe c =
     (0x20 \<le> byte c \<and> byte c < 0x80 \<and> c \<noteq> quote \<and> c \<noteq> backslash
      \<and> c \<noteq> CHR ''<'' \<and> c \<noteq> CHR ''>'' \<and> c \<noteq> CHR ''&'')"

definition escape_byte :: "char \<Rightarrow> bytes" where
  "escape_byte c =
     (if c = backslash \<or> c = quote then [backslash, c]
      else if c = CHR 0x08 then [backslash, CHR ''b'']
      else if c = CHR 0x0C then [backslash, CHR ''f'']
      else if c = CHR 0x0A then [backslash, CHR ''n'']
      else if c = CHR 0x0D then [backslash, CHR ''r'']
      else if c = CHR 0x09 then [backslash, CHR ''t'']
      else [backslash, CHR ''u'', CHR ''0'', CHR ''0'', hex (byte c div 16), hex (byte c mod 16)])"

text \<open>\<^verbatim>\<open>appendString\<close> with \<^verbatim>\<open>escapeHTML\<close> set, as \<^verbatim>\<open>json.Marshal\<close> calls it, without the
  two quotes: the bytes of a string literal between its quotes.\<close>

function appendString :: "bytes \<Rightarrow> bytes" where
  "appendString [] = []"
| "appendString (c # cs) =
     (if byte c < RuneSelf then
        (if htmlSafe c then c # appendString cs else escape_byte c @ appendString cs)
      else
        (case DecodeRune (c # cs) of
           (r, n) \<Rightarrow>
             if r = RuneError \<and> n = 1 then
               [backslash, CHR ''u'', CHR ''f'', CHR ''f'', CHR ''f'', CHR ''d''] @ appendString cs
             else if r = 0x2028 \<or> r = 0x2029 then
               [backslash, CHR ''u'', CHR ''2'', CHR ''0'', CHR ''2'', hex (r mod 16)]
                 @ appendString (drop n (c # cs))
             else take n (c # cs) @ appendString (drop n (c # cs))))"
  by pat_completeness auto

termination appendString
  by (relation "measure length") (auto dest: DecodeRune_size_pos' [OF sym])

declare appendString.simps(2) [simp del]

definition hexval :: "char \<Rightarrow> nat" where
  "hexval c =
     (if is_digit c then byte c - 0x30
      else if 0x61 \<le> byte c \<and> byte c \<le> 0x66 then byte c - 0x61 + 10
      else byte c - 0x41 + 10)"

definition getu4 :: "bytes \<Rightarrow> nat option" where
  \<comment> \<open>the rune of a leading \<^verbatim>\<open>\uXXXX\<close>; \<open>None\<close> is Go's \<open>-1\<close>\<close>
  "getu4 s =
     (if length s < 6 \<or> s ! 0 \<noteq> backslash \<or> s ! 1 \<noteq> CHR ''u''
         \<or> \<not> list_all is_hex (take 4 (drop 2 s))
      then None
      else Some (foldl (\<lambda>r c. r * 16 + hexval c) 0 (take 4 (drop 2 s))))"

definition unescape :: "char \<Rightarrow> char" where
  "unescape e =
     (if e = CHR ''b'' then CHR 0x08
      else if e = CHR ''f'' then CHR 0x0C
      else if e = CHR ''n'' then CHR 0x0A
      else if e = CHR ''r'' then CHR 0x0D
      else if e = CHR ''t'' then CHR 0x09
      else e)"

text \<open>\<^verbatim>\<open>unquoteBytes\<close> on the bytes between the quotes of a string that the scanner has
  accepted: escapes are resolved, a surrogate pair is one rune, a lone surrogate and an
  ill-formed byte become U+FFFD.\<close>

function unquote :: "bytes \<Rightarrow> bytes" where
  "unquote [] = []"
| "unquote (c # cs) =
     (if c = backslash then
        (case cs of
           [] \<Rightarrow> []
         | e # es \<Rightarrow>
             if e = CHR ''u'' then
               (case getu4 (c # cs) of
                  None \<Rightarrow> []
                | Some rr \<Rightarrow>
                    if IsSurrogate rr then
                      (case getu4 (drop 4 es) of
                         None \<Rightarrow> EncodeRune RuneError @ unquote (drop 4 es)
                       | Some rr1 \<Rightarrow>
                           if utf16_DecodeRune rr rr1 \<noteq> RuneError
                           then EncodeRune (utf16_DecodeRune rr rr1) @ unquote (drop 10 es)
                           else EncodeRune RuneError @ unquote (drop 4 es))
                    else EncodeRune rr @ unquote (drop 4 es))
             else unescape e # unquote es)
      else if byte c < RuneSelf then c # unquote cs
      else
        (case DecodeRune (c # cs) of
           (rr, n) \<Rightarrow> EncodeRune rr @ unquote (drop n (c # cs))))"
  by pat_completeness auto

termination unquote
  by (relation "measure length") (auto dest: DecodeRune_size_pos' [OF sym])

declare unquote.simps(2) [simp del]

subsection \<open>Integers\<close>

definition digit :: "nat \<Rightarrow> char" where
  "digit n = char_of (0x30 + n)"

function FormatNat :: "int \<Rightarrow> bytes" where
  \<comment> \<open>the decimal digits of a number that is not negative\<close>
  "FormatNat i =
     (if i < 10 then [digit (nat i)] else FormatNat (i div 10) @ [digit (nat (i mod 10))])"
  by pat_completeness auto

termination FormatNat
  by (relation "measure nat") auto

declare FormatNat.simps [simp del]

definition FormatInt :: "int \<Rightarrow> bytes" where
  \<comment> \<open>\<^verbatim>\<open>strconv.AppendInt(b, i, 10)\<close>\<close>
  "FormatInt i = (if i < 0 then CHR ''-'' # FormatNat (- i) else FormatNat i)"

definition ParseNat :: "bytes \<Rightarrow> int" where
  "ParseNat ds = foldl (\<lambda>a d. a * 10 + (of_char d - 0x30)) 0 ds"

definition ParseInt :: "bytes \<Rightarrow> int option" where
  \<comment> \<open>\<^verbatim>\<open>strconv.ParseInt(s, 10, 64)\<close>; \<open>None\<close> is a syntax or a range error\<close>
  "ParseInt s =
     (case s of
        [] \<Rightarrow> None
      | c # cs \<Rightarrow>
          let ds = (if c = CHR ''-'' \<or> c = CHR ''+'' then cs else s);
              i = (if c = CHR ''-'' then - ParseNat ds else ParseNat ds)
          in if ds = [] \<or> \<not> list_all is_digit ds then None
             else if - 9223372036854775808 \<le> i \<and> i < 9223372036854775808 then Some i
             else None)"

subsection \<open>Floating-point numbers\<close>

text \<open>
  \<^verbatim>\<open>strconv.ParseFloat(s, 64)\<close> on a number literal of JSON returns the \<^verbatim>\<open>float64\<close> nearest to
  the number, and a range error when that is an infinity: when the number is, in absolute
  value, at least halfway between the largest \<^verbatim>\<open>float64\<close> and \<open>2 ^ 1024\<close>.  A number too
  small for a \<^verbatim>\<open>float64\<close> gives zero and no error.  The number of a literal is its digits
  times a power of ten; the digits of the exponent are read as long as the exponent is below
  10000.  This is the documented result of \<^verbatim>\<open>ParseFloat\<close>; its code keeps no more than 800
  digits of a literal, and a literal longer than that is taken here at its full value.
\<close>

definition float64_limit :: int where
  "float64_limit = (2 ^ 54 - 1) * 2 ^ 970"

definition exponent :: "bytes \<Rightarrow> int" where
  "exponent ds = foldl (\<lambda>e d. if e < 10000 then e * 10 + (of_char d - 0x30) else e) 0 ds"

definition float64_range :: "bytes \<Rightarrow> bool" where
  \<comment> \<open>no range error, for a literal that the scanner has accepted\<close>
  "float64_range l =
     (let s = (case l of [] \<Rightarrow> [] | c # cs \<Rightarrow> if c = CHR ''-'' then cs else l);
          int_part = takeWhile is_digit s;
          r = dropWhile is_digit s;
          frac_part = (case r of [] \<Rightarrow> [] | c # cs \<Rightarrow> if c = CHR ''.'' then takeWhile is_digit cs else []);
          x = (case r of [] \<Rightarrow> [] | c # cs \<Rightarrow> if c = CHR ''.'' then dropWhile is_digit cs else r);
          e = (case x of
                 [] \<Rightarrow> 0
               | c # cs \<Rightarrow>
                   (case cs of
                      [] \<Rightarrow> 0
                    | g # ds \<Rightarrow>
                        if g = CHR ''-'' then - exponent ds
                        else if g = CHR ''+'' then exponent ds
                        else exponent cs));
          m = ParseNat (int_part @ frac_part);
          k = e - int (length frac_part)
      in if 0 \<le> k then m * 10 ^ nat k < float64_limit
         else m < float64_limit * 10 ^ nat (- k))"

subsection \<open>Compacting a text\<close>

text \<open>
  \<^verbatim>\<open>appendCompact\<close> with \<^verbatim>\<open>escape\<close> set: the text must be one JSON value; the space around
  its tokens is dropped, and in its strings \<^verbatim>\<open><\<close>, \<^verbatim>\<open>>\<close>, \<^verbatim>\<open>&\<close>, U+2028 and U+2029 are
  replaced by their escapes.  Nothing else of a token changes.
\<close>

fun escapeHTML_bytes :: "bytes \<Rightarrow> bytes" where
  "escapeHTML_bytes [] = []"
| "escapeHTML_bytes (c # cs) =
     (if c = CHR ''<'' \<or> c = CHR ''>'' \<or> c = CHR ''&'' then
        [backslash, CHR ''u'', CHR ''0'', CHR ''0'', hex (byte c div 16), hex (byte c mod 16)]
          @ escapeHTML_bytes cs
      else if c = CHR 0xE2 \<and> 2 \<le> length cs \<and> cs ! 0 = CHR 0x80
              \<and> (cs ! 1 = CHR 0xA8 \<or> cs ! 1 = CHR 0xA9) then
        [backslash, CHR ''u'', CHR ''2'', CHR ''0'', CHR ''2'', hex (byte (cs ! 1) mod 16)]
          @ escapeHTML_bytes (drop 2 cs)
      else c # escapeHTML_bytes cs)"

fun escapeHTML :: "json \<Rightarrow> json"
  and escapeHTML_elements :: "json list \<Rightarrow> json list"
  and escapeHTML_members :: "(bytes \<times> json) list \<Rightarrow> (bytes \<times> json) list"
where
  "escapeHTML JNull = JNull"
| "escapeHTML (JBool b) = JBool b"
| "escapeHTML (JNumber l) = JNumber l"
| "escapeHTML (JString b) = JString (escapeHTML_bytes b)"
| "escapeHTML (JArray vs) = JArray (escapeHTML_elements vs)"
| "escapeHTML (JObject ms) = JObject (escapeHTML_members ms)"
| "escapeHTML_elements [] = []"
| "escapeHTML_elements (v # vs) = escapeHTML v # escapeHTML_elements vs"
| "escapeHTML_members [] = []"
| "escapeHTML_members ((k, v) # ms) = (escapeHTML_bytes k, escapeHTML v) # escapeHTML_members ms"

definition compact :: "bytes \<Rightarrow> scan_error + json" where
  "compact src = (case scan_document src of Inl e \<Rightarrow> Inl e | Inr j \<Rightarrow> Inr (escapeHTML j))"

section \<open>Errors\<close>

text \<open>
  A Go \<^verbatim>\<open>error\<close> value, by what a caller can tell of it: the two sentinel values of package
  \<^verbatim>\<open>io\<close>, which are compared by identity; a value that a call of \<^verbatim>\<open>errors.New\<close> has made,
  in the program or in a library, with its text (two such values with the same text differ
  by their address only, which tells a caller nothing of where they come from: they are one
  value here); and the values of the error types of the libraries.  The
  message and the offset of a \<^verbatim>\<open>*json.SyntaxError\<close> are left out; a
  \<^verbatim>\<open>*json.UnmarshalTypeError\<close> keeps its \<^verbatim>\<open>Value\<close> and the name of the Go type; a
  \<^verbatim>\<open>*json.MarshalerError\<close> keeps the name of the type; a \<^verbatim>\<open>*url.Error\<close> and a
  \<^verbatim>\<open>*net.OpError\<close> keep their text.
\<close>

datatype error =
    io_EOF
  | io_ErrUnexpectedEOF
  | errorString string
  | SyntaxError
  | UnmarshalTypeError string string
  | MarshalerError string
  | url_Error string
  | net_OpError string

definition errors_New :: "string \<Rightarrow> error" where
  "errors_New text = errorString text"

text \<open>
  An \<^verbatim>\<open>io.Reader\<close>: the bytes that \<^verbatim>\<open>Read\<close> delivers, and the error that \<^verbatim>\<open>Read\<close> returns
  when they are used up.  That error is \<^verbatim>\<open>io.EOF\<close> at the regular end of a response body and
  when the peer has closed the socket; it is another error when reading fails, for example
  the \<^verbatim>\<open>errors.New("malformed chunked encoding")\<close> of package \<^verbatim>\<open>net/http/internal\<close> on a body
  in chunks, or a \<^verbatim>\<open>*net.OpError\<close> on a socket.
\<close>

record reader =
  pending :: bytes
  failure :: error

definition bytes_reader :: "bytes \<Rightarrow> reader" where
  \<comment> \<open>a reader that ends regularly\<close>
  "bytes_reader b = \<lparr>pending = b, failure = io_EOF\<rparr>"

section \<open>The data model\<close>

record Transaction =
  tx_From :: string
  tx_To :: string
  tx_Gas :: string
  tx_GasPrice :: string
  tx_Value :: string
  tx_Nonce :: string
  tx_Data :: string

record SignDataRequest =
  sd_Address :: string
  sd_Data :: string

text \<open>A \<^verbatim>\<open>json.RawMessage\<close> is a byte slice; \<open>None\<close> is the nil slice.\<close>

record TypedDataRequest =
  td_Address :: string
  td_TypedData :: "bytes option"
  td_RawVersion :: string

record SignTxResponse_Tx =
  stx_Nonce :: string
  stx_GasPrice :: string
  stx_Gas :: string
  stx_To :: string
  stx_Value :: string
  stx_Input :: string
  stx_V :: string
  stx_R :: string
  stx_S :: string
  stx_Hash :: string

record SignTxResponse =
  Raw :: string
  Tx :: SignTxResponse_Tx

record SignDataResponse =
  Signature :: string

record VersionResponse =
  Version :: string

record EcRecoverRequest =
  ec_Data :: string
  ec_Signature :: string

record EcRecoverResponse =
  Address :: string

text \<open>
  The values of type \<^verbatim>\<open>interface{}\<close> that reach \<^verbatim>\<open>Params\<close>: the pointers the facade
  passes (\<open>None\<close> is a nil pointer), and the values that decoding into an \<^verbatim>\<open>interface{}\<close>
  yields (\<^verbatim>\<open>nil\<close>, \<^verbatim>\<open>bool\<close>, \<^verbatim>\<open>float64\<close>, \<^verbatim>\<open>string\<close>, \<^verbatim>\<open>[]interface{}\<close>,
  \<^verbatim>\<open>map[string]interface{}\<close>).  A \<^verbatim>\<open>float64\<close> is kept as a literal that denotes it: the one
  that is written for it when it is marshalled, the one it was read from when it has been
  decoded.  A map is the list of its entries in the order of their keys.
\<close>

datatype generic =
    GNil
  | GBool bool
  | GFloat64 bytes
  | GString string
  | GSlice "generic list"
  | GMap "(string \<times> generic) list"

datatype any =
    Generic generic
  | TransactionPtr "Transaction option"
  | SignDataRequestPtr "SignDataRequest option"
  | TypedDataRequestPtr "TypedDataRequest option"
  | EcRecoverRequestPtr "EcRecoverRequest option"

record rpcRequest =
  Jsonrpc :: string
  Method :: string
  Params :: any
  ID :: int

record rpcError =
  Code :: int
  Message :: string

record rpcResponse =
  rsp_Jsonrpc :: string
  Result :: bytes
  Error :: "rpcError option"
  rsp_ID :: int

section \<open>Marshalling\<close>

text \<open>
  \<^verbatim>\<open>json.Marshal\<close> on the types of the package, by their struct tags: the members in the
  order of the fields, a field tagged \<^verbatim>\<open>omitempty\<close> left out when it is the empty string,
  a nil pointer and a nil interface written \<^verbatim>\<open>null\<close>, the keys of a map sorted.
\<close>

definition string_json :: "string \<Rightarrow> json" where
  "string_json s = JString (appendString s)"

definition omitempty :: "bytes \<Rightarrow> string \<Rightarrow> (bytes \<times> json) list" where
  "omitempty name s = (if s = [] then [] else [(name, string_json s)])"

text \<open>The entries of a map are written in the order of their keys, compared as byte
  strings.\<close>

fun generic_json :: "generic \<Rightarrow> json"
  and generic_json_elements :: "generic list \<Rightarrow> json list"
  and generic_json_entries :: "(string \<times> generic) list \<Rightarrow> (string \<times> bytes \<times> json) list"
where
  "generic_json GNil = JNull"
| "generic_json (GBool b) = JBool b"
| "generic_json (GFloat64 l) = JNumber l"
| "generic_json (GString s) = string_json s"
| "generic_json (GSlice vs) = JArray (generic_json_elements vs)"
| "generic_json (GMap m) = JObject (map snd (sort_key fst (generic_json_entries m)))"
| "generic_json_elements [] = []"
| "generic_json_elements (v # vs) = generic_json v # generic_json_elements vs"
| "generic_json_entries [] = []"
| "generic_json_entries ((k, v) # m) = (k, appendString k, generic_json v) # generic_json_entries m"

definition Transaction_json :: "Transaction \<Rightarrow> json" where
  "Transaction_json t =
     JObject ([(''from'', string_json (tx_From t)), (''to'', string_json (tx_To t))]
       @ omitempty ''gas'' (tx_Gas t)
       @ omitempty ''gasPrice'' (tx_GasPrice t)
       @ omitempty ''value'' (tx_Value t)
       @ omitempty ''nonce'' (tx_Nonce t)
       @ omitempty ''data'' (tx_Data t))"

definition SignDataRequest_json :: "SignDataRequest \<Rightarrow> json" where
  "SignDataRequest_json r =
     JObject [(''address'', string_json (sd_Address r)), (''data'', string_json (sd_Data r))]"

definition RawMessage_json :: "bytes option \<Rightarrow> error + json" where
  \<comment> \<open>\<^verbatim>\<open>MarshalJSON\<close> returns \<^verbatim>\<open>null\<close> for the nil slice and the bytes otherwise; the encoder
      compacts what it returns\<close>
  "RawMessage_json m =
     (case compact (case m of None \<Rightarrow> ''null'' | Some b \<Rightarrow> b) of
        Inl e \<Rightarrow> Inl (MarshalerError ''json.RawMessage'')
      | Inr j \<Rightarrow> Inr j)"

definition TypedDataRequest_json :: "TypedDataRequest \<Rightarrow> error + json" where
  "TypedDataRequest_json r =
     (case RawMessage_json (td_TypedData r) of
        Inl e \<Rightarrow> Inl e
      | Inr d \<Rightarrow>
          Inr (JObject ([(''address'', string_json (td_Address r)), (''data'', d)]
                 @ omitempty ''raw_version'' (td_RawVersion r))))"

definition EcRecoverRequest_json :: "EcRecoverRequest \<Rightarrow> json" where
  "EcRecoverRequest_json r =
     JObject [(''data'', string_json (ec_Data r)), (''sig'', string_json (ec_Signature r))]"

text \<open>\<^verbatim>\<open>json.Marshal\<close> on the values that the operations return, as the servers in the tests
  of the package call it on the result they answer with.  A nil slice is written
  \<^verbatim>\<open>null\<close>.\<close>

definition strings_json :: "string list option \<Rightarrow> json" where
  "strings_json l = (case l of None \<Rightarrow> JNull | Some ss \<Rightarrow> JArray (map string_json ss))"

definition SignTxResponse_json :: "SignTxResponse \<Rightarrow> json" where
  "SignTxResponse_json r =
     JObject [(''raw'', string_json (Raw r)),
              (''tx'', JObject [(''nonce'', string_json (stx_Nonce (Tx r))),
                                (''gasPrice'', string_json (stx_GasPrice (Tx r))),
                                (''gas'', string_json (stx_Gas (Tx r))),
                                (''to'', string_json (stx_To (Tx r))),
                                (''value'', string_json (stx_Value (Tx r))),
                                (''input'', string_json (stx_Input (Tx r))),
                                (''v'', string_json (stx_V (Tx r))),
                                (''r'', string_json (stx_R (Tx r))),
                                (''s'', string_json (stx_S (Tx r))),
                                (''hash'', string_json (stx_Hash (Tx r)))])]"

definition SignDataResponse_json :: "SignDataResponse \<Rightarrow> json" where
  "SignDataResponse_json r = JObject [(''signature'', string_json (Signature r))]"

definition VersionResponse_json :: "VersionResponse \<Rightarrow> json" where
  "VersionResponse_json r = JObject [(''version'', string_json (Version r))]"

definition EcRecoverResponse_json :: "EcRecoverResponse \<Rightarrow> json" where
  "EcRecoverResponse_json r = JObject [(''address'', string_json (Address r))]"

text \<open>The strings of a \<^verbatim>\<open>SignTxResponse\<close>.\<close>

definition SignTxResponse_strings :: "SignTxResponse \<Rightarrow> string list" where
  "SignTxResponse_strings r =
     [Raw r, stx_Nonce (Tx r), stx_GasPrice (Tx r), stx_Gas (Tx r), stx_To (Tx r),
      stx_Value (Tx r), stx_Input (Tx r), stx_V (Tx r), stx_R (Tx r), stx_S (Tx r),
      stx_Hash (Tx r)]"

fun any_json :: "any \<Rightarrow> error + json" where
  "any_json (Generic g) = Inr (generic_json g)"
| "any_json (TransactionPtr None) = Inr JNull"
| "any_json (TransactionPtr (Some t)) = Inr (Transaction_json t)"
| "any_json (SignDataRequestPtr None) = Inr JNull"
| "any_json (SignDataRequestPtr (Some r)) = Inr (SignDataRequest_json r)"
| "any_json (TypedDataRequestPtr None) = Inr JNull"
| "any_json (TypedDataRequestPtr (Some r)) = TypedDataRequest_json r"
| "any_json (EcRecoverRequestPtr None) = Inr JNull"
| "any_json (EcRecoverRequestPtr (Some r)) = Inr (EcRecoverRequest_json r)"

definition rpcRequest_json :: "rpcRequest \<Rightarrow> error + json" where
  "rpcRequest_json r =
     (case any_json (Params r) of
        Inl e \<Rightarrow> Inl e
      | Inr p \<Rightarrow>
          Inr (JObject [(''jsonrpc'', string_json (Jsonrpc r)),
                        (''method'', string_json (Method r)),
                        (''params'', p),
                        (''id'', JNumber (FormatInt (ID r)))]))"

definition Marshal_rpcRequest :: "rpcRequest \<Rightarrow> error + bytes" where
  "Marshal_rpcRequest r = (case rpcRequest_json r of Inl e \<Rightarrow> Inl e | Inr j \<Rightarrow> Inr (encode j))"

section \<open>Unmarshalling\<close>

text \<open>
  The name of a member is matched with the names of the fields first as it is and then
  folded (\<^verbatim>\<open>foldName\<close>): ASCII letters in upper case, and the two runes outside ASCII that
  fold to an ASCII letter, U+212A to \<^verbatim>\<open>K\<close> and U+017F to \<^verbatim>\<open>S\<close>.  Every other rune folds to a
  rune outside ASCII and is left as it is here: the names of the fields are ASCII.
\<close>

fun foldName :: "bytes \<Rightarrow> bytes" where
  "foldName [] = []"
| "foldName (c # cs) =
     (if byte c < RuneSelf then
        (if 0x61 \<le> byte c \<and> byte c \<le> 0x7A then char_of (byte c - 0x20) else c) # foldName cs
      else if c = CHR 0xE2 \<and> take 2 cs = [CHR 0x84, CHR 0xAA] then CHR ''K'' # foldName (drop 2 cs)
      else if c = CHR 0xC5 \<and> take 1 cs = [CHR 0xBF] then CHR ''S'' # foldName (drop 1 cs)
      else c # foldName cs)"

definition find_field :: "(bytes \<times> 'a) list \<Rightarrow> bytes \<Rightarrow> 'a option" where
  "find_field fs key =
     (case map_of fs key of
        Some f \<Rightarrow> Some f
      | None \<Rightarrow> map_of (map (\<lambda>nf. (foldName (fst nf), snd nf)) fs) (foldName key))"

definition kind :: "json \<Rightarrow> string" where
  \<comment> \<open>the \<^verbatim>\<open>Value\<close> of an \<^verbatim>\<open>UnmarshalTypeError\<close>\<close>
  "kind j =
     (case j of
        JNull \<Rightarrow> ''null''
      | JBool b \<Rightarrow> ''bool''
      | JNumber l \<Rightarrow> ''number''
      | JString b \<Rightarrow> ''string''
      | JArray vs \<Rightarrow> ''array''
      | JObject ms \<Rightarrow> ''object'')"

text \<open>
  A decoder stores a tree into a value of its type and may report an error; the decoder of a
  struct goes on after an error and keeps the first one (\<^verbatim>\<open>saveError\<close>).  \<^verbatim>\<open>null\<close> leaves a
  string, a number and a struct as they are.
\<close>

type_synonym 'a decoder = "json \<Rightarrow> 'a \<Rightarrow> 'a \<times> error option"

definition first_error :: "error option \<Rightarrow> error option \<Rightarrow> error option" where
  "first_error saved e = (case saved of None \<Rightarrow> e | Some x \<Rightarrow> Some x)"

definition decode_string :: "string decoder" where
  "decode_string j s =
     (case j of
        JString b \<Rightarrow> (unquote b, None)
      | JNull \<Rightarrow> (s, None)
      | _ \<Rightarrow> (s, Some (UnmarshalTypeError (kind j) ''string'')))"

definition decode_int :: "int decoder" where
  "decode_int j i =
     (case j of
        JNumber l \<Rightarrow>
          (case ParseInt l of
             Some n \<Rightarrow> (n, None)
           | None \<Rightarrow> (i, Some (UnmarshalTypeError (''number '' @ l) ''int'')))
      | JNull \<Rightarrow> (i, None)
      | _ \<Rightarrow> (i, Some (UnmarshalTypeError (kind j) ''int'')))"

definition field :: "('r \<Rightarrow> 'a) \<Rightarrow> ('a \<Rightarrow> 'r \<Rightarrow> 'r) \<Rightarrow> 'a decoder \<Rightarrow> 'r decoder" where
  \<comment> \<open>the decoder of a field of a struct, from its selector, its update and its decoder\<close>
  "field sel upd dec j r = (case dec j (sel r) of (v, e) \<Rightarrow> (upd v r, e))"

text \<open>The members of an object are stored one after the other, each by the decoder of the
  field its name matches; a member that matches no field is skipped.\<close>

fun decode_members :: "(bytes \<times> ('m \<Rightarrow> 'r \<Rightarrow> 'r \<times> error option)) list \<Rightarrow> (bytes \<times> 'm) list \<Rightarrow> 'r \<times> error option \<Rightarrow> 'r \<times> error option" where
  "decode_members fs [] st = st"
| "decode_members fs ((k, v) # ms) (r, saved) =
     (case find_field fs (unquote k) of
        None \<Rightarrow> decode_members fs ms (r, saved)
      | Some dec \<Rightarrow>
          (case dec v r of (r', e) \<Rightarrow> decode_members fs ms (r', first_error saved e)))"

definition decode_struct :: "string \<Rightarrow> (bytes \<times> 'r decoder) list \<Rightarrow> 'r decoder" where
  "decode_struct type_name fs j r =
     (case j of
        JObject ms \<Rightarrow> decode_members fs ms (r, None)
      | JNull \<Rightarrow> (r, None)
      | _ \<Rightarrow> (r, Some (UnmarshalTypeError (kind j) type_name)))"

fun decode_elements :: "json list \<Rightarrow> string list \<times> error option" where
  "decode_elements [] = ([], None)"
| "decode_elements (v # vs) =
     (case decode_string v [] of
        (s, e) \<Rightarrow> (case decode_elements vs of (ss, e') \<Rightarrow> (s # ss, first_error e e')))"

text \<open>A \<^verbatim>\<open>[]string\<close>: \<open>None\<close> is the nil slice, which \<^verbatim>\<open>null\<close> stores.\<close>

definition decode_strings :: "string list option decoder" where
  "decode_strings j s =
     (case j of
        JArray vs \<Rightarrow> (case decode_elements vs of (ss, e) \<Rightarrow> (Some ss, e))
      | JNull \<Rightarrow> (None, None)
      | _ \<Rightarrow> (s, Some (UnmarshalTypeError (kind j) ''[]string'')))"

definition SignTxResponse_Tx_fields :: "(bytes \<times> SignTxResponse_Tx decoder) list" where
  "SignTxResponse_Tx_fields =
     [(''nonce'', field stx_Nonce (\<lambda>v r. r\<lparr>stx_Nonce := v\<rparr>) decode_string),
      (''gasPrice'', field stx_GasPrice (\<lambda>v r. r\<lparr>stx_GasPrice := v\<rparr>) decode_string),
      (''gas'', field stx_Gas (\<lambda>v r. r\<lparr>stx_Gas := v\<rparr>) decode_string),
      (''to'', field stx_To (\<lambda>v r. r\<lparr>stx_To := v\<rparr>) decode_string),
      (''value'', field stx_Value (\<lambda>v r. r\<lparr>stx_Value := v\<rparr>) decode_string),
      (''input'', field stx_Input (\<lambda>v r. r\<lparr>stx_Input := v\<rparr>) decode_string),
      (''v'', field stx_V (\<lambda>v r. r\<lparr>stx_V := v\<rparr>) decode_string),
      (''r'', field stx_R (\<lambda>v r. r\<lparr>stx_R := v\<rparr>) decode_string),
      (''s'', field stx_S (\<lambda>v r. r\<lparr>stx_S := v\<rparr>) decode_string),
      (''hash'', field stx_Hash (\<lambda>v r. r\<lparr>stx_Hash := v\<rparr>) decode_string)]"

text \<open>The struct of the field \<^verbatim>\<open>Tx\<close> has no name; its type is printed with its fields, as
  \<^verbatim>\<open>struct { Nonce string "json:\"nonce\""; ... }\<close>.\<close>

definition struct_tag :: "string \<Rightarrow> string \<Rightarrow> string" where
  \<open>struct_tag f name = f @ '' string "json:'' @ CHR 0x5C # ''"'' @ name @ CHR 0x5C # ''""''\<close>

definition Tx_type :: string where
  "Tx_type =
     ''struct { ''
        @ struct_tag ''Nonce'' ''nonce'' @ ''; ''
        @ struct_tag ''GasPrice'' ''gasPrice'' @ ''; ''
        @ struct_tag ''Gas'' ''gas'' @ ''; ''
        @ struct_tag ''To'' ''to'' @ ''; ''
        @ struct_tag ''Value'' ''value'' @ ''; ''
        @ struct_tag ''Input'' ''input'' @ ''; ''
        @ struct_tag ''V'' ''v'' @ ''; ''
        @ struct_tag ''R'' ''r'' @ ''; ''
        @ struct_tag ''S'' ''s'' @ ''; ''
        @ struct_tag ''Hash'' ''hash''
        @ '' }''"

definition SignTxResponse_fields :: "(bytes \<times> SignTxResponse decoder) list" where
  "SignTxResponse_fields =
     [(''raw'', field Raw (\<lambda>v r. r\<lparr>Raw := v\<rparr>) decode_string),
      (''tx'', field Tx (\<lambda>v r. r\<lparr>Tx := v\<rparr>)
                 (decode_struct Tx_type SignTxResponse_Tx_fields))]"

definition SignDataResponse_fields :: "(bytes \<times> SignDataResponse decoder) list" where
  "SignDataResponse_fields =
     [(''signature'', field Signature (\<lambda>v r. r\<lparr>Signature := v\<rparr>) decode_string)]"

definition VersionResponse_fields :: "(bytes \<times> VersionResponse decoder) list" where
  "VersionResponse_fields =
     [(''version'', field Version (\<lambda>v r. r\<lparr>Version := v\<rparr>) decode_string)]"

definition EcRecoverResponse_fields :: "(bytes \<times> EcRecoverResponse decoder) list" where
  "EcRecoverResponse_fields =
     [(''address'', field Address (\<lambda>v r. r\<lparr>Address := v\<rparr>) decode_string)]"

definition rpcError_fields :: "(bytes \<times> rpcError decoder) list" where
  "rpcError_fields =
     [(''code'', field Code (\<lambda>v r. r\<lparr>Code := v\<rparr>) decode_int),
      (''message'', field Message (\<lambda>v r. r\<lparr>Message := v\<rparr>) decode_string)]"

text \<open>The zero values that \<^verbatim>\<open>var result T\<close> declares.\<close>

definition zero_SignTxResponse :: SignTxResponse where
  "zero_SignTxResponse =
     \<lparr>Raw = [],
      Tx = \<lparr>stx_Nonce = [], stx_GasPrice = [], stx_Gas = [], stx_To = [], stx_Value = [],
            stx_Input = [], stx_V = [], stx_R = [], stx_S = [], stx_Hash = []\<rparr>\<rparr>"

definition zero_rpcError :: rpcError where
  "zero_rpcError = \<lparr>Code = 0, Message = []\<rparr>"

definition zero_rpcResponse :: rpcResponse where
  "zero_rpcResponse = \<lparr>rsp_Jsonrpc = [], Result = [], Error = None, rsp_ID = 0\<rparr>"

text \<open>
  \<^verbatim>\<open>json.Unmarshal(data, &v)\<close> for a \<open>v\<close> that holds \<open>zero\<close>: the text is checked first, and a
  text that is not one JSON value is a \<^verbatim>\<open>SyntaxError\<close>; then the value is decoded.
\<close>

definition Unmarshal :: "'a decoder \<Rightarrow> 'a \<Rightarrow> bytes \<Rightarrow> error + 'a" where
  "Unmarshal dec zero data =
     (case scan_document data of
        Inl e \<Rightarrow> Inl SyntaxError
      | Inr j \<Rightarrow> (case dec j zero of (v, None) \<Rightarrow> Inr v | (v, Some err) \<Rightarrow> Inl err))"

text \<open>
  A pointer to a struct: \<^verbatim>\<open>null\<close> stores nil, any other value is decoded into the struct
  the pointer has, or into a new one.
\<close>

definition decode_pointer :: "'a \<Rightarrow> 'a decoder \<Rightarrow> 'a option decoder" where
  "decode_pointer zero dec j p =
     (case j of
        JNull \<Rightarrow> (None, None)
      | _ \<Rightarrow> (case dec j (case p of None \<Rightarrow> zero | Some v \<Rightarrow> v) of (v, e) \<Rightarrow> (Some v, e)))"

text \<open>
  The members of an \<^verbatim>\<open>rpcResponse\<close>.  \<^verbatim>\<open>Result\<close> is a \<^verbatim>\<open>json.RawMessage\<close>: it takes the
  text of the member's value as it stands in the input, also when that is \<^verbatim>\<open>null\<close>.
\<close>

fun raw_members :: "nat \<Rightarrow> bytes \<Rightarrow> bytes list" where
  "raw_members 0 s = []"
| "raw_members (Suc n) s =
     (case skip_space s of
        [] \<Rightarrow> []
      | c # cs \<Rightarrow>
          (case scan_string cs of
             Inl e \<Rightarrow> []
           | Inr (k, r1) \<Rightarrow>
               (case skip_space r1 of
                  [] \<Rightarrow> []
                | c1 # r2 \<Rightarrow>
                    (case scan_value 1 r2 of
                       Inl e \<Rightarrow> []
                     | Inr (v, r3) \<Rightarrow>
                         take (length (skip_space r2) - length r3) (skip_space r2)
                           # raw_members n (drop 1 (skip_space r3))))))"

definition rpcResponse_fields :: "(bytes \<times> (json \<times> bytes \<Rightarrow> rpcResponse \<Rightarrow> rpcResponse \<times> error option)) list" where
  \<comment> \<open>a member's value comes as its tree and its text\<close>
  "rpcResponse_fields =
     [(''jsonrpc'', \<lambda>v. field rsp_Jsonrpc (\<lambda>v r. r\<lparr>rsp_Jsonrpc := v\<rparr>) decode_string (fst v)),
      (''result'', \<lambda>v r. (r\<lparr>Result := snd v\<rparr>, None)),
      (''error'', \<lambda>v. field Error (\<lambda>v r. r\<lparr>Error := v\<rparr>)
                    (decode_pointer zero_rpcError
                       (decode_struct ''clefclient.rpcError'' rpcError_fields)) (fst v)),
      (''id'', \<lambda>v. field rsp_ID (\<lambda>v r. r\<lparr>rsp_ID := v\<rparr>) decode_int (fst v))]"

definition decode_rpcResponse :: "bytes \<Rightarrow> rpcResponse decoder" where
  \<comment> \<open>\<open>data\<close> is the text that \<open>j\<close> was scanned from\<close>
  "decode_rpcResponse data j r =
     (case j of
        JObject ms \<Rightarrow>
          decode_members rpcResponse_fields
            (zip (map fst ms)
               (zip (map snd ms) (raw_members (length ms) (drop 1 (skip_space data)))))
            (r, None)
      | JNull \<Rightarrow> (r, None)
      | _ \<Rightarrow> (r, Some (UnmarshalTypeError (kind j) ''clefclient.rpcResponse'')))"

text \<open>
  \<^verbatim>\<open>json.NewDecoder(r).Decode(&rpcResp)\<close>: the decoder reads the first value of the stream
  and leaves what follows it.  It scans the bytes it has before it looks at the error of the
  reader.  When the bytes end before the value does, it returns the error of the reader as
  it is, except that \<^verbatim>\<open>io.EOF\<close> inside a value becomes \<^verbatim>\<open>io.ErrUnexpectedEOF\<close>.  An object and
  an array end with their closing bracket; any other value ends with the byte after it, or
  with \<^verbatim>\<open>io.EOF\<close>, so that, followed by another error of the reader, it is not returned.
  The second component is the reader after the call.
\<close>

definition ends_itself :: "json \<Rightarrow> bool" where
  "ends_itself j = (case j of JObject ms \<Rightarrow> True | JArray vs \<Rightarrow> True | _ \<Rightarrow> False)"

definition Decode_rpcResponse :: "reader \<Rightarrow> (error + rpcResponse) \<times> reader" where
  "Decode_rpcResponse r =
     (case scan_value 0 (pending r) of
        Inl Truncated \<Rightarrow>
          (Inl (if failure r = io_EOF
                then (if skip_space (pending r) = [] then io_EOF else io_ErrUnexpectedEOF)
                else failure r),
           r\<lparr>pending := []\<rparr>)
      | Inl Invalid \<Rightarrow> (Inl SyntaxError, r\<lparr>pending := []\<rparr>)
      | Inr (j, rest) \<Rightarrow>
          if rest = [] \<and> failure r \<noteq> io_EOF \<and> \<not> ends_itself j
          then (Inl (failure r), r\<lparr>pending := []\<rparr>)
          else
            (case decode_rpcResponse (pending r) j zero_rpcResponse of
               (v, None) \<Rightarrow> (Inr v, r\<lparr>pending := rest\<rparr>)
             | (v, Some err) \<Rightarrow> (Inl err, r\<lparr>pending := rest\<rparr>)))"

text \<open>
  Decoding into an \<^verbatim>\<open>interface{}\<close> that holds nil: \<^verbatim>\<open>null\<close> gives nil, a number the
  \<^verbatim>\<open>float64\<close> that \<^verbatim>\<open>strconv.ParseFloat\<close> returns for its literal, an array a
  \<^verbatim>\<open>[]interface{}\<close>, an object a \<^verbatim>\<open>map[string]interface{}\<close> in which a later member
  replaces an earlier one of the same name.  A number out of the range of \<^verbatim>\<open>float64\<close> gives
  nil and a \<^verbatim>\<open>*json.UnmarshalTypeError\<close>, and decoding goes on; the first error is the one
  that \<^verbatim>\<open>Decode\<close> returns.

  A decoded \<^verbatim>\<open>float64\<close> is named here by the literal it was read from, and a map by the list
  of its entries in the order of their keys.  Two literals may name the same \<^verbatim>\<open>float64\<close>: on
  values that hold a \<^verbatim>\<open>float64\<close>, equality here is finer than equality in Go, and nothing
  below compares such values.
\<close>

fun put :: "string \<Rightarrow> generic \<Rightarrow> (string \<times> generic) list \<Rightarrow> (string \<times> generic) list" where
  "put k v [] = [(k, v)]"
| "put k v ((k', v') # m) =
     (if k = k' then (k, v) # m
      else if k < k' then (k, v) # (k', v') # m
      else (k', v') # put k v m)"

fun generic_of_json :: "json \<Rightarrow> generic"
  and generic_of_elements :: "json list \<Rightarrow> generic list"
  and generic_of_members :: "(bytes \<times> json) list \<Rightarrow> (string \<times> generic) list \<Rightarrow> (string \<times> generic) list"
where
  "generic_of_json JNull = GNil"
| "generic_of_json (JBool b) = GBool b"
| "generic_of_json (JNumber l) = (if float64_range l then GFloat64 l else GNil)"
| "generic_of_json (JString b) = GString (unquote b)"
| "generic_of_json (JArray vs) = GSlice (generic_of_elements vs)"
| "generic_of_json (JObject ms) = GMap (generic_of_members ms [])"
| "generic_of_elements [] = []"
| "generic_of_elements (v # vs) = generic_of_json v # generic_of_elements vs"
| "generic_of_members [] m = m"
| "generic_of_members ((k, v) # ms) m = generic_of_members ms (put (unquote k) (generic_of_json v) m)"

fun range_error :: "json \<Rightarrow> error option"
  and range_error_elements :: "json list \<Rightarrow> error option"
  and range_error_members :: "(bytes \<times> json) list \<Rightarrow> error option"
where
  "range_error (JNumber l) =
     (if float64_range l then None else Some (UnmarshalTypeError (''number '' @ l) ''float64''))"
| "range_error (JArray vs) = range_error_elements vs"
| "range_error (JObject ms) = range_error_members ms"
| "range_error JNull = None"
| "range_error (JBool b) = None"
| "range_error (JString b) = None"
| "range_error_elements [] = None"
| "range_error_elements (v # vs) = first_error (range_error v) (range_error_elements vs)"
| "range_error_members [] = None"
| "range_error_members ((k, v) # ms) = first_error (range_error v) (range_error_members ms)"

definition decode_any :: "any decoder" where
  "decode_any j p = (Generic (generic_of_json j), range_error j)"

text \<open>The tests of the package decode the request on the side of the server:
  \<^verbatim>\<open>json.NewDecoder(r.Body).Decode(&req)\<close> with \<^verbatim>\<open>var req rpcRequest\<close>.\<close>

definition rpcRequest_fields :: "(bytes \<times> rpcRequest decoder) list" where
  "rpcRequest_fields =
     [(''jsonrpc'', field Jsonrpc (\<lambda>v r. r\<lparr>Jsonrpc := v\<rparr>) decode_string),
      (''method'', field Method (\<lambda>v r. r\<lparr>Method := v\<rparr>) decode_string),
      (''params'', field Params (\<lambda>v r. r\<lparr>Params := v\<rparr>) decode_any),
      (''id'', field ID (\<lambda>v r. r\<lparr>ID := v\<rparr>) decode_int)]"

definition zero_rpcRequest :: rpcRequest where
  "zero_rpcRequest = \<lparr>Jsonrpc = [], Method = [], Params = Generic GNil, ID = 0\<rparr>"

definition Decode_rpcRequest :: "bytes \<Rightarrow> error + rpcRequest" where
  "Decode_rpcRequest data =
     (case scan_value 0 data of
        Inl Truncated \<Rightarrow> Inl (if skip_space data = [] then io_EOF else io_ErrUnexpectedEOF)
      | Inl Invalid \<Rightarrow> Inl SyntaxError
      | Inr (j, rest) \<Rightarrow>
          (case decode_struct ''clefclient.rpcRequest'' rpcRequest_fields j zero_rpcRequest of
             (v, None) \<Rightarrow> Inr v
           | (v, Some err) \<Rightarrow> Inl err))"

section \<open>The transports\<close>

text \<open>
  \<^verbatim>\<open>http.Post(url, contentType, body)\<close> is the world outside the program: a function from
  the request to an error or a response, of which the program reads the body.  An error of
  \<^verbatim>\<open>http.Post\<close> is always a \<^verbatim>\<open>*url.Error\<close>, here its text.  The body of a response is a
  reader: reading it can fail.
\<close>

record http_Response =
  StatusCode :: int
  Body :: reader

type_synonym http_Post = "string \<Rightarrow> string \<Rightarrow> bytes \<Rightarrow> string + http_Response"

record httpTransport =
  http_url :: string

definition newHTTPTransport :: "string \<Rightarrow> httpTransport" where
  "newHTTPTransport u = \<lparr>http_url = u\<rparr>"

definition httpTransport_call :: "http_Post \<Rightarrow> httpTransport \<Rightarrow> string \<Rightarrow> any \<Rightarrow> error + rpcResponse" where
  "httpTransport_call post t method params =
     (case Marshal_rpcRequest \<lparr>Jsonrpc = ''2.0'', Method = method, Params = params, ID = 1\<rparr> of
        Inl err \<Rightarrow> Inl err
      | Inr reqBody \<Rightarrow>
          (case post (http_url t) ''application/json'' reqBody of
             Inl err \<Rightarrow> Inl (url_Error err)
           | Inr resp \<Rightarrow>
               (case fst (Decode_rpcResponse (Body resp)) of
                  Inl err \<Rightarrow> Inl err
                | Inr rpcResp \<Rightarrow>
                    (case Error rpcResp of
                       Some e \<Rightarrow> Inl (errors_New (Message e))
                     | None \<Rightarrow> Inr rpcResp))))"

definition httpTransport_close :: "httpTransport \<Rightarrow> error option" where
  "httpTransport_close t = None"

text \<open>The unexported \<^verbatim>\<open>rpcClient\<close> of \<^verbatim>\<open>clef_client.go\<close>.\<close>

record rpcClient =
  rpc_url :: string

definition newRPCClient :: "string \<Rightarrow> rpcClient" where
  "newRPCClient u = \<lparr>rpc_url = u\<rparr>"

definition rpcClient_call :: "http_Post \<Rightarrow> rpcClient \<Rightarrow> string \<Rightarrow> any \<Rightarrow> error + rpcResponse" where
  "rpcClient_call post c method params =
     (case Marshal_rpcRequest \<lparr>Jsonrpc = ''2.0'', Method = method, Params = params, ID = 1\<rparr> of
        Inl err \<Rightarrow> Inl err
      | Inr reqBody \<Rightarrow>
          (case post (rpc_url c) ''application/json'' reqBody of
             Inl err \<Rightarrow> Inl (url_Error err)
           | Inr resp \<Rightarrow>
               (case fst (Decode_rpcResponse (Body resp)) of
                  Inl err \<Rightarrow> Inl err
                | Inr rpcResp \<Rightarrow>
                    (case Error rpcResp of
                       Some e \<Rightarrow> Inl (errors_New (Message e))
                     | None \<Rightarrow> Inr rpcResp))))"

text \<open>
  A \<^verbatim>\<open>net.Conn\<close>: whether it has been closed, the bytes written to it so far, and the
  reader of what the peer sends.  A write to a closed connection fails and writes nothing;
  a write to an open connection succeeds.  A call makes a new decoder; the bytes that this
  decoder may have buffered beyond the value it returns are kept in \<open>incoming\<close> here, and no
  property below reads \<open>incoming\<close> after a call.
\<close>

record net_Conn =
  closed :: bool
  written :: bytes
  incoming :: reader

definition ErrClosed :: error where
  "ErrClosed = net_OpError ''use of closed network connection''"

definition conn_Write :: "net_Conn \<Rightarrow> bytes \<Rightarrow> error option \<times> net_Conn" where
  "conn_Write c b = (if closed c then (Some ErrClosed, c) else (None, c\<lparr>written := written c @ b\<rparr>))"

definition conn_Close :: "net_Conn \<Rightarrow> error option \<times> net_Conn" where
  "conn_Close c = (if closed c then (Some ErrClosed, c) else (None, c\<lparr>closed := True\<rparr>))"

record ipcTransport =
  conn :: net_Conn

definition newline :: char where
  "newline = CHR 0x0A"

definition ipcTransport_call :: "ipcTransport \<Rightarrow> string \<Rightarrow> any \<Rightarrow> (error + rpcResponse) \<times> ipcTransport" where
  "ipcTransport_call t method params =
     (case Marshal_rpcRequest \<lparr>Jsonrpc = ''2.0'', Method = method, Params = params, ID = 1\<rparr> of
        Inl err \<Rightarrow> (Inl err, t)
      | Inr reqBody \<Rightarrow>
          (case conn_Write (conn t) (reqBody @ [newline]) of
             (Some err, c) \<Rightarrow> (Inl err, t\<lparr>conn := c\<rparr>)
           | (None, c) \<Rightarrow>
               (case Decode_rpcResponse (incoming c) of
                  (Inl err, rest) \<Rightarrow> (Inl err, t\<lparr>conn := c\<lparr>incoming := rest\<rparr>\<rparr>)
                | (Inr rpcResp, rest) \<Rightarrow>
                    (case Error rpcResp of
                       Some e \<Rightarrow> (Inl (errors_New (Message e)), t\<lparr>conn := c\<lparr>incoming := rest\<rparr>\<rparr>)
                     | None \<Rightarrow> (Inr rpcResp, t\<lparr>conn := c\<lparr>incoming := rest\<rparr>\<rparr>)))))"

definition ipcTransport_close :: "ipcTransport \<Rightarrow> error option \<times> ipcTransport" where
  "ipcTransport_close t = (case conn_Close (conn t) of (e, c) \<Rightarrow> (e, t\<lparr>conn := c\<rparr>))"

text \<open>The interface \<^verbatim>\<open>transport\<close> and its two implementations.\<close>

datatype transport = HTTP httpTransport | IPC ipcTransport

fun transport_call :: "http_Post \<Rightarrow> transport \<Rightarrow> string \<Rightarrow> any \<Rightarrow> (error + rpcResponse) \<times> transport" where
  "transport_call post (HTTP t) method params = (httpTransport_call post t method params, HTTP t)"
| "transport_call post (IPC t) method params =
     (case ipcTransport_call t method params of (r, t') \<Rightarrow> (r, IPC t'))"

fun transport_close :: "transport \<Rightarrow> error option \<times> transport" where
  "transport_close (HTTP t) = (httpTransport_close t, HTTP t)"
| "transport_close (IPC t) = (case ipcTransport_close t of (e, t') \<Rightarrow> (e, IPC t'))"

section \<open>The facade\<close>

text \<open>
  A \<^verbatim>\<open>ClefClient\<close> holds a value of the interface \<^verbatim>\<open>transport\<close>; its methods use nothing of
  it but \<^verbatim>\<open>call\<close>.  The interface is the type \<open>'t\<close> of the transport's state with the
  function \<open>call\<close>; a method returns its result and the transport after the call.
\<close>

type_synonym 't call = "'t \<Rightarrow> string \<Rightarrow> any \<Rightarrow> (error + rpcResponse) \<times> 't"

definition NewAccount :: "'t call \<Rightarrow> 't \<Rightarrow> (error + string) \<times> 't" where
  "NewAccount call t =
     (case call t ''account_new'' (Generic GNil) of
        (Inl err, t') \<Rightarrow> (Inl err, t')
      | (Inr resp, t') \<Rightarrow> (Unmarshal decode_string [] (Result resp), t'))"

definition ListAccounts :: "'t call \<Rightarrow> 't \<Rightarrow> (error + string list option) \<times> 't" where
  "ListAccounts call t =
     (case call t ''account_list'' (Generic GNil) of
        (Inl err, t') \<Rightarrow> (Inl err, t')
      | (Inr resp, t') \<Rightarrow> (Unmarshal decode_strings None (Result resp), t'))"

definition SignTransaction :: "'t call \<Rightarrow> 't \<Rightarrow> Transaction option \<Rightarrow> (error + SignTxResponse) \<times> 't" where
  "SignTransaction call t tx =
     (case call t ''account_signTransaction'' (TransactionPtr tx) of
        (Inl err, t') \<Rightarrow> (Inl err, t')
      | (Inr resp, t') \<Rightarrow>
          (Unmarshal (decode_struct ''clefclient.SignTxResponse'' SignTxResponse_fields)
             zero_SignTxResponse (Result resp), t'))"

definition SignData :: "'t call \<Rightarrow> 't \<Rightarrow> SignDataRequest option \<Rightarrow> (error + SignDataResponse) \<times> 't" where
  "SignData call t req =
     (case call t ''account_signData'' (SignDataRequestPtr req) of
        (Inl err, t') \<Rightarrow> (Inl err, t')
      | (Inr resp, t') \<Rightarrow>
          (Unmarshal (decode_struct ''clefclient.SignDataResponse'' SignDataResponse_fields)
             \<lparr>Signature = []\<rparr> (Result resp), t'))"

definition SignTypedData :: "'t call \<Rightarrow> 't \<Rightarrow> TypedDataRequest option \<Rightarrow> (error + SignDataResponse) \<times> 't" where
  "SignTypedData call t req =
     (case call t ''account_signTypedData'' (TypedDataRequestPtr req) of
        (Inl err, t') \<Rightarrow> (Inl err, t')
      | (Inr resp, t') \<Rightarrow>
          (Unmarshal (decode_struct ''clefclient.SignDataResponse'' SignDataResponse_fields)
             \<lparr>Signature = []\<rparr> (Result resp), t'))"

definition EcRecover :: "'t call \<Rightarrow> 't \<Rightarrow> EcRecoverRequest option \<Rightarrow> (error + EcRecoverResponse) \<times> 't" where
  "EcRecover call t req =
     (case call t ''account_ecRecover'' (EcRecoverRequestPtr req) of
        (Inl err, t') \<Rightarrow> (Inl err, t')
      | (Inr resp, t') \<Rightarrow>
          (Unmarshal (decode_struct ''clefclient.EcRecoverResponse'' EcRecoverResponse_fields)
             \<lparr>Address = []\<rparr> (Result resp), t'))"

definition Version_query :: "'t call \<Rightarrow> 't \<Rightarrow> (error + VersionResponse) \<times> 't" where
  "Version_query call t =
     (case call t ''account_version'' (Generic GNil) of
        (Inl err, t') \<Rightarrow> (Inl err, t')
      | (Inr resp, t') \<Rightarrow>
          (Unmarshal (decode_struct ''clefclient.VersionResponse'' VersionResponse_fields)
             \<lparr>Version = []\<rparr> (Result resp), t'))"

section \<open>Observing a call\<close>

text \<open>
  The response envelope that a call decodes, when the call gets that far: the request was
  marshalled, it was sent (the POST returned a response, the connection was open), and the
  answer decoded without error.
\<close>

fun decoded_response :: "http_Post \<Rightarrow> transport \<Rightarrow> string \<Rightarrow> any \<Rightarrow> rpcResponse option" where
  "decoded_response post (HTTP t) method params =
     (case Marshal_rpcRequest \<lparr>Jsonrpc = ''2.0'', Method = method, Params = params, ID = 1\<rparr> of
        Inl err \<Rightarrow> None
      | Inr reqBody \<Rightarrow>
          (case post (http_url t) ''application/json'' reqBody of
             Inl err \<Rightarrow> None
           | Inr resp \<Rightarrow>
               (case fst (Decode_rpcResponse (Body resp)) of
                  Inl err \<Rightarrow> None
                | Inr rpcResp \<Rightarrow> Some rpcResp)))"
| "decoded_response post (IPC t) method params =
     (case Marshal_rpcRequest \<lparr>Jsonrpc = ''2.0'', Method = method, Params = params, ID = 1\<rparr> of
        Inl err \<Rightarrow> None
      | Inr reqBody \<Rightarrow>
          if closed (conn t) then None
          else
            (case fst (Decode_rpcResponse (incoming (conn t))) of
               Inl err \<Rightarrow> None
             | Inr rpcResp \<Rightarrow> Some rpcResp))"

text \<open>Test doubles: a server that answers every POST with the same response, a POST that
  fails and reports what it was given, and a transport that records the calls it gets.\<close>

definition serve :: "int \<Rightarrow> bytes \<Rightarrow> http_Post" where
  "serve status body u contentType reqBody =
     Inr \<lparr>StatusCode = status, Body = bytes_reader body\<rparr>"

definition echo :: http_Post where
  "echo u contentType reqBody = Inl reqBody"

definition recording :: "(string \<Rightarrow> any \<Rightarrow> error + rpcResponse) \<Rightarrow> (string \<times> any) list call" where
  "recording reply calls method params = (reply method params, calls @ [(method, params)])"

definition result_envelope :: "bytes \<Rightarrow> rpcResponse" where
  "result_envelope payload = \<lparr>rsp_Jsonrpc = ''2.0'', Result = payload, Error = None, rsp_ID = 1\<rparr>"

definition result_double :: "bytes \<Rightarrow> unit call" where
  "result_double payload t method params = (Inr (result_envelope payload), t)"

definition member_names :: "json \<Rightarrow> bytes list" where
  "member_names j = (case j of JObject ms \<Rightarrow> map fst ms | _ \<Rightarrow> [])"

text \<open>The envelope of the third scenario of the specification, an open connection on which
  given bytes arrive, and an HTTP client.\<close>

definition unknown_account :: bytes where
  \<open>unknown_account =
     ''{"jsonrpc":"2.0","error":{"code":-32000,"message":"unknown account"},"id":1}''\<close>

definition unknown_account_envelope :: rpcResponse where
  "unknown_account_envelope =
     \<lparr>rsp_Jsonrpc = ''2.0'', Result = [],
      Error = Some \<lparr>Code = - 32000, Message = ''unknown account''\<rparr>, rsp_ID = 1\<rparr>"

definition open_conn :: "bytes \<Rightarrow> transport" where
  "open_conn b = IPC \<lparr>conn = \<lparr>closed = False, written = [], incoming = bytes_reader b\<rparr>\<rparr>"

definition endpoint :: transport where
  "endpoint = HTTP (newHTTPTransport ''http://localhost:8550'')"

text \<open>The values and the payloads of the tests of the package.\<close>

definition address1 :: string where
  "address1 = ''0x0000000000000000000000000000000000000001''"

definition address2 :: string where
  "address2 = ''0x0000000000000000000000000000000000000002''"

definition signature1 :: string where
  "signature1 = ''0x4f355c7f6c7f7a4c9a0874ab8a8b98b2c97d43e7a208b8474b7b0d11f857c0036f7e456609e6e797d1b4e9d5b4482e9c778b3d3ca7e8a8b4d2d3e7a8c8d2e4f500''"

definition signed_tx :: SignTxResponse where
  "signed_tx =
     \<lparr>Raw = ''0xd46e8dd67c5d32be8d46e8dd67c5d32be8058bb8eb970870f072445675058bb8eb970870f072445675'',
      Tx = \<lparr>stx_Nonce = ''0x0'', stx_GasPrice = ''0x4a817c800'', stx_Gas = ''0x5208'',
            stx_To = address2, stx_Value = ''0xde0b6b3a7640000'', stx_Input = ''0x'',
            stx_V = ''0x25'',
            stx_R = ''0x4f355c7f6c7f7a4c9a0874ab8a8b98b2c97d43e7a208b8474b7b0d11f857c003'',
            stx_S = ''0x6f7e456609e6e797d1b4e9d5b4482e9c778b3d3ca7e8a8b4d2d3e7a8c8d2e4f5'',
            stx_Hash = ''0x123456789abcdef0123456789abcdef0123456789abcdef0123456789abcdef0''\<rparr>\<rparr>"

definition address_payload :: bytes where
  \<open>address_payload = ''"0x0000000000000000000000000000000000000001"''\<close>

definition accounts_payload :: bytes where
  \<open>accounts_payload =
     ''["0x0000000000000000000000000000000000000001","0x0000000000000000000000000000000000000002"]''\<close>

definition signed_tx_payload :: bytes where
  \<open>signed_tx_payload =
     ''{"raw":"0xd46e8dd67c5d32be8d46e8dd67c5d32be8058bb8eb970870f072445675058bb8eb970870f072445675","tx":{"nonce":"0x0","gasPrice":"0x4a817c800","gas":"0x5208","to":"0x0000000000000000000000000000000000000002","value":"0xde0b6b3a7640000","input":"0x","v":"0x25","r":"0x4f355c7f6c7f7a4c9a0874ab8a8b98b2c97d43e7a208b8474b7b0d11f857c003","s":"0x6f7e456609e6e797d1b4e9d5b4482e9c778b3d3ca7e8a8b4d2d3e7a8c8d2e4f5","hash":"0x123456789abcdef0123456789abcdef0123456789abcdef0123456789abcdef0"}}''\<close>

definition signature_payload :: bytes where
  \<open>signature_payload =
     ''{"signature":"0x4f355c7f6c7f7a4c9a0874ab8a8b98b2c97d43e7a208b8474b7b0d11f857c0036f7e456609e6e797d1b4e9d5b4482e9c778b3d3ca7e8a8b4d2d3e7a8c8d2e4f500"}''\<close>

definition recovered_payload :: bytes where
  \<open>recovered_payload = ''{"address":"0x0000000000000000000000000000000000000001"}''\<close>

definition version_payload :: bytes where
  \<open>version_payload = ''{"version":"6.1.0"}''\<close>

definition new_account_request :: bytes where
  \<open>new_account_request = ''{"jsonrpc":"2.0","method":"account_new","params":null,"id":1}''\<close>

definition address_reply :: bytes where
  \<open>address_reply = ''{"jsonrpc":"2.0","result":"0x0000000000000000000000000000000000000001","id":1}''\<close>

definition transfer :: Transaction where
  "transfer = \<lparr>tx_From = address1, tx_To = address2, tx_Gas = [], tx_GasPrice = [],
               tx_Value = [], tx_Nonce = [], tx_Data = []\<rparr>"

text \<open>The errors of package \<^verbatim>\<open>encoding/json\<close> on reading, and the decoders that report no
  other error.\<close>

fun json_error :: "error \<Rightarrow> bool" where
  "json_error SyntaxError = True"
| "json_error (UnmarshalTypeError v ty) = True"
| "json_error e = False"

definition type_errors_only :: "('m \<Rightarrow> 'r \<Rightarrow> 'r \<times> error option) \<Rightarrow> bool" where
  "type_errors_only dec = (\<forall>j r r' e. dec j r = (r', Some e) \<longrightarrow> json_error e)"

definition refuse :: http_Post where
  "refuse u contentType reqBody = Inl ''connection refused''"

definition bad_gateway :: bytes where
  \<open>bad_gateway = ''<html>502 Bad Gateway</html>''\<close>

definition client :: httpTransport where
  "client = newHTTPTransport ''http://localhost:8550''"

definition stream :: "bool \<Rightarrow> bytes \<Rightarrow> ipcTransport" where
  "stream c b = \<lparr>conn = \<lparr>closed = c, written = [], incoming = bytes_reader b\<rparr>\<rparr>"

text \<open>Request envelopes: the one of \<^verbatim>\<open>SignTransaction\<close> on \<open>transfer\<close> with its bytes, one
  whose method name is not UTF-8 with its bytes, the one of \<^verbatim>\<open>NewAccount\<close>, the one of
  \<^verbatim>\<open>EcRecover\<close> in the tests of the package, and one of \<^verbatim>\<open>SignTypedData\<close> whose typed
  data is a number beyond the range of \<^verbatim>\<open>float64\<close>.\<close>

definition sign_transaction_envelope :: rpcRequest where
  "sign_transaction_envelope =
     \<lparr>Jsonrpc = ''2.0'', Method = ''account_signTransaction'',
      Params = TransactionPtr (Some transfer), ID = 1\<rparr>"

definition sign_transaction_request :: bytes where
  \<open>sign_transaction_request = ''{"jsonrpc":"2.0","method":"account_signTransaction","params":{"from":"0x0000000000000000000000000000000000000001","to":"0x0000000000000000000000000000000000000002"},"id":1}''\<close>

definition ill_formed_method_envelope :: rpcRequest where
  "ill_formed_method_envelope =
     \<lparr>Jsonrpc = ''2.0'', Method = [CHR 0xFF], Params = Generic GNil, ID = 1\<rparr>"

definition ill_formed_method_request :: bytes where
  \<open>ill_formed_method_request =
     ''{"jsonrpc":"2.0","method":"'' @ CHR 0x5C # ''ufffd","params":null,"id":1}''\<close>

definition new_account_envelope :: rpcRequest where
  "new_account_envelope =
     \<lparr>Jsonrpc = ''2.0'', Method = ''account_new'', Params = Generic GNil, ID = 1\<rparr>"

definition recover_envelope :: rpcRequest where
  "recover_envelope =
     \<lparr>Jsonrpc = ''2.0'', Method = ''account_ecRecover'',
      Params = EcRecoverRequestPtr
                 (Some \<lparr>ec_Data = ''0x48656c6c6f20576f726c64'', ec_Signature = signature1\<rparr>),
      ID = 1\<rparr>"

definition out_of_range_envelope :: rpcRequest where
  "out_of_range_envelope =
     \<lparr>Jsonrpc = ''2.0'', Method = ''account_signTypedData'',
      Params = TypedDataRequestPtr
                 (Some \<lparr>td_Address = address1, td_TypedData = Some ''1e400'', td_RawVersion = []\<rparr>),
      ID = 1\<rparr>"

text \<open>The reader from which a call decodes its response, when the call gets that far: the
  body of the response to the POST, the connection.\<close>

fun response_reader :: "http_Post \<Rightarrow> transport \<Rightarrow> string \<Rightarrow> any \<Rightarrow> reader option" where
  "response_reader post (HTTP t) method params =
     (case Marshal_rpcRequest \<lparr>Jsonrpc = ''2.0'', Method = method, Params = params, ID = 1\<rparr> of
        Inl err \<Rightarrow> None
      | Inr reqBody \<Rightarrow>
          (case post (http_url t) ''application/json'' reqBody of
             Inl err \<Rightarrow> None
           | Inr resp \<Rightarrow> Some (Body resp)))"
| "response_reader post (IPC t) method params =
     (case Marshal_rpcRequest \<lparr>Jsonrpc = ''2.0'', Method = method, Params = params, ID = 1\<rparr> of
        Inl err \<Rightarrow> None
      | Inr reqBody \<Rightarrow> if closed (conn t) then None else Some (incoming (conn t)))"

text \<open>A POST whose response has a body in chunks that breaks off: reading it delivers the
  start of an envelope and then fails as package \<^verbatim>\<open>net/http/internal\<close> does on a malformed
  chunk.  And the envelope of a server that reports an error with the same text.\<close>

definition broken_body :: http_Post where
  \<open>broken_body u contentType reqBody =
     Inr \<lparr>StatusCode = 200,
          Body = \<lparr>pending = ''{"jsonrpc":"2.0","res'',
                  failure = errorString ''malformed chunked encoding''\<rparr>\<rparr>\<close>

definition chunk_error_reply :: bytes where
  \<open>chunk_error_reply =
     ''{"jsonrpc":"2.0","error":{"code":-32000,"message":"malformed chunked encoding"},"id":1}''\<close>

section \<open>Well-formed trees\<close>

text \<open>
  The trees that the scanner reads back from what the encoder writes of them: every string
  is scanned whole up to its closing quote, every number literal is scanned whole, and no
  array or object stands deeper than the scanner goes.  \<open>stop\<close> and \<open>delim\<close> say which rest
  of the input ends a number and a value.
\<close>

definition string_ok :: "bytes \<Rightarrow> bool" where
  "string_ok b = (scan_string (b @ [quote]) = Inr (b, []))"

definition stop :: "bytes \<Rightarrow> bool" where
  "stop t = (case t of [] \<Rightarrow> True | c # cs \<Rightarrow> \<not> is_digit c \<and> c \<noteq> CHR ''.'' \<and> c \<noteq> CHR ''e'' \<and> c \<noteq> CHR ''E'')"

definition number_ok :: "bytes \<Rightarrow> bool" where
  "number_ok l = (scan_number l = Inr (l, []))"

definition delim :: "bytes \<Rightarrow> bool" where
  "delim t = (case t of [] \<Rightarrow> True | c # cs \<Rightarrow> c = CHR '','' \<or> c = CHR '']'' \<or> c = CHR ''}'' \<or> isSpace c)"

fun json_ok :: "nat \<Rightarrow> json \<Rightarrow> bool"
  and json_ok_elements :: "nat \<Rightarrow> json list \<Rightarrow> bool"
  and json_ok_members :: "nat \<Rightarrow> (bytes \<times> json) list \<Rightarrow> bool"
where
  "json_ok d JNull = True"
| "json_ok d (JBool b) = True"
| "json_ok d (JNumber l) = number_ok l"
| "json_ok d (JString b) = string_ok b"
| "json_ok d (JArray vs) = (d < maxNestingDepth \<and> json_ok_elements (Suc d) vs)"
| "json_ok d (JObject ms) = (d < maxNestingDepth \<and> json_ok_members (Suc d) ms)"
| "json_ok_elements d [] = True"
| "json_ok_elements d (v # vs) = (json_ok d v \<and> json_ok_elements d vs)"
| "json_ok_members d [] = True"
| "json_ok_members d ((k, v) # ms) = (string_ok k \<and> json_ok d v \<and> json_ok_members d ms)"

definition starts_value :: "char \<Rightarrow> bool" where
  "starts_value c = (c = CHR ''{'' \<or> c = CHR ''['' \<or> c = quote \<or> c = CHR ''-'' \<or> is_digit c
     \<or> c = CHR ''t'' \<or> c = CHR ''f'' \<or> c = CHR ''n'')"

section \<open>Lemmas on the transports and on the facade\<close>

lemma type_errors_onlyD: "type_errors_only dec \<Longrightarrow> dec j r = (r', Some e) \<Longrightarrow> json_error e"
  unfolding type_errors_only_def by blast

lemma decode_string_errors: "type_errors_only decode_string"
  by (auto simp: type_errors_only_def decode_string_def split: json.splits)

lemma decode_int_errors: "type_errors_only decode_int"
  unfolding type_errors_only_def
proof (intro allI impI)
  fix j i r' e
  assume "decode_int j i = (r', Some e)"
  then show "json_error e"
    by (cases j) (auto simp: decode_int_def split: option.splits)
qed

lemma field_errors: "type_errors_only dec \<Longrightarrow> type_errors_only (field sel upd dec)"
  by (auto simp: type_errors_only_def field_def split: prod.splits)

lemma find_field_in: "find_field fs k = Some d \<Longrightarrow> d \<in> snd ` set fs"
  by (force simp: find_field_def split: option.splits dest!: map_of_SomeD)

lemma decode_members_errors:
  assumes "\<forall>d \<in> snd ` set fs. type_errors_only d"
    and "decode_members fs ms (r, saved) = (r', Some e)"
  shows "saved = Some e \<or> json_error e"
  using assms(2)
proof (induction ms arbitrary: r saved)
  case Nil
  then show ?case by simp
next
  case (Cons m ms)
  obtain k v where m: "m = (k, v)" by (cases m)
  show ?case
  proof (cases "find_field fs (unquote k)")
    case None
    with Cons.prems m have "decode_members fs ms (r, saved) = (r', Some e)" by simp
    then show ?thesis by (rule Cons.IH)
  next
    case (Some d)
    from find_field_in [OF Some] have "d \<in> snd ` set fs" .
    with assms(1) have d: "type_errors_only d" by (rule bspec)
    obtain r1 e1 where r1: "d v r = (r1, e1)" by (cases "d v r")
    with Cons.prems m Some have "decode_members fs ms (r1, first_error saved e1) = (r', Some e)"
      by simp
    from Cons.IH [OF this] have "first_error saved e1 = Some e \<or> json_error e" .
    then show ?thesis
    proof
      assume f: "first_error saved e1 = Some e"
      show ?thesis
      proof (cases saved)
        case None
        with f have "e1 = Some e" by (simp add: first_error_def)
        with r1 have "d v r = (r1, Some e)" by simp
        from type_errors_onlyD [OF d this] show ?thesis ..
      next
        case (Some x)
        with f show ?thesis by (simp add: first_error_def)
      qed
    next
      assume "json_error e"
      then show ?thesis ..
    qed
  qed
qed

lemma decode_struct_errors:
  assumes "\<forall>d \<in> snd ` set fs. type_errors_only d"
  shows "type_errors_only (decode_struct ty fs)"
  unfolding type_errors_only_def
proof (intro allI impI)
  fix j r r' e
  assume "decode_struct ty fs j r = (r', Some e)"
  then show "json_error e"
    using decode_members_errors [OF assms, of _ r None r' e]
    by (auto simp: decode_struct_def split: json.splits)
qed

lemma decode_pointer_errors: "type_errors_only dec \<Longrightarrow> type_errors_only (decode_pointer z dec)"
  by (auto simp: type_errors_only_def decode_pointer_def split: json.splits prod.splits)

lemma decode_elements_errors: "decode_elements vs = (ss, Some e) \<Longrightarrow> json_error e"
proof (induction vs arbitrary: ss)
  case Nil
  then show ?case by simp
next
  case (Cons v vs)
  obtain s e1 where s: "decode_string v [] = (s, e1)" by (cases "decode_string v []")
  obtain ss' e2 where ss: "decode_elements vs = (ss', e2)" by (cases "decode_elements vs")
  from Cons.prems s ss have "first_error e1 e2 = Some e" by simp
  then show ?case
    using type_errors_onlyD [OF decode_string_errors, of v "[]" s e] s Cons.IH [of ss'] ss
    by (auto simp: first_error_def split: option.splits)
qed

lemma decode_strings_errors: "type_errors_only decode_strings"
  by (auto simp: type_errors_only_def decode_strings_def split: json.splits prod.splits
        dest: decode_elements_errors)

lemma Unmarshal_errors:
  "type_errors_only dec \<Longrightarrow> Unmarshal dec z data = Inl e \<Longrightarrow> json_error e"
  by (auto simp: Unmarshal_def split: sum.splits prod.splits option.splits dest: type_errors_onlyD)

lemma rpcResponse_fields_errors: "\<forall>d \<in> snd ` set rpcResponse_fields. type_errors_only d"
proof -
  have e: "type_errors_only (decode_struct ''clefclient.rpcError'' rpcError_fields)"
    by (rule decode_struct_errors) (simp add: rpcError_fields_def field_errors decode_int_errors decode_string_errors)
  have 1: "type_errors_only (\<lambda>v. field rsp_Jsonrpc (\<lambda>v r. r\<lparr>rsp_Jsonrpc := v\<rparr>) decode_string (fst v))"
    using field_errors [OF decode_string_errors, of rsp_Jsonrpc "(\<lambda>v r. r\<lparr>rsp_Jsonrpc := v\<rparr>)"]
    by (auto simp: type_errors_only_def)
  have 2: "type_errors_only (\<lambda>v r. (r\<lparr>Result := snd v\<rparr>, None))"
    by (auto simp: type_errors_only_def)
  have 3: "type_errors_only (\<lambda>v. field Error (\<lambda>v r. r\<lparr>Error := v\<rparr>)
                    (decode_pointer zero_rpcError
                       (decode_struct ''clefclient.rpcError'' rpcError_fields)) (fst v))"
    using field_errors [OF decode_pointer_errors [OF e], of Error "(\<lambda>v r. r\<lparr>Error := v\<rparr>)" zero_rpcError]
    by (auto simp: type_errors_only_def)
  have 4: "type_errors_only (\<lambda>v. field rsp_ID (\<lambda>v r. r\<lparr>rsp_ID := v\<rparr>) decode_int (fst v))"
    using field_errors [OF decode_int_errors, of rsp_ID "(\<lambda>v r. r\<lparr>rsp_ID := v\<rparr>)"]
    by (auto simp: type_errors_only_def)
  show ?thesis
    by (simp add: rpcResponse_fields_def 1 2 3 4)
qed

lemma Decode_rpcResponse_errors:
  assumes "fst (Decode_rpcResponse r) = Inl e"
  shows "e = io_EOF \<or> e = io_ErrUnexpectedEOF \<or> json_error e \<or> e = failure r"
proof (cases "scan_value 0 (pending r)")
  case (Inl se)
  with assms show ?thesis
    by (cases se) (auto simp: Decode_rpcResponse_def split: if_splits)
next
  case (Inr jr)
  obtain j rest where jr: "jr = (j, rest)" by (cases jr)
  show ?thesis
  proof (cases "rest = [] \<and> failure r \<noteq> io_EOF \<and> \<not> ends_itself j")
    case True
    with assms Inr jr show ?thesis
      by (simp add: Decode_rpcResponse_def)
  next
    case False
    obtain v eo where v: "decode_rpcResponse (pending r) j zero_rpcResponse = (v, eo)"
      by (cases "decode_rpcResponse (pending r) j zero_rpcResponse")
    with assms Inr jr False have eo: "eo = Some e"
      by (auto simp: Decode_rpcResponse_def split: option.splits)
    from v [unfolded eo] have "json_error e"
      using decode_members_errors [OF rpcResponse_fields_errors, of _ zero_rpcResponse None v e]
      by (auto simp: decode_rpcResponse_def split: json.splits)
    then show ?thesis by simp
  qed
qed

lemma json_error_not_New: "json_error e \<Longrightarrow> e \<noteq> errors_New msg"
  by (cases e) (auto simp: errors_New_def)


lemma result_decoders_errors:
  "type_errors_only (decode_struct ''clefclient.SignTxResponse'' SignTxResponse_fields)"
  "type_errors_only (decode_struct ''clefclient.SignDataResponse'' SignDataResponse_fields)"
  "type_errors_only (decode_struct ''clefclient.EcRecoverResponse'' EcRecoverResponse_fields)"
  "type_errors_only (decode_struct ''clefclient.VersionResponse'' VersionResponse_fields)"
proof -
  have tx: "type_errors_only (decode_struct Tx_type SignTxResponse_Tx_fields)"
    by (rule decode_struct_errors)
       (simp add: SignTxResponse_Tx_fields_def field_errors decode_string_errors)
  show "type_errors_only (decode_struct ''clefclient.SignTxResponse'' SignTxResponse_fields)"
    by (rule decode_struct_errors)
       (simp add: SignTxResponse_fields_def field_errors decode_string_errors tx)
  show "type_errors_only (decode_struct ''clefclient.SignDataResponse'' SignDataResponse_fields)"
    by (rule decode_struct_errors)
       (simp add: SignDataResponse_fields_def field_errors decode_string_errors)
  show "type_errors_only (decode_struct ''clefclient.EcRecoverResponse'' EcRecoverResponse_fields)"
    by (rule decode_struct_errors)
       (simp add: EcRecoverResponse_fields_def field_errors decode_string_errors)
  show "type_errors_only (decode_struct ''clefclient.VersionResponse'' VersionResponse_fields)"
    by (rule decode_struct_errors)
       (simp add: VersionResponse_fields_def field_errors decode_string_errors)
qed

lemma Unmarshal_not_New:
  "type_errors_only dec \<Longrightarrow> Unmarshal dec z data = Inl err \<Longrightarrow> err \<noteq> errors_New msg"
  by (rule json_error_not_New) (rule Unmarshal_errors)

lemma Decode_not_New:
  "fst (Decode_rpcResponse r) = Inl err \<Longrightarrow> err \<noteq> failure r \<Longrightarrow> err \<noteq> errors_New msg"
  using Decode_rpcResponse_errors [of r err] json_error_not_New [of err msg]
  by (auto simp: errors_New_def)


lemma httpTransport_call_error_record:
  assumes "decoded_response post (HTTP t) method params = Some env" and "Error env = Some e"
  shows "httpTransport_call post t method params = Inl (errors_New (Message e))"
  using assms by (auto simp: httpTransport_call_def split: sum.splits)

lemma ipcTransport_call_error_record:
  assumes "decoded_response post (IPC t) method params = Some env" and "Error env = Some e"
  shows "fst (ipcTransport_call t method params) = Inl (errors_New (Message e))"
  using assms
  by (cases "Decode_rpcResponse (incoming (conn t))")
     (auto simp: ipcTransport_call_def conn_Write_def split: sum.splits if_splits)

lemma transport_call_error_record:
  assumes "decoded_response post T method params = Some env" and "Error env = Some e"
  shows "fst (transport_call post T method params) = Inl (errors_New (Message e))"
proof (cases T)
  case (HTTP t)
  with assms httpTransport_call_error_record [of post t _ params env e] show ?thesis
    by simp
next
  case (IPC t)
  with assms have "fst (ipcTransport_call t method params) = Inl (errors_New (Message e))"
    using ipcTransport_call_error_record [of post t _ params env e] by blast
  with IPC show ?thesis
    by (simp add: split_beta)
qed

lemma facade_propagates:
  "fst (call t ''account_new'' (Generic GNil)) = Inl err \<Longrightarrow> fst (NewAccount call t) = Inl err"
  "fst (call t ''account_list'' (Generic GNil)) = Inl err \<Longrightarrow> fst (ListAccounts call t) = Inl err"
  "fst (call t ''account_signTransaction'' (TransactionPtr tx)) = Inl err
     \<Longrightarrow> fst (SignTransaction call t tx) = Inl err"
  "fst (call t ''account_signData'' (SignDataRequestPtr sd)) = Inl err
     \<Longrightarrow> fst (SignData call t sd) = Inl err"
  "fst (call t ''account_signTypedData'' (TypedDataRequestPtr td)) = Inl err
     \<Longrightarrow> fst (SignTypedData call t td) = Inl err"
  "fst (call t ''account_ecRecover'' (EcRecoverRequestPtr ec)) = Inl err
     \<Longrightarrow> fst (EcRecover call t ec) = Inl err"
  "fst (call t ''account_version'' (Generic GNil)) = Inl err \<Longrightarrow> fst (Version_query call t) = Inl err"
  by (auto simp: NewAccount_def ListAccounts_def SignTransaction_def SignData_def
        SignTypedData_def EcRecover_def Version_query_def split: prod.splits sum.splits)

section \<open>Lemmas on JSON texts\<close>

lemma prepend_Inr_iff [simp]: "prepend p (Inr (b, r)) = Inr (p @ b, r)"
  by (simp add: prepend_def)

lemma prepend_Inl [simp]: "prepend p (Inl e) = Inl e"
  by (simp add: prepend_def)

lemma scan_string_extend:
  "scan_string s = Inr (b, r) \<Longrightarrow> scan_string (s @ t) = Inr (b, r @ t)"
proof (induction s arbitrary: b r rule: scan_string.induct)
  case 1
  then show ?case by simp
next
  case (2 c cs)
  show ?case
  proof (cases "c = quote")
    case True
    with "2.prems" show ?thesis by auto
  next
    case nq: False
    show ?thesis
    proof (cases "c = backslash")
      case True
      then obtain e es where cs: "cs = e # es"
        using "2.prems" nq by (cases cs) auto
      show ?thesis
      proof (cases "e \<in> set [CHR ''b'', CHR ''f'', CHR ''n'', CHR ''r'', CHR ''t'', backslash, CHR ''/'', quote]")
        case esc: True
        with "2.prems" nq True cs obtain b' where b': "scan_string es = Inr (b', r)" "b = [c, e] @ b'"
          by (auto simp: prepend_Inr simp del: set_simps)
        from "2.IH"(1) [OF nq True cs esc b'(1)] have "scan_string (es @ t) = Inr (b', r @ t)" .
        with nq True cs esc b'(2) show ?thesis
          by (simp del: set_simps)
      next
        case nesc: False
        with "2.prems" nq True cs have u: "e = CHR ''u''"
          by (auto split: if_splits)
        with "2.prems" nq True cs nesc have h: "\<not> \<not> list_all is_hex (take 4 es)" and l: "\<not> length es < 4"
          by (auto split: if_splits)
        with "2.prems" nq True cs nesc u obtain b' where
          b': "scan_string (drop 4 es) = Inr (b', r)" "b = (c # e # take 4 es) @ b'"
          by (auto simp: prepend_Inr simp del: set_simps split: if_splits)
        from "2.IH"(2) [OF nq True cs nesc u h l b'(1)]
        have "scan_string (drop 4 es @ t) = Inr (b', r @ t)" .
        with nq True cs nesc u h l b'(2) show ?thesis
          by (simp del: set_simps)
      qed
    next
      case nb: False
      with "2.prems" nq have c: "\<not> byte c < 0x20"
        by (auto split: if_splits)
      with "2.prems" nq nb obtain b' where b': "scan_string cs = Inr (b', r)" "b = [c] @ b'"
        by (auto simp: prepend_Inr)
      from "2.IH"(3) [OF nq nb c b'(1)] have "scan_string (cs @ t) = Inr (b', r @ t)" .
      with nq nb c b'(2) show ?thesis by simp
    qed
  qed
qed

lemma scan_string_ok: "string_ok b \<Longrightarrow> scan_string (b @ quote # rest) = Inr (b, rest)"
  using scan_string_extend [of "b @ [quote]" b "[]" rest] by (simp add: string_ok_def)

lemma prepend_prepend [simp]: "prepend a (prepend b x) = prepend (a @ b) x"
  by (cases x) (auto simp: prepend_def)

lemma prepend_Nil [simp]: "prepend [] x = x"
  by (cases x) (auto simp: prepend_def)

lemma scan_string_plain:
  "c \<noteq> quote \<Longrightarrow> c \<noteq> backslash \<Longrightarrow> \<not> byte c < 0x20
     \<Longrightarrow> scan_string (c # t) = prepend [c] (scan_string t)"
  by simp

lemma high_byte_plain: "\<not> byte c < 0x80 \<Longrightarrow> c \<noteq> quote \<and> c \<noteq> backslash \<and> \<not> byte c < 0x20"
  by (auto simp: quote_def backslash_def byte_def)

lemma scan_string_high:
  "\<forall>x \<in> set xs. \<not> byte x < 0x80 \<Longrightarrow> scan_string (xs @ t) = prepend xs (scan_string t)"
proof (induction xs)
  case Nil
  then show ?case by simp
next
  case (Cons x xs)
  then have "x \<noteq> quote \<and> x \<noteq> backslash \<and> \<not> byte x < 0x20"
    using high_byte_plain [of x] by simp
  with Cons show ?case by simp
qed

lemma first_Some: "first b = Some (sz, lo, hi) \<Longrightarrow> (sz = 2 \<or> sz = 3 \<or> sz = 4) \<and> 0x80 \<le> lo \<and> hi \<le> 0xBF"
  by (auto simp: first_def split: if_splits)

lemma DecodeRune_valid:
  assumes d: "DecodeRune (c # cs) = (r, n)"
    and h: "\<not> byte c < RuneSelf"
    and v: "\<not> (r = RuneError \<and> n = 1)"
  shows "n \<le> Suc (length cs) \<and> (\<forall>x \<in> set (take n (c # cs)). \<not> byte x < 0x80)"
proof -
  obtain sz lo hi where f: "first (byte c) = Some (sz, lo, hi)"
    using d h v by (cases "first (byte c)") (auto simp: DecodeRune_def Let_def)
  note fs = first_Some [OF f]
  have len: "\<not> Suc (length cs) < sz"
    using d h v f by (auto simp: DecodeRune_def Let_def split: if_splits)
  have c: "\<not> byte c < 0x80"
    using h by (simp add: RuneSelf_def)
  from fs have "sz = 2 \<or> sz = 3 \<or> sz = 4" by simp
  then show ?thesis
  proof (elim disjE)
    assume sz: "sz = 2"
    then obtain c1 cs1 where cs: "cs = c1 # cs1"
      using len by (cases cs) auto
    from d h v f sz cs fs have "n = 2" "lo \<le> byte c1"
      by (auto simp: DecodeRune_def Let_def split: if_splits)
    with cs c fs show ?thesis by auto
  next
    assume sz: "sz = 3"
    then obtain c1 c2 cs2 where cs: "cs = c1 # c2 # cs2"
      using len by (cases cs; cases "tl cs") auto
    from d h v f sz cs fs have "n = 3" "lo \<le> byte c1" "cont (byte c2)"
      by (auto simp: DecodeRune_def Let_def split: if_splits)
    with cs c fs show ?thesis by (auto simp: cont_def)
  next
    assume sz: "sz = 4"
    then obtain c1 c2 c3 cs3 where cs: "cs = c1 # c2 # c3 # cs3"
      using len by (cases cs; cases "tl cs"; cases "tl (tl cs)") auto
    from d h v f sz cs fs have "n = 4" "lo \<le> byte c1" "cont (byte c2)" "cont (byte c3)"
      by (auto simp: DecodeRune_def Let_def split: if_splits)
    with cs c fs show ?thesis by (auto simp: cont_def)
  qed
qed

lemma is_hex_hex: "n < 16 \<Longrightarrow> is_hex (hex n)"
proof -
  assume "n < 16"
  then have "n \<in> set [0..<16]" by simp
  then show ?thesis
    unfolding upt_conv_Cons_Cons
    by (simp add: upt_rec numeral_nat is_hex_def is_digit_def hex_def byte_def) (elim disjE; simp)
qed

lemma byte_less_256: "byte c < 256"
  by (simp add: byte_def)

lemma scan_string_u:
  assumes "list_all is_hex [h1, h2, h3, h4]"
  shows "scan_string (backslash # CHR ''u'' # h1 # h2 # h3 # h4 # t)
           = prepend [backslash, CHR ''u'', h1, h2, h3, h4] (scan_string t)"
  using assms by (simp add: quote_def backslash_def)

lemma scan_string_short_escape:
  assumes "e \<in> set [CHR ''b'', CHR ''f'', CHR ''n'', CHR ''r'', CHR ''t'', backslash, CHR ''/'', quote]"
  shows "scan_string (backslash # e # t) = prepend [backslash, e] (scan_string t)"
  using assms by (auto simp: quote_def backslash_def)

lemma is_hex_digits [simp]: "is_hex CHR ''0''" "is_hex CHR ''2''" "is_hex CHR ''f''" "is_hex CHR ''d''"
  by (simp_all add: is_hex_def is_digit_def byte_def)

lemma scan_string_escape_byte:
  "scan_string (escape_byte c @ t) = prepend (escape_byte c) (scan_string t)"
proof -
  have h: "is_hex (hex (byte c div 16))" "is_hex (hex (byte c mod 16))"
    using byte_less_256 [of c] by (auto intro!: is_hex_hex)
  show ?thesis
    unfolding escape_byte_def
    by (auto simp: scan_string_short_escape scan_string_u h simp del: scan_string.simps)
qed

lemma scan_string_appendString:
  "scan_string (appendString s @ t) = prepend (appendString s) (scan_string t)"
proof (induction s rule: appendString.induct)
  case 1
  then show ?case by simp
next
  case (2 c cs)
  show ?case
  proof (cases "byte c < RuneSelf")
    case True
    show ?thesis
    proof (cases "htmlSafe c")
      case s: True
      then have "c \<noteq> quote \<and> c \<noteq> backslash \<and> \<not> byte c < 0x20"
        by (auto simp: htmlSafe_def)
      with "2.IH"(1) [OF True s] True s show ?thesis
        by (simp add: appendString.simps(2))
    next
      case False
      with "2.IH"(2) [OF True False] True show ?thesis
        by (simp add: appendString.simps(2) scan_string_escape_byte del: scan_string.simps)
    qed
  next
    case False
    obtain r n where d: "DecodeRune (c # cs) = (r, n)"
      by (cases "DecodeRune (c # cs)")
    show ?thesis
    proof (cases "r = RuneError \<and> n = 1")
      case True
      with "2.IH"(3) [OF False d [symmetric] True] False d show ?thesis
        using scan_string_u [of "CHR ''f''" "CHR ''f''" "CHR ''f''" "CHR ''d''"]
        by (simp add: appendString.simps(2) del: scan_string.simps)
    next
      case v: False
      show ?thesis
      proof (cases "r = 0x2028 \<or> r = 0x2029")
        case True
        then have "r mod 16 < 16" by simp
        then have h: "is_hex (hex (r mod 16))" by (rule is_hex_hex)
        from "2.IH"(4) [OF False d [symmetric] v True] False d v True show ?thesis
          using scan_string_u [of "CHR ''2''" "CHR ''0''" "CHR ''2''" "hex (r mod 16)"] h
          by (auto simp add: appendString.simps(2) RuneError_def simp del: scan_string.simps)
      next
        case n: False
        from DecodeRune_valid [OF d False v]
        have "\<forall>x \<in> set (take n (c # cs)). \<not> byte x < 0x80" by simp
        from scan_string_high [OF this]
        have "\<And>t. scan_string (take n (c # cs) @ t) = prepend (take n (c # cs)) (scan_string t)" .
        with "2.IH"(5) [OF False d [symmetric] v n] False d v n show ?thesis
          by (auto simp add: appendString.simps(2) simp del: scan_string.simps)
      qed
    qed
  qed
qed

lemma string_ok_appendString: "string_ok (appendString s)"
  by (simp add: string_ok_def scan_string_appendString)

lemma takeWhile_digits_stop: "stop t \<Longrightarrow> takeWhile is_digit (s @ t) = takeWhile is_digit s"
  by (induction s) (auto simp: stop_def split: list.splits)

lemma dropWhile_digits_stop: "stop t \<Longrightarrow> dropWhile is_digit (s @ t) = dropWhile is_digit s @ t"
  by (induction s) (auto simp: stop_def split: list.splits)

lemma scan_digits_extend:
  "scan_digits s = Inr (b, r) \<Longrightarrow> stop t \<Longrightarrow> scan_digits (s @ t) = Inr (b, r @ t)"
  by (cases s) (auto simp: scan_digits_def takeWhile_digits_stop dropWhile_digits_stop split: if_splits)

lemma scan_exp_stop: "stop t \<Longrightarrow> scan_exp t = Inr ([], t)"
  by (auto simp: scan_exp_def stop_def split: list.splits)

lemma scan_exp_extend:
  assumes "scan_exp s = Inr (b, r)" and "stop t"
  shows "scan_exp (s @ t) = Inr (b, r @ t)"
proof (cases s)
  case Nil
  with assms show ?thesis by (simp add: scan_exp_stop) (simp add: scan_exp_def)
next
  case (Cons c cs)
  show ?thesis
  proof (cases "c = CHR ''e'' \<or> c = CHR ''E''")
    case False
    with assms Cons show ?thesis by (auto simp: scan_exp_def)
  next
    case True
    then obtain d ds where cs: "cs = d # ds"
      using assms Cons by (cases cs) (auto simp: scan_exp_def)
    show ?thesis
    proof (cases "d = CHR ''+'' \<or> d = CHR ''-''")
      case s: True
      with assms Cons True cs obtain b' where "scan_digits ds = Inr (b', r)" "b = [c, d] @ b'"
        by (auto simp: scan_exp_def prepend_Inr)
      with scan_digits_extend [OF this(1) assms(2)] Cons True cs s show ?thesis
        by (auto simp: scan_exp_def)
    next
      case s: False
      with assms Cons True cs obtain b' where "scan_digits cs = Inr (b', r)" "b = [c] @ b'"
        by (auto simp: scan_exp_def prepend_Inr)
      with scan_digits_extend [OF this(1) assms(2)] Cons True cs s show ?thesis
        by (auto simp: scan_exp_def)
    qed
  qed
qed

lemma scan_frac_stop: "stop t \<Longrightarrow> scan_frac t = Inr ([], t)"
  by (cases t) (auto simp: scan_frac_def scan_exp_stop stop_def)

lemma stop_Cons: "stop (c # cs) \<Longrightarrow> stop (c # cs')"
  by (simp add: stop_def)

lemma scan_digits_rest: "scan_digits s = Inr (b, r) \<Longrightarrow> r = [] \<or> \<not> is_digit (hd r)"
  by (cases s) (auto simp: scan_digits_def hd_dropWhile split: if_splits)

lemma scan_frac_extend:
  assumes "scan_frac s = Inr (b, r)" and "stop t"
  shows "scan_frac (s @ t) = Inr (b, r @ t)"
proof (cases s)
  case Nil
  with assms show ?thesis by (simp add: scan_frac_stop) (simp add: scan_frac_def)
next
  case (Cons c cs)
  show ?thesis
  proof (cases "c = CHR ''.''")
    case False
    with assms Cons scan_exp_extend [of s b r t] show ?thesis
      by (auto simp: scan_frac_def)
  next
    case True
    with assms Cons obtain ds r1 where d: "scan_digits cs = Inr (ds, r1)"
      by (cases "scan_digits cs") (auto simp: scan_frac_def)
    with assms Cons True obtain b' where e: "scan_exp r1 = Inr (b', r)" "b = (c # ds) @ b'"
      by (auto simp: scan_frac_def prepend_Inr)
    from scan_digits_extend [OF d assms(2)] scan_exp_extend [OF e(1) assms(2)] Cons True e(2)
    show ?thesis
      by (simp add: scan_frac_def)
  qed
qed

lemma scan_int_extend:
  assumes "scan_int s = Inr (b, r)" and "stop t"
  shows "scan_int (s @ t) = Inr (b, r @ t)"
proof (cases s)
  case Nil
  with assms show ?thesis by (simp add: scan_int_def)
next
  case (Cons c cs)
  show ?thesis
  proof (cases "c = CHR ''0''")
    case True
    with assms Cons obtain b' where f: "scan_frac cs = Inr (b', r)" "b = [c] @ b'"
      by (auto simp: scan_int_def prepend_Inr)
    from scan_frac_extend [OF f(1) assms(2)] Cons True f(2) show ?thesis
      by (simp add: scan_int_def)
  next
    case False
    with assms Cons have dg: "is_digit c"
      by (auto simp: scan_int_def split: if_splits)
    with assms Cons False obtain b' where
      f: "scan_frac (dropWhile is_digit cs) = Inr (b', r)" "b = (c # takeWhile is_digit cs) @ b'"
      by (auto simp: scan_int_def prepend_Inr)
    from scan_frac_extend [OF f(1) assms(2)] Cons False dg f(2) assms(2) show ?thesis
      by (simp add: scan_int_def takeWhile_digits_stop dropWhile_digits_stop)
  qed
qed

lemma scan_number_extend:
  assumes "scan_number s = Inr (b, r)" and "stop t"
  shows "scan_number (s @ t) = Inr (b, r @ t)"
proof (cases s)
  case Nil
  with assms show ?thesis by (simp add: scan_number_def)
next
  case (Cons c cs)
  show ?thesis
  proof (cases "c = CHR ''-''")
    case True
    with assms Cons obtain b' where f: "scan_int cs = Inr (b', r)" "b = [c] @ b'"
      by (auto simp: scan_number_def prepend_Inr)
    from scan_int_extend [OF f(1) assms(2)] Cons True f(2) show ?thesis
      by (simp add: scan_number_def)
  next
    case False
    with assms Cons scan_int_extend [of s b r t] show ?thesis
      by (simp add: scan_number_def)
  qed
qed

lemma scan_number_ok: "number_ok l \<Longrightarrow> stop t \<Longrightarrow> scan_number (l @ t) = Inr (l, t)"
  using scan_number_extend [of l l "[]" t] by (simp add: number_ok_def)

lemma number_ok_first: "number_ok l \<Longrightarrow> \<exists>c cs. l = c # cs \<and> (c = CHR ''-'' \<or> is_digit c)"
  by (cases l) (auto simp: number_ok_def scan_number_def scan_int_def is_digit_def byte_def split: if_splits)

lemma is_digit_digit: "n < 10 \<Longrightarrow> is_digit (digit n)"
  by (simp add: is_digit_def digit_def byte_def)

lemma digit_eq_0: "n < 10 \<Longrightarrow> digit n = CHR ''0'' \<longleftrightarrow> n = 0"
proof -
  assume n: "n < 10"
  have "digit n = CHR ''0'' \<longleftrightarrow> (of_char (digit n) :: nat) = of_char (CHR ''0'')"
    by (metis of_char_eq_iff)
  also have "\<dots> \<longleftrightarrow> n = 0"
    using n by (simp add: digit_def)
  finally show ?thesis .
qed

lemma of_char_digit: "n < 10 \<Longrightarrow> (of_char (digit n) :: int) = 48 + int n"
proof -
  assume n: "n < 10"
  have "(of_char (digit n) :: int) = int (of_char (digit n))"
    by (simp only: of_nat_of_char)
  also have "\<dots> = 48 + int n"
    using n by (simp add: digit_def)
  finally show ?thesis .
qed

lemma FormatNat_digits:
  "0 \<le> i \<Longrightarrow> FormatNat i \<noteq> [] \<and> list_all is_digit (FormatNat i)
     \<and> (0 < i \<longrightarrow> hd (FormatNat i) \<noteq> CHR ''0'') \<and> ParseNat (FormatNat i) = i"
proof (induction i rule: FormatNat.induct)
  case (1 i)
  show ?case
  proof (cases "i < 10")
    case True
    with "1.prems" have n: "nat i < 10" by simp
    from True "1.prems" n show ?thesis
      by (simp add: FormatNat.simps [of i] is_digit_digit digit_eq_0 ParseNat_def of_char_digit)
  next
    case False
    then have p: "0 \<le> i div 10" "0 < i div 10" by simp_all
    from "1.IH" [OF False p(1)] p(2)
    have ih: "FormatNat (i div 10) \<noteq> []" "list_all is_digit (FormatNat (i div 10))"
      "hd (FormatNat (i div 10)) \<noteq> CHR ''0''" "ParseNat (FormatNat (i div 10)) = i div 10"
      by simp_all
    have m: "nat (i mod 10) < 10" by simp
    have "(of_char (digit (nat (i mod 10))) :: int) = 48 + i mod 10"
      using of_char_digit [OF m] by simp
    with ih False m show ?thesis
      by (simp add: FormatNat.simps [of i] is_digit_digit ParseNat_def)
  qed
qed

lemma takeWhile_stop: "stop t \<Longrightarrow> takeWhile is_digit t = [] \<and> dropWhile is_digit t = t"
  by (cases t) (auto simp: stop_def)

lemma scan_int_digits:
  assumes "ds \<noteq> []" "list_all is_digit ds" "ds = [CHR ''0''] \<or> hd ds \<noteq> CHR ''0''" "stop t"
  shows "scan_int (ds @ t) = Inr (ds, t)"
proof -
  obtain c cs where ds: "ds = c # cs" using assms(1) by (cases ds) auto
  from assms(2) ds have a: "takeWhile is_digit cs = cs" "dropWhile is_digit cs = []"
    by (simp_all add: list_all_iff)
  from assms ds a show ?thesis
    by (auto simp: scan_int_def scan_frac_stop takeWhile_stop)
qed

lemma FormatNat_0: "FormatNat 0 = [CHR ''0'']"
  by code_simp

lemma scan_number_FormatInt:
  assumes "stop t"
  shows "scan_number (FormatInt i @ t) = Inr (FormatInt i, t)"
proof (cases "i < 0")
  case True
  then have p: "0 \<le> - i" "0 < - i" by simp_all
  from FormatNat_digits [OF p(1)] p(2)
  have "scan_int (FormatNat (- i) @ t) = Inr (FormatNat (- i), t)"
    by (intro scan_int_digits assms) simp_all
  with True show ?thesis
    by (simp add: FormatInt_def scan_number_def)
next
  case False
  then have p: "0 \<le> i" by simp
  have d: "FormatNat i = [CHR ''0''] \<or> hd (FormatNat i) \<noteq> CHR ''0''"
    using FormatNat_digits [OF p] FormatNat_0 p by (cases "i = 0") auto
  from FormatNat_digits [OF p] d
  have s: "scan_int (FormatNat i @ t) = Inr (FormatNat i, t)"
    by (intro scan_int_digits assms) simp_all
  obtain c cs where f: "FormatNat i = c # cs" "is_digit c"
    using FormatNat_digits [OF p] by (cases "FormatNat i") auto
  then have "c \<noteq> CHR ''-''"
    by (auto simp: is_digit_def byte_def)
  with False s f show ?thesis
    by (simp add: FormatInt_def scan_number_def)
qed

lemma number_ok_FormatInt: "number_ok (FormatInt i)"
  using scan_number_FormatInt [of "[]" i] by (simp add: number_ok_def stop_def)

lemma ParseInt_FormatInt:
  assumes "- 9223372036854775808 \<le> i" "i < 9223372036854775808"
  shows "ParseInt (FormatInt i) = Some i"
proof (cases "i < 0")
  case True
  then have p: "0 \<le> - i" by simp
  from FormatNat_digits [OF p] True assms show ?thesis
    by (simp add: FormatInt_def ParseInt_def Let_def)
next
  case False
  then have p: "0 \<le> i" by simp
  obtain c cs where f: "FormatNat i = c # cs" "is_digit c"
    using FormatNat_digits [OF p] by (cases "FormatNat i") auto
  then have "c \<noteq> CHR ''-''" "c \<noteq> CHR ''+''"
    by (auto simp: is_digit_def byte_def)
  with FormatNat_digits [OF p] False assms f show ?thesis
    by (simp add: FormatInt_def ParseInt_def Let_def)
qed

lemma delim_stop: "delim t \<Longrightarrow> stop t"
  by (cases t) (auto simp: delim_def stop_def isSpace_def is_digit_def byte_def)

lemma starts_value_facts:
  "starts_value c \<Longrightarrow> \<not> isSpace c \<and> c \<noteq> CHR '']'' \<and> c \<noteq> CHR ''}''"
  by (auto simp: starts_value_def isSpace_def quote_def is_digit_def byte_def)

lemma encode_first: "json_ok d j \<Longrightarrow> \<exists>c cs. encode j = c # cs \<and> starts_value c"
proof (cases j)
  case (JNumber l)
  assume "json_ok d j"
  with JNumber number_ok_first [of l] show ?thesis
    by (auto simp: starts_value_def)
qed (auto simp: starts_value_def)

lemma skip_space_nonspace: "\<not> isSpace c \<Longrightarrow> skip_space (c # cs) = c # cs"
  by simp

lemma delim_simps [simp]: "delim (CHR '','' # t)" "delim (CHR '']'' # t)" "delim (CHR ''}'' # t)"
  by (simp_all add: delim_def)

lemma skip_space_delims [simp]:
  "skip_space (CHR '','' # t) = CHR '','' # t" "skip_space (CHR '']'' # t) = CHR '']'' # t"
  "skip_space (CHR ''}'' # t) = CHR ''}'' # t" "skip_space (CHR '':'' # t) = CHR '':'' # t"
  "skip_space (quote # t) = quote # t"
  by (simp_all add: isSpace_def quote_def)

lemma scan_literal_append [simp]: "scan_literal l (l @ t) = Inr t"
  by (induction l) auto

lemma scan_encode:
  "json_ok d j \<Longrightarrow> delim t \<Longrightarrow> scan_value d (encode j @ t) = Inr (j, t)"
  "vs \<noteq> [] \<Longrightarrow> json_ok_elements d vs
     \<Longrightarrow> scan_elements d (encode_elements vs @ CHR '']'' # t) = Inr (vs, t)"
  "ms \<noteq> [] \<Longrightarrow> json_ok_members d ms
     \<Longrightarrow> scan_members d (encode_members ms @ CHR ''}'' # t) = Inr (ms, t)"
proof (induction j and vs and ms arbitrary: d t and d t and d t
    rule: encode_encode_elements_encode_members.induct)
  case 1
  show ?case
    by (subst scan_value.simps) (simp add: isSpace_def quote_def is_digit_def byte_def)
next
  case (2 b)
  show ?case
    by (subst scan_value.simps) (simp add: isSpace_def quote_def is_digit_def byte_def)
next
  case (3 l)
  then have ok: "number_ok l" by simp
  then obtain c cs where l: "l = c # cs" "c = CHR ''-'' \<or> is_digit c"
    using number_ok_first by blast
  then have c: "\<not> isSpace c" "c \<noteq> CHR ''{''" "c \<noteq> CHR ''[''" "c \<noteq> quote"
    by (auto simp: isSpace_def quote_def is_digit_def byte_def)
  from scan_number_ok [OF ok delim_stop [OF "3.prems"(2)]] l
  have "scan_number (c # cs @ t) = Inr (l, t)" by simp
  with l c show ?case
    by (subst scan_value.simps) auto
next
  case (4 b)
  then have "string_ok b" by simp
  from scan_string_ok [OF this] show ?case
    by (subst scan_value.simps) (simp add: isSpace_def quote_def)
next
  case (5 vs)
  then have d: "\<not> maxNestingDepth \<le> d" and ok: "json_ok_elements (Suc d) vs" by simp_all
  show ?case
  proof (cases vs)
    case Nil
    with d show ?thesis
      by (subst scan_value.simps) (simp add: isSpace_def)
  next
    case (Cons v vs')
    with ok obtain c cs where e: "encode v = c # cs" "starts_value c"
      using encode_first [of "Suc d" v] by auto
    then obtain cs' where es: "encode_elements vs = c # cs'"
      using Cons by (cases vs') auto
    from "5.IH" [of "Suc d" t] ok Cons
    have "scan_elements (Suc d) (encode_elements vs @ CHR '']'' # t) = Inr (vs, t)" by simp
    with d es starts_value_facts [OF e(2)] show ?thesis
      by (subst scan_value.simps) (simp add: isSpace_def)
  qed
next
  case (6 ms)
  then have d: "\<not> maxNestingDepth \<le> d" and ok: "json_ok_members (Suc d) ms" by simp_all
  show ?case
  proof (cases ms)
    case Nil
    with d show ?thesis
      by (subst scan_value.simps) (simp add: isSpace_def)
  next
    case (Cons m ms')
    then obtain cs' where es: "encode_members ms = quote # cs'"
      by (cases m; cases ms') auto
    from "6.IH" [of "Suc d" t] ok Cons
    have "scan_members (Suc d) (encode_members ms @ CHR ''}'' # t) = Inr (ms, t)" by simp
    with d es show ?thesis
      by (subst scan_value.simps) (simp add: isSpace_def quote_def)
  qed
next
  case 7
  then show ?case by simp
next
  case (8 v)
  then have "scan_value d (encode v @ CHR '']'' # t) = Inr (v, CHR '']'' # t)" by simp
  then show ?case
    by (subst scan_elements.simps) (simp add: isSpace_def)
next
  case (9 v w vs)
  from "9.prems" have "json_ok d v" "json_ok_elements d (w # vs)" by simp_all
  with "9.IH"(1) [of d "CHR '','' # encode_elements (w # vs) @ CHR '']'' # t"]
    "9.IH"(2) [of d t]
  have "scan_value d (encode v @ CHR '','' # encode_elements (w # vs) @ CHR '']'' # t)
          = Inr (v, CHR '','' # encode_elements (w # vs) @ CHR '']'' # t)"
    and "scan_elements d (encode_elements (w # vs) @ CHR '']'' # t) = Inr (w # vs, t)"
    by simp_all
  then show ?case
    by (subst scan_elements.simps) (simp add: isSpace_def)
next
  case 10
  then show ?case by simp
next
  case (11 k v)
  then have k: "string_ok k" and v: "json_ok d v" by simp_all
  from "11.IH" [OF v, of "CHR ''}'' # t"]
  have "scan_value d (encode v @ CHR ''}'' # t) = Inr (v, CHR ''}'' # t)" by simp
  with scan_string_ok [OF k] show ?case
    by (subst scan_members.simps) (simp add: isSpace_def quote_def)
next
  case (12 k v m ms)
  then have k: "string_ok k" and v: "json_ok d v" and ms: "json_ok_members d (m # ms)" by simp_all
  from "12.IH"(1) [OF v, of "CHR '','' # encode_members (m # ms) @ CHR ''}'' # t"]
    "12.IH"(2) [of d t] ms
  have "scan_value d (encode v @ CHR '','' # encode_members (m # ms) @ CHR ''}'' # t)
          = Inr (v, CHR '','' # encode_members (m # ms) @ CHR ''}'' # t)"
    and "scan_members d (encode_members (m # ms) @ CHR ''}'' # t) = Inr (m # ms, t)"
    by simp_all
  with scan_string_ok [OF k] show ?case
    by (subst scan_members.simps) (simp add: isSpace_def quote_def)
qed

lemma char_of_byte [simp]: "char_of (byte c) = c"
  by (simp add: byte_def)

lemma first_2: "first b = Some (2, lo, hi) \<Longrightarrow> 0xC2 \<le> b \<and> b \<le> 0xDF \<and> lo = 0x80 \<and> hi = 0xBF"
  by (auto simp: first_def split: if_splits)

lemma first_3:
  "first b = Some (3, lo, hi) \<Longrightarrow>
     (b = 0xE0 \<and> lo = 0xA0 \<and> hi = 0xBF) \<or> (0xE1 \<le> b \<and> b \<le> 0xEC \<and> lo = 0x80 \<and> hi = 0xBF)
     \<or> (b = 0xED \<and> lo = 0x80 \<and> hi = 0x9F) \<or> (0xEE \<le> b \<and> b \<le> 0xEF \<and> lo = 0x80 \<and> hi = 0xBF)"
  by (auto simp: first_def split: if_splits)

lemma first_4:
  "first b = Some (4, lo, hi) \<Longrightarrow>
     (b = 0xF0 \<and> lo = 0x90 \<and> hi = 0xBF) \<or> (0xF1 \<le> b \<and> b \<le> 0xF3 \<and> lo = 0x80 \<and> hi = 0xBF)
     \<or> (b = 0xF4 \<and> lo = 0x80 \<and> hi = 0x8F)"
  by (auto simp: first_def split: if_splits)

lemma divmod_base:
  fixes x k m :: nat
  assumes "x < m"
  shows "(k * m + x) div m = k" "(k * m + x) mod m = x"
  using assms by simp_all

lemma Encode2:
  fixes b0 b1 :: nat
  assumes "0xC2 \<le> b0" "b0 \<le> 0xDF" "0x80 \<le> b1" "b1 \<le> 0xBF"
  shows "EncodeRune ((b0 mod 0x20) * 0x40 + b1 mod 0x40) = [char_of b0, char_of b1]"
proof -
  define x where "x = b0 - 0xC0"
  define y where "y = b1 - 0x80"
  have x: "b0 = 6 * 0x20 + x" "x < 0x20" "2 \<le> x" and y: "b1 = 2 * 0x40 + y" "y < 0x40"
    using assms by (simp_all add: x_def y_def)
  have m: "b0 mod 0x20 = x" "b1 mod 0x40 = y"
    unfolding x(1) y(1) using x(2) y(2) by (simp_all only: divmod_base)
  have r: "(x * 0x40 + y) div 0x40 = x" "(x * 0x40 + y) mod 0x40 = y"
    using y(2) by (simp_all only: divmod_base)
  have b: "\<not> x * 0x40 + y < 0x80" "x * 0x40 + y < 0x800"
    using x y by simp_all
  show ?thesis
    unfolding m by (simp only: EncodeRune_def b r if_True if_False) (simp add: x y)
qed

lemma Encode3:
  fixes b0 b1 b2 :: nat
  assumes "0xE0 \<le> b0" "b0 \<le> 0xEF" "0x80 \<le> b1" "b1 \<le> 0xBF" "0x80 \<le> b2" "b2 \<le> 0xBF"
    and "b0 = 0xE0 \<longrightarrow> 0xA0 \<le> b1" and "b0 = 0xED \<longrightarrow> b1 \<le> 0x9F"
  shows "EncodeRune ((b0 mod 0x10) * 0x1000 + (b1 mod 0x40) * 0x40 + b2 mod 0x40)
           = [char_of b0, char_of b1, char_of b2]"
proof -
  define x where "x = b0 - 0xE0"
  define y where "y = b1 - 0x80"
  define z where "z = b2 - 0x80"
  have x: "b0 = 14 * 0x10 + x" "x < 0x10" and y: "b1 = 2 * 0x40 + y" "y < 0x40"
    and z: "b2 = 2 * 0x40 + z" "z < 0x40"
    and e: "x = 0 \<longrightarrow> 32 \<le> y" "x = 13 \<longrightarrow> y < 32"
    using assms by (simp_all add: x_def y_def z_def) linarith+
  have m: "b0 mod 0x10 = x" "b1 mod 0x40 = y" "b2 mod 0x40 = z"
    unfolding x(1) y(1) z(1) using x(2) y(2) z(2) by (simp_all only: divmod_base)
  define r where "r = x * 0x1000 + y * 0x40 + z"
  have r1: "r = x * 0x1000 + (y * 0x40 + z)" "y * 0x40 + z < 0x1000"
    and r2: "r = (x * 0x40 + y) * 0x40 + z" "x * 0x40 + y = x * 0x40 + y"
    using y z by (simp_all add: r_def)
  have d1: "r div 0x1000 = x"
    unfolding r1(1) using r1(2) by (simp only: divmod_base)
  have d2: "r div 0x40 = x * 0x40 + y" "r mod 0x40 = z"
    unfolding r2(1) using z(2) by (simp_all only: divmod_base)
  have d3: "(x * 0x40 + y) mod 0x40 = y"
    using y(2) by (simp only: divmod_base)
  have b1: "\<not> r < 0x800"
  proof (cases "x = 0")
    case True
    with e have "32 \<le> y" by simp
    then show ?thesis unfolding r_def by linarith
  next
    case False
    then have "1 \<le> x" by simp
    then show ?thesis unfolding r_def by linarith
  qed
  have b2: "r < 0x10000"
    using x(2) y(2) z(2) unfolding r_def by linarith
  have b3: "\<not> (0xD800 \<le> r \<and> r \<le> 0xDFFF)"
  proof (cases "x = 13")
    case True
    with e have "y < 32" by simp
    with True z(2) show ?thesis unfolding r_def by linarith
  next
    case False
    then have "x \<le> 12 \<or> 14 \<le> x" by linarith
    then show ?thesis
      using y(2) z(2) unfolding r_def by (elim disjE) linarith+
  qed
  have b: "\<not> r < 0x80" "\<not> r < 0x800" "\<not> ((0xD800 \<le> r \<and> r \<le> 0xDFFF) \<or> 0x10FFFF < r)" "r < 0x10000"
    using b1 b2 b3 by simp_all
  show ?thesis
    unfolding m r_def [symmetric]
    by (simp only: EncodeRune_def b d1 d2 d3 if_True if_False) (simp add: x y z)
qed

lemma Encode4:
  fixes b0 b1 b2 b3 :: nat
  assumes "0xF0 \<le> b0" "b0 \<le> 0xF4" "0x80 \<le> b1" "b1 \<le> 0xBF" "0x80 \<le> b2" "b2 \<le> 0xBF"
    "0x80 \<le> b3" "b3 \<le> 0xBF"
    and "b0 = 0xF0 \<longrightarrow> 0x90 \<le> b1" and "b0 = 0xF4 \<longrightarrow> b1 \<le> 0x8F"
  shows "EncodeRune ((b0 mod 0x08) * 0x40000 + (b1 mod 0x40) * 0x1000 + (b2 mod 0x40) * 0x40
                       + b3 mod 0x40)
           = [char_of b0, char_of b1, char_of b2, char_of b3]"
proof -
  define x where "x = b0 - 0xF0"
  define y where "y = b1 - 0x80"
  define z where "z = b2 - 0x80"
  define w where "w = b3 - 0x80"
  have x: "b0 = 30 * 0x08 + x" "x < 0x08" "x \<le> 4" and y: "b1 = 2 * 0x40 + y" "y < 0x40"
    and z: "b2 = 2 * 0x40 + z" "z < 0x40" and w: "b3 = 2 * 0x40 + w" "w < 0x40"
    and e: "x = 0 \<longrightarrow> 16 \<le> y" "x = 4 \<longrightarrow> y < 16"
    using assms by (simp_all add: x_def y_def z_def w_def) linarith+
  have m: "b0 mod 0x08 = x" "b1 mod 0x40 = y" "b2 mod 0x40 = z" "b3 mod 0x40 = w"
    unfolding x(1) y(1) z(1) w(1) using x(2) y(2) z(2) w(2) by (simp_all only: divmod_base)
  define r where "r = x * 0x40000 + y * 0x1000 + z * 0x40 + w"
  have r1: "r = x * 0x40000 + (y * 0x1000 + z * 0x40 + w)" "y * 0x1000 + z * 0x40 + w < 0x40000"
    and r2: "r = (x * 0x40 + y) * 0x1000 + (z * 0x40 + w)" "z * 0x40 + w < 0x1000"
    and r3: "r = (x * 0x1000 + y * 0x40 + z) * 0x40 + w"
    using y z w by (simp_all add: r_def)
  have d1: "r div 0x40000 = x"
    unfolding r1(1) using r1(2) by (simp only: divmod_base)
  have d2: "r div 0x1000 = x * 0x40 + y"
    unfolding r2(1) using r2(2) by (simp only: divmod_base)
  have d3: "r div 0x40 = x * 0x1000 + y * 0x40 + z" "r mod 0x40 = w"
    unfolding r3 using w(2) by (simp_all only: divmod_base)
  have d4: "(x * 0x40 + y) mod 0x40 = y"
    using y(2) by (simp only: divmod_base)
  have d5: "(x * 0x1000 + y * 0x40 + z) mod 0x40 = z"
  proof -
    have "x * 0x1000 + y * 0x40 + z = (x * 0x40 + y) * 0x40 + z" by simp
    then show ?thesis using z(2) by (simp only: divmod_base)
  qed
  have b1: "\<not> r < 0x10000"
  proof (cases "x = 0")
    case True
    with e have "16 \<le> y" by simp
    then show ?thesis unfolding r_def by linarith
  next
    case False
    then have "1 \<le> x" by simp
    then show ?thesis unfolding r_def by linarith
  qed
  have b2: "\<not> 0x10FFFF < r"
  proof (cases "x = 4")
    case True
    with e have "y < 16" by simp
    with True z(2) w(2) show ?thesis unfolding r_def by linarith
  next
    case False
    with x(3) have "x \<le> 3" by linarith
    with y(2) z(2) w(2) show ?thesis unfolding r_def by linarith
  qed
  have b: "\<not> r < 0x80" "\<not> r < 0x800" "\<not> ((0xD800 \<le> r \<and> r \<le> 0xDFFF) \<or> 0x10FFFF < r)" "\<not> r < 0x10000"
    using b1 b2 by simp_all
  show ?thesis
    unfolding m r_def [symmetric]
    by (simp only: EncodeRune_def b d1 d2 d3 d4 d5 if_True if_False) (simp add: x y z w)
qed

lemma DecodeRune_multi:
  assumes d: "DecodeRune (c # cs) = (r, n)"
    and h: "\<not> byte c < RuneSelf"
    and v: "\<not> (r = RuneError \<and> n = 1)"
  shows "EncodeRune r = take n (c # cs) \<and> DecodeRune (take n (c # cs) @ X) = (r, n)
           \<and> n \<le> Suc (length cs)"
proof -
  obtain sz lo hi where f: "first (byte c) = Some (sz, lo, hi)"
    using d h v by (cases "first (byte c)") (auto simp: DecodeRune_def Let_def)
  note fs = first_Some [OF f]
  have len: "\<not> Suc (length cs) < sz"
    using d h v f by (auto simp: DecodeRune_def Let_def split: if_splits)
  from fs have "sz = 2 \<or> sz = 3 \<or> sz = 4" by simp
  then show ?thesis
  proof (elim disjE)
    assume sz: "sz = 2"
    then obtain c1 cs1 where cs: "cs = c1 # cs1"
      using len by (cases cs) auto
    from d h v f sz cs have n: "n = 2" and b: "\<not> (byte c1 < lo \<or> hi < byte c1)"
      and r: "r = (byte c mod 0x20) * 0x40 + byte c1 mod 0x40"
      by (auto simp: DecodeRune_def Let_def split: if_splits)
    from first_2 [OF f [unfolded sz]] b
    have "EncodeRune r = [char_of (byte c), char_of (byte c1)]"
      unfolding r by (intro Encode2) simp_all
    moreover have "DecodeRune (c # c1 # X) = (r, 2)"
      using h f sz b r by (simp add: DecodeRune_def Let_def)
    ultimately show ?thesis
      using cs n by simp
  next
    assume sz: "sz = 3"
    then obtain c1 c2 cs2 where cs: "cs = c1 # c2 # cs2"
      using len by (cases cs; cases "tl cs") auto
    from d h v f sz cs have n: "n = 3" and b: "\<not> (byte c1 < lo \<or> hi < byte c1)" "cont (byte c2)"
      and r: "r = (byte c mod 0x10) * 0x1000 + (byte c1 mod 0x40) * 0x40 + byte c2 mod 0x40"
      by (auto simp: DecodeRune_def Let_def split: if_splits)
    from first_3 [OF f [unfolded sz]] b
    have "EncodeRune r = [char_of (byte c), char_of (byte c1), char_of (byte c2)]"
      unfolding r by (intro Encode3) (auto simp: cont_def)
    moreover have "DecodeRune (c # c1 # c2 # X) = (r, 3)"
      using h f sz b r by (simp add: DecodeRune_def Let_def)
    ultimately show ?thesis
      using cs n by simp
  next
    assume sz: "sz = 4"
    then obtain c1 c2 c3 cs3 where cs: "cs = c1 # c2 # c3 # cs3"
      using len by (cases cs; cases "tl cs"; cases "tl (tl cs)") auto
    from d h v f sz cs have n: "n = 4"
      and b: "\<not> (byte c1 < lo \<or> hi < byte c1)" "cont (byte c2)" "cont (byte c3)"
      and r: "r = (byte c mod 0x08) * 0x40000 + (byte c1 mod 0x40) * 0x1000
                    + (byte c2 mod 0x40) * 0x40 + byte c3 mod 0x40"
      by (auto simp: DecodeRune_def Let_def split: if_splits)
    from first_4 [OF f [unfolded sz]] b
    have "EncodeRune r = [char_of (byte c), char_of (byte c1), char_of (byte c2), char_of (byte c3)]"
      unfolding r by (intro Encode4) (auto simp: cont_def)
    moreover have "DecodeRune (c # c1 # c2 # c3 # X) = (r, 4)"
      using h f sz b r by (simp add: DecodeRune_def Let_def)
    ultimately show ?thesis
      using cs n by simp
  qed
qed

lemma hex_table: "list_all (\<lambda>n. is_hex (hex n) \<and> hexval (hex n) = n) [0 ..< 16]"
  by code_simp

lemma hex_facts:
  assumes "n < 16"
  shows "is_hex (hex n)" and "hexval (hex n) = n"
proof -
  from assms have "n \<in> set [0 ..< 16]" by simp
  with hex_table have "is_hex (hex n) \<and> hexval (hex n) = n"
    unfolding list_all_iff by (rule bspec)
  then show "is_hex (hex n)" and "hexval (hex n) = n" by simp_all
qed

lemma getu4_escape:
  assumes "a < 16" "b < 16" "c < 16" "d < 16"
  shows "getu4 (backslash # CHR ''u'' # hex a # hex b # hex c # hex d # X)
           = Some (((a * 16 + b) * 16 + c) * 16 + d)"
  using assms by (simp add: getu4_def hex_facts)

lemma hex_chars: "CHR ''0'' = hex 0" "CHR ''2'' = hex 2"
  by (simp_all add: hex_def)

lemma unquote_escape_byte:
  assumes lo: "byte c < RuneSelf" and h: "\<not> htmlSafe c"
  shows "unquote (escape_byte c @ X) = c # unquote X"
proof -
  have c: "char_of (byte c) = c" by (simp add: byte_def)
  consider "c = backslash \<or> c = quote" | "c = CHR 0x08" | "c = CHR 0x0C" | "c = CHR 0x0A"
    | "c = CHR 0x0D" | "c = CHR 0x09"
    | "\<not> (c = backslash \<or> c = quote)" "c \<noteq> CHR 0x08" "c \<noteq> CHR 0x0C" "c \<noteq> CHR 0x0A"
      "c \<noteq> CHR 0x0D" "c \<noteq> CHR 0x09"
    by blast
  then show ?thesis
  proof cases
    case 1
    then show ?thesis
      by (auto simp: escape_byte_def unquote.simps(2) unescape_def backslash_def quote_def)
  next
    case 7
    from lo have d: "byte c div 16 < 16" "byte c mod 16 < 16"
      by (simp_all add: RuneSelf_def)
    have "getu4 (backslash # CHR ''u'' # hex 0 # hex 0 # hex (byte c div 16) # hex (byte c mod 16) # X)
            = Some (((0 * 16 + 0) * 16 + byte c div 16) * 16 + byte c mod 16)"
      using d by (intro getu4_escape) simp_all
    then have g: "getu4 (backslash # CHR ''u'' # CHR ''0'' # CHR ''0'' # hex (byte c div 16)
                     # hex (byte c mod 16) # X) = Some (byte c)"
      by (simp add: hex_chars [symmetric])
    from lo have "\<not> IsSurrogate (byte c)" "EncodeRune (byte c) = [c]"
      by (simp_all add: IsSurrogate_def EncodeRune_def RuneSelf_def c)
    with 7 g show ?thesis
      by (simp add: escape_byte_def unquote.simps(2))
  qed (simp_all add: escape_byte_def unquote.simps(2) unescape_def backslash_def quote_def)
qed

lemma unquote_appendString: "valid_utf8 s \<Longrightarrow> unquote (appendString s) = s"
proof (induction s rule: appendString.induct)
  case 1
  show ?case by simp
next
  case (2 c cs)
  obtain r n where d: "DecodeRune (c # cs) = (r, n)"
    by (cases "DecodeRune (c # cs)")
  from "2.prems" d have v: "\<not> (r = RuneError \<and> n = 1)" and rest: "valid_utf8 (drop n (c # cs))"
    by (auto simp: valid_utf8.simps(2) split: if_splits)
  show ?case
  proof (cases "byte c < RuneSelf")
    case True
    with d have n: "n = 1" by (simp add: DecodeRune_def)
    with rest have vcs: "valid_utf8 cs" by simp
    show ?thesis
    proof (cases "htmlSafe c")
      case safe: True
      from "2.IH"(1) [OF True safe vcs] True safe show ?thesis
        by (simp add: appendString.simps(2) unquote.simps(2) htmlSafe_def)
    next
      case False
      from "2.IH"(2) [OF True False vcs] True False show ?thesis
        by (simp add: appendString.simps(2) unquote_escape_byte)
    qed
  next
    case False
    note m = DecodeRune_multi [OF d False v]
    from DecodeRune_size_pos' [OF d] obtain k where k: "n = Suc k"
      by (cases n) auto
    have nb: "c \<noteq> backslash"
      using False by (auto simp: backslash_def byte_def RuneSelf_def)
    have td: "take n (c # cs) @ drop n (c # cs) = c # cs" by simp
    show ?thesis
    proof (cases "r = 0x2028 \<or> r = 0x2029")
      case sep: True
      from "2.IH"(4) [OF False d [symmetric] v sep rest]
      have ih: "unquote (appendString (drop n (c # cs))) = drop n (c # cs)" by simp
      have "getu4 (backslash # CHR ''u'' # hex 2 # hex 0 # hex 2 # hex (r mod 16) # X)
              = Some (((2 * 16 + 0) * 16 + 2) * 16 + r mod 16)" for X
        by (intro getu4_escape) simp_all
      then have g: "getu4 (backslash # CHR ''u'' # CHR ''2'' # CHR ''0'' # CHR ''2'' # hex (r mod 16) # X)
              = Some r" for X
        using sep by (auto simp: hex_chars [symmetric])
      from sep have ns: "\<not> IsSurrogate r" and rne: "r \<noteq> RuneError"
        by (auto simp: IsSurrogate_def RuneError_def)
      have "appendString (c # cs) = backslash # CHR ''u'' # CHR ''2'' # CHR ''0'' # CHR ''2''
              # hex (r mod 16) # appendString (drop n (c # cs))"
        using False d rne sep by (simp add: appendString.simps(2))
      then have "unquote (appendString (c # cs))
                   = EncodeRune r @ unquote (appendString (drop n (c # cs)))"
        using g ns by (simp add: unquote.simps(2))
      with ih m td show ?thesis by simp
    next
      case nsep: False
      from "2.IH"(5) [OF False d [symmetric] v nsep rest]
      have ih: "unquote (appendString (drop n (c # cs))) = drop n (c # cs)" by simp
      have a: "appendString (c # cs) = c # take k cs @ appendString (drop n (c # cs))"
        using False d v nsep k by (simp add: appendString.simps(2))
      have dr: "DecodeRune (c # take k cs @ appendString (drop n (c # cs))) = (r, n)"
        using m [of "appendString (drop n (c # cs))"] k by simp
      have "drop n (c # take k cs @ appendString (drop n (c # cs))) = appendString (drop n (c # cs))"
        using m k by simp
      with a dr nb False
      have "unquote (appendString (c # cs)) = EncodeRune r @ unquote (appendString (drop n (c # cs)))"
        by (simp add: unquote.simps(2))
      with ih m td show ?thesis by simp
    qed
  qed
qed

text \<open>The request envelope read back.  The records of strings that the facade passes as
  params always marshal to a tree that the scanner reads (\<open>string_records_ok\<close>).\<close>

lemma field_names_unquote:
  "unquote ''jsonrpc'' = ''jsonrpc''" "unquote ''method'' = ''method''"
  "unquote ''params'' = ''params''" "unquote ''id'' = ''id''"
  by code_simp+

lemma field_names_ok:
  "string_ok ''jsonrpc''" "string_ok ''method''" "string_ok ''params''" "string_ok ''id''"
  unfolding string_ok_def by code_simp+

lemma decode_request_members:
  assumes "valid_utf8 v" "valid_utf8 m"
    and "- 9223372036854775808 \<le> i" "i < 9223372036854775808"
  shows "decode_struct ''clefclient.rpcRequest'' rpcRequest_fields
           (JObject [(''jsonrpc'', string_json v), (''method'', string_json m),
                     (''params'', pj), (''id'', JNumber (FormatInt i))]) zero_rpcRequest
         = (\<lparr>Jsonrpc = v, Method = m, Params = Generic (generic_of_json pj), ID = i\<rparr>,
            range_error pj)"
  using assms
  by (cases "range_error pj")
     (simp_all add: decode_struct_def field_names_unquote find_field_def rpcRequest_fields_def
      field_def decode_string_def string_json_def unquote_appendString decode_any_def
      decode_int_def ParseInt_FormatInt first_error_def zero_rpcRequest_def)

lemma request_tree_ok:
  assumes "json_ok 1 pj"
  shows "json_ok 0 (JObject [(''jsonrpc'', string_json v), (''method'', string_json m),
                     (''params'', pj), (''id'', JNumber (FormatInt i))])"
  using assms
  by (simp add: field_names_ok string_json_def string_ok_appendString number_ok_FormatInt
      maxNestingDepth_def)

lemma Decode_Marshal_rpcRequest:
  assumes u: "valid_utf8 (Jsonrpc r)" "valid_utf8 (Method r)"
    and i: "- 9223372036854775808 \<le> ID r" "ID r < 9223372036854775808"
    and p: "any_json (Params r) = Inr pj" and ok: "json_ok 1 pj"
  shows "\<exists>data. Marshal_rpcRequest r = Inr data
           \<and> Decode_rpcRequest data =
               (case range_error pj of
                  None \<Rightarrow> Inr (r\<lparr>Params := Generic (generic_of_json pj)\<rparr>)
                | Some e \<Rightarrow> Inl e)"
proof -
  let ?j = "JObject [(''jsonrpc'', string_json (Jsonrpc r)), (''method'', string_json (Method r)),
                     (''params'', pj), (''id'', JNumber (FormatInt (ID r)))]"
  have m: "Marshal_rpcRequest r = Inr (encode ?j)"
    using p by (simp add: Marshal_rpcRequest_def rpcRequest_json_def)
  have "scan_value 0 (encode ?j @ []) = Inr (?j, [])"
    by (rule scan_encode(1) [OF request_tree_ok [OF ok]]) (simp add: delim_def)
  then have s: "scan_value 0 (encode ?j) = Inr (?j, [])" by simp
  have "Decode_rpcRequest (encode ?j)
          = (case range_error pj of
               None \<Rightarrow> Inr \<lparr>Jsonrpc = Jsonrpc r, Method = Method r,
                             Params = Generic (generic_of_json pj), ID = ID r\<rparr>
             | Some e \<Rightarrow> Inl e)"
    unfolding Decode_rpcRequest_def s
    by (simp add: decode_request_members [OF u i] split: option.splits)
  with m show ?thesis by (simp split: option.splits)
qed

lemma json_ok_members_append:
  "json_ok_members d (ms @ ns) \<longleftrightarrow> json_ok_members d ms \<and> json_ok_members d ns"
  by (induction ms) auto

lemma record_names_ok:
  "string_ok ''from''" "string_ok ''to''" "string_ok ''gas''" "string_ok ''gasPrice''"
  "string_ok ''value''" "string_ok ''nonce''" "string_ok ''data''" "string_ok ''address''"
  "string_ok ''sig''"
  unfolding string_ok_def by code_simp+

lemma omitempty_ok: "string_ok name \<Longrightarrow> json_ok_members d (omitempty name s)"
  by (simp add: omitempty_def string_json_def string_ok_appendString)

lemma string_records_ok:
  "json_ok 1 (Transaction_json t)" "json_ok 1 (SignDataRequest_json s)"
  "json_ok 1 (EcRecoverRequest_json e)"
  by (simp_all add: Transaction_json_def SignDataRequest_json_def EcRecoverRequest_json_def
      json_ok_members_append omitempty_ok record_names_ok string_json_def string_ok_appendString
      maxNestingDepth_def)

lemma range_error_members_append:
  "range_error_members (ms @ ns) = first_error (range_error_members ms) (range_error_members ns)"
  by (induction ms) (auto simp: first_error_def split: option.splits)

lemma omitempty_in_range: "range_error_members (omitempty name s) = None"
  by (simp add: omitempty_def string_json_def first_error_def)

lemma string_records_in_range:
  "range_error (Transaction_json t) = None" "range_error (SignDataRequest_json s) = None"
  "range_error (EcRecoverRequest_json e) = None"
  by (simp_all add: Transaction_json_def SignDataRequest_json_def EcRecoverRequest_json_def
      range_error_members_append omitempty_in_range string_json_def first_error_def)

lemma valid_utf8_ascii: "list_all (\<lambda>c. byte c < RuneSelf) s \<Longrightarrow> valid_utf8 s"
  by (induction s) (auto simp: valid_utf8.simps(2) DecodeRune_def RuneSelf_def RuneError_def)

lemma appendString_ill_formed: "appendString [CHR 0xFF] = [backslash, CHR ''u'', CHR ''f'', CHR ''f'', CHR ''f'', CHR ''d'']"
  by (simp add: appendString.simps(2) DecodeRune_def first_def byte_def RuneSelf_def)

lemma replacement_chars:
  "char_of (239::nat) = CHR 0xEF" "char_of (191::nat) = CHR 0xBF" "char_of (189::nat) = CHR 0xBD"
  "hex 15 = CHR ''f''" "hex 13 = CHR ''d''"
  by code_simp+

lemma unquote_replacement: "unquote (CHR 0x5C # ''ufffd'') = [CHR 0xEF, CHR 0xBF, CHR 0xBD]"
proof -
  have "getu4 (backslash # CHR ''u'' # hex 15 # hex 15 # hex 15 # hex 13 # [])
          = Some (((15 * 16 + 15) * 16 + 15) * 16 + 13)"
    by (intro getu4_escape) simp_all
  then have g: "getu4 (backslash # ''ufffd'') = Some 0xFFFD"
    by (simp add: replacement_chars)
  have "EncodeRune 0xFFFD = [CHR 0xEF, CHR 0xBF, CHR 0xBD]"
    by (simp add: EncodeRune_def replacement_chars)
  with g show ?thesis
    by (simp add: unquote.simps(2) backslash_def [symmetric] IsSurrogate_def)
qed

lemma out_of_range_literal: "\<not> float64_range ''1e400''"
  by (simp add: float64_range_def exponent_def ParseNat_def is_digit_def byte_def float64_limit_def)

text \<open>The result payloads read back: what \<^verbatim>\<open>json.Unmarshal\<close> returns on the text that
  \<^verbatim>\<open>json.Marshal\<close> writes for a value of a result type.\<close>

lemma result_names_unquote:
  "unquote ''raw'' = ''raw''" "unquote ''tx'' = ''tx''" "unquote ''nonce'' = ''nonce''"
  "unquote ''gasPrice'' = ''gasPrice''" "unquote ''gas'' = ''gas''" "unquote ''to'' = ''to''"
  "unquote ''value'' = ''value''" "unquote ''input'' = ''input''" "unquote ''v'' = ''v''"
  "unquote ''r'' = ''r''" "unquote ''s'' = ''s''" "unquote ''hash'' = ''hash''"
  "unquote ''signature'' = ''signature''" "unquote ''version'' = ''version''"
  "unquote ''address'' = ''address''"
  by code_simp+

lemma result_names_ok:
  "string_ok ''raw''" "string_ok ''tx''" "string_ok ''nonce''"
  "string_ok ''gasPrice''" "string_ok ''gas''" "string_ok ''to''"
  "string_ok ''value''" "string_ok ''input''" "string_ok ''v''"
  "string_ok ''r''" "string_ok ''s''" "string_ok ''hash''"
  "string_ok ''signature''" "string_ok ''version''"
  "string_ok ''address''"
  unfolding string_ok_def by code_simp+

lemma scan_document_encode: "json_ok 0 j \<Longrightarrow> scan_document (encode j) = Inr j"
  using scan_encode(1) [of 0 j "[]"] by (simp add: scan_document_def delim_def)

lemma Unmarshal_encode:
  "json_ok 0 j \<Longrightarrow> dec j z = (v, None) \<Longrightarrow> Unmarshal dec z (encode j) = Inr v"
  by (simp add: Unmarshal_def scan_document_encode)

lemma Unmarshal_string:
  "string_ok b \<Longrightarrow> Unmarshal decode_string [] (quote # b @ [quote]) = Inr (unquote b)"
  using Unmarshal_encode [of "JString b" decode_string "[]" "unquote b"]
  by (simp add: decode_string_def)

lemma Unmarshal_string_json:
  "valid_utf8 a \<Longrightarrow> Unmarshal decode_string [] (encode (string_json a)) = Inr a"
  using Unmarshal_string [of "appendString a"]
  by (simp add: string_json_def string_ok_appendString unquote_appendString)

lemma decode_elements_strings:
  "list_all valid_utf8 ss \<Longrightarrow> decode_elements (map string_json ss) = (ss, None)"
  by (induction ss)
     (simp_all add: decode_string_def string_json_def unquote_appendString first_error_def)

lemma strings_ok: "json_ok_elements d (map string_json ss)"
  by (induction ss) (simp_all add: string_json_def string_ok_appendString)

lemma Unmarshal_strings_json:
  assumes "\<forall>ss. l = Some ss \<longrightarrow> list_all valid_utf8 ss"
  shows "Unmarshal decode_strings None (encode (strings_json l)) = Inr l"
proof (cases l)
  case None
  then show ?thesis
    using Unmarshal_encode [of JNull decode_strings None None]
    by (simp add: strings_json_def decode_strings_def)
next
  case (Some ss)
  with assms have "list_all valid_utf8 ss" by simp
  then have d: "decode_strings (JArray (map string_json ss)) None = (Some ss, None)"
    by (simp add: decode_strings_def decode_elements_strings)
  have ok: "json_ok 0 (JArray (map string_json ss))"
    by (simp add: strings_ok maxNestingDepth_def)
  from Unmarshal_encode [of "JArray (map string_json ss)" decode_strings None "Some ss", OF ok d] Some
  show ?thesis
    by (simp only: strings_json_def option.case)
qed

lemma Unmarshal_SignDataResponse_json:
  assumes "valid_utf8 (Signature v)"
  shows "Unmarshal (decode_struct ''clefclient.SignDataResponse'' SignDataResponse_fields)
           \<lparr>Signature = []\<rparr> (encode (SignDataResponse_json v)) = Inr v"
proof (rule Unmarshal_encode)
  show "json_ok 0 (SignDataResponse_json v)"
    by (simp add: SignDataResponse_json_def result_names_ok string_json_def string_ok_appendString
        maxNestingDepth_def)
  show "decode_struct ''clefclient.SignDataResponse'' SignDataResponse_fields
          (SignDataResponse_json v) \<lparr>Signature = []\<rparr> = (v, None)"
    using assms
    by (simp add: SignDataResponse_json_def decode_struct_def result_names_unquote find_field_def
        SignDataResponse_fields_def field_def decode_string_def string_json_def
        unquote_appendString first_error_def)
qed

lemma Unmarshal_VersionResponse_json:
  assumes "valid_utf8 (Version v)"
  shows "Unmarshal (decode_struct ''clefclient.VersionResponse'' VersionResponse_fields)
           \<lparr>Version = []\<rparr> (encode (VersionResponse_json v)) = Inr v"
proof (rule Unmarshal_encode)
  show "json_ok 0 (VersionResponse_json v)"
    by (simp add: VersionResponse_json_def result_names_ok string_json_def string_ok_appendString
        maxNestingDepth_def)
  show "decode_struct ''clefclient.VersionResponse'' VersionResponse_fields
          (VersionResponse_json v) \<lparr>Version = []\<rparr> = (v, None)"
    using assms
    by (simp add: VersionResponse_json_def decode_struct_def result_names_unquote find_field_def
        VersionResponse_fields_def field_def decode_string_def string_json_def
        unquote_appendString first_error_def)
qed

lemma Unmarshal_EcRecoverResponse_json:
  assumes "valid_utf8 (Address v)"
  shows "Unmarshal (decode_struct ''clefclient.EcRecoverResponse'' EcRecoverResponse_fields)
           \<lparr>Address = []\<rparr> (encode (EcRecoverResponse_json v)) = Inr v"
proof (rule Unmarshal_encode)
  show "json_ok 0 (EcRecoverResponse_json v)"
    by (simp add: EcRecoverResponse_json_def result_names_ok string_json_def string_ok_appendString
        maxNestingDepth_def)
  show "decode_struct ''clefclient.EcRecoverResponse'' EcRecoverResponse_fields
          (EcRecoverResponse_json v) \<lparr>Address = []\<rparr> = (v, None)"
    using assms
    by (simp add: EcRecoverResponse_json_def decode_struct_def result_names_unquote find_field_def
        EcRecoverResponse_fields_def field_def decode_string_def string_json_def
        unquote_appendString first_error_def)
qed

lemma Unmarshal_SignTxResponse_json:
  assumes "list_all valid_utf8 (SignTxResponse_strings v)"
  shows "Unmarshal (decode_struct ''clefclient.SignTxResponse'' SignTxResponse_fields)
           zero_SignTxResponse (encode (SignTxResponse_json v)) = Inr v"
proof (rule Unmarshal_encode)
  show "json_ok 0 (SignTxResponse_json v)"
    by (simp add: SignTxResponse_json_def result_names_ok string_json_def string_ok_appendString
        maxNestingDepth_def)
  obtain raw tx where v: "v = \<lparr>Raw = raw, Tx = tx\<rparr>" by (cases v) auto
  obtain n gp g t va i vv r s h where tx:
    "tx = \<lparr>stx_Nonce = n, stx_GasPrice = gp, stx_Gas = g, stx_To = t, stx_Value = va,
           stx_Input = i, stx_V = vv, stx_R = r, stx_S = s, stx_Hash = h\<rparr>"
    by (cases tx) auto
  show "decode_struct ''clefclient.SignTxResponse'' SignTxResponse_fields
          (SignTxResponse_json v) zero_SignTxResponse = (v, None)"
    using assms unfolding v tx
    by (simp add: SignTxResponse_json_def SignTxResponse_strings_def decode_struct_def
        result_names_unquote find_field_def SignTxResponse_fields_def SignTxResponse_Tx_fields_def
        field_def decode_string_def string_json_def unquote_appendString first_error_def
        zero_SignTxResponse_def)
qed

text \<open>The failures of a call, by where they come from.\<close>

lemma any_json_errors: "any_json p = Inl e \<Longrightarrow> e = MarshalerError ''json.RawMessage''"
  by (cases p rule: any_json.cases)
     (auto simp: TypedDataRequest_json_def RawMessage_json_def split: sum.splits)

lemma Marshal_rpcRequest_errors:
  "Marshal_rpcRequest r = Inl e \<Longrightarrow> e = MarshalerError ''json.RawMessage''"
  by (auto simp: Marshal_rpcRequest_def rpcRequest_json_def split: sum.splits dest: any_json_errors)

lemma httpTransport_call_failures:
  assumes "httpTransport_call post t m p = Inl err"
  shows "err = MarshalerError ''json.RawMessage'' \<or> (\<exists>text. err = url_Error text)
         \<or> err = io_EOF \<or> err = io_ErrUnexpectedEOF \<or> json_error err
         \<or> (\<exists>rd. response_reader post (HTTP t) m p = Some rd \<and> err = failure rd)
         \<or> (\<exists>env r. decoded_response post (HTTP t) m p = Some env \<and> Error env = Some r
               \<and> err = errors_New (Message r))"
proof (cases "Marshal_rpcRequest \<lparr>Jsonrpc = ''2.0'', Method = m, Params = p, ID = 1\<rparr>")
  case (Inl e)
  with assms have "err = e" by (simp add: httpTransport_call_def)
  with Marshal_rpcRequest_errors [OF Inl] show ?thesis by simp
next
  case marshalled: (Inr reqBody)
  show ?thesis
  proof (cases "post (http_url t) ''application/json'' reqBody")
    case (Inl cause)
    with assms marshalled have "err = url_Error cause" by (simp add: httpTransport_call_def)
    then show ?thesis by simp
  next
    case posted: (Inr resp)
    show ?thesis
    proof (cases "fst (Decode_rpcResponse (Body resp))")
      case (Inl e)
      with assms marshalled posted have "err = e" by (simp add: httpTransport_call_def)
      with Decode_rpcResponse_errors [OF Inl] marshalled posted show ?thesis by auto
    next
      case (Inr env)
      with assms marshalled posted obtain r where "Error env = Some r" "err = errors_New (Message r)"
        by (cases "Error env") (auto simp: httpTransport_call_def)
      with marshalled posted Inr show ?thesis by simp
    qed
  qed
qed

lemma ipcTransport_call_failures:
  assumes "fst (ipcTransport_call t m p) = Inl err"
  shows "err = MarshalerError ''json.RawMessage'' \<or> err = ErrClosed
         \<or> err = io_EOF \<or> err = io_ErrUnexpectedEOF \<or> json_error err
         \<or> (\<exists>rd. response_reader post (IPC t) m p = Some rd \<and> err = failure rd)
         \<or> (\<exists>env r. decoded_response post (IPC t) m p = Some env \<and> Error env = Some r
               \<and> err = errors_New (Message r))"
proof (cases "Marshal_rpcRequest \<lparr>Jsonrpc = ''2.0'', Method = m, Params = p, ID = 1\<rparr>")
  case (Inl e)
  with assms have "err = e" by (simp add: ipcTransport_call_def)
  with Marshal_rpcRequest_errors [OF Inl] show ?thesis by simp
next
  case marshalled: (Inr reqBody)
  show ?thesis
  proof (cases "closed (conn t)")
    case True
    with assms marshalled have "err = ErrClosed"
      by (simp add: ipcTransport_call_def conn_Write_def)
    then show ?thesis by simp
  next
    case opened: False
    obtain res rest where d: "Decode_rpcResponse (incoming (conn t)) = (res, rest)"
      by (cases "Decode_rpcResponse (incoming (conn t))")
    show ?thesis
    proof (cases res)
      case (Inl e)
      with assms marshalled opened d have "err = e"
        by (simp add: ipcTransport_call_def conn_Write_def)
      moreover from d Inl have "fst (Decode_rpcResponse (incoming (conn t))) = Inl e" by simp
      note Decode_rpcResponse_errors [OF this]
      ultimately show ?thesis using marshalled opened by auto
    next
      case (Inr env)
      with assms marshalled opened d obtain r where "Error env = Some r" "err = errors_New (Message r)"
        by (cases "Error env") (auto simp: ipcTransport_call_def conn_Write_def)
      with marshalled opened d Inr show ?thesis by simp
    qed
  qed
qed

lemma transport_call_failures:
  assumes "fst (transport_call post T m p) = Inl err"
  shows "err = MarshalerError ''json.RawMessage'' \<or> (\<exists>text. err = url_Error text) \<or> err = ErrClosed
         \<or> err = io_EOF \<or> err = io_ErrUnexpectedEOF \<or> json_error err
         \<or> (\<exists>rd. response_reader post T m p = Some rd \<and> err = failure rd)
         \<or> (\<exists>env r. decoded_response post T m p = Some env \<and> Error env = Some r
               \<and> err = errors_New (Message r))"
proof (cases T)
  case (HTTP t)
  with assms have "httpTransport_call post t m p = Inl err" by simp
  from httpTransport_call_failures [OF this] HTTP show ?thesis by blast
next
  case (IPC t)
  with assms have "fst (ipcTransport_call t m p) = Inl err" by (simp add: split_beta)
  from ipcTransport_call_failures [OF this, of post] IPC show ?thesis by blast
qed

lemma library_errors_not_New:
  assumes "e = MarshalerError name \<or> e = url_Error text \<or> e = ErrClosed \<or> e = io_EOF
           \<or> e = io_ErrUnexpectedEOF \<or> json_error e"
  shows "e \<noteq> errors_New msg"
  using assms json_error_not_New [of e msg] by (auto simp: errors_New_def ErrClosed_def)

section \<open>Properties of the transports and of the facade\<close>

text \<open>
  \<^bold>\<open>C1.\<close>  On either transport, when the response envelope that a call decodes carries an
  error record, the call returns no response but the error \<^verbatim>\<open>errors.New\<close> of the record's
  message; and each of the seven operations of the facade, called over a transport whose
  answer to it decodes to such an envelope, returns that error and no result.
\<close>

theorem error_record_fails_call_and_facade:
  assumes "Error env = Some e"
  shows "(decoded_response post T method params = Some env
            \<longrightarrow> fst (transport_call post T method params) = Inl (errors_New (Message e)))
       \<and> (decoded_response post T ''account_new'' (Generic GNil) = Some env
            \<longrightarrow> fst (NewAccount (transport_call post) T) = Inl (errors_New (Message e)))
       \<and> (decoded_response post T ''account_list'' (Generic GNil) = Some env
            \<longrightarrow> fst (ListAccounts (transport_call post) T) = Inl (errors_New (Message e)))
       \<and> (decoded_response post T ''account_signTransaction'' (TransactionPtr tx) = Some env
            \<longrightarrow> fst (SignTransaction (transport_call post) T tx) = Inl (errors_New (Message e)))
       \<and> (decoded_response post T ''account_signData'' (SignDataRequestPtr sd) = Some env
            \<longrightarrow> fst (SignData (transport_call post) T sd) = Inl (errors_New (Message e)))
       \<and> (decoded_response post T ''account_signTypedData'' (TypedDataRequestPtr td) = Some env
            \<longrightarrow> fst (SignTypedData (transport_call post) T td) = Inl (errors_New (Message e)))
       \<and> (decoded_response post T ''account_ecRecover'' (EcRecoverRequestPtr ec) = Some env
            \<longrightarrow> fst (EcRecover (transport_call post) T ec) = Inl (errors_New (Message e)))
       \<and> (decoded_response post T ''account_version'' (Generic GNil) = Some env
            \<longrightarrow> fst (Version_query (transport_call post) T) = Inl (errors_New (Message e)))"
  using assms
  by (intro conjI impI facade_propagates transport_call_error_record [where env = env]) assumption+

theorem error_record_fails_witness:
  "fst (transport_call (serve 200 unknown_account) endpoint ''account_new'' (Generic GNil)) = Inl (errorString ''unknown account'')
   \<and> fst (NewAccount (transport_call (serve 200 unknown_account)) endpoint) = Inl (errorString ''unknown account'')
   \<and> fst (ListAccounts (transport_call (serve 200 unknown_account)) endpoint) = Inl (errorString ''unknown account'')
   \<and> fst (SignTransaction (transport_call (serve 200 unknown_account)) (open_conn unknown_account) None) = Inl (errorString ''unknown account'')
   \<and> fst (SignData (transport_call (serve 200 unknown_account)) (open_conn unknown_account) None) = Inl (errorString ''unknown account'')
   \<and> fst (SignTypedData (transport_call (serve 200 unknown_account)) (open_conn unknown_account) None) = Inl (errorString ''unknown account'')
   \<and> fst (EcRecover (transport_call (serve 200 unknown_account)) endpoint None) = Inl (errorString ''unknown account'')
   \<and> fst (Version_query (transport_call (serve 200 unknown_account)) (open_conn unknown_account)) = Inl (errorString ''unknown account'')"
proof -
  have e: "Error unknown_account_envelope = Some \<lparr>Code = - 32000, Message = ''unknown account''\<rparr>"
    by (simp add: unknown_account_envelope_def)
  have d1: "decoded_response (serve 200 unknown_account) endpoint ''account_new'' (Generic GNil) = Some unknown_account_envelope"
    by code_simp
  have d2: "decoded_response (serve 200 unknown_account) endpoint ''account_list'' (Generic GNil) = Some unknown_account_envelope"
    by code_simp
  have d3: "decoded_response (serve 200 unknown_account) (open_conn unknown_account) ''account_signTransaction'' (TransactionPtr None) = Some unknown_account_envelope"
    by code_simp
  have d4: "decoded_response (serve 200 unknown_account) (open_conn unknown_account) ''account_signData'' (SignDataRequestPtr None) = Some unknown_account_envelope"
    by code_simp
  have d5: "decoded_response (serve 200 unknown_account) (open_conn unknown_account) ''account_signTypedData'' (TypedDataRequestPtr None) = Some unknown_account_envelope"
    by code_simp
  have d6: "decoded_response (serve 200 unknown_account) endpoint ''account_ecRecover'' (EcRecoverRequestPtr None) = Some unknown_account_envelope"
    by code_simp
  have d7: "decoded_response (serve 200 unknown_account) (open_conn unknown_account) ''account_version'' (Generic GNil) = Some unknown_account_envelope"
    by code_simp
  note t = error_record_fails_call_and_facade [OF e]
  show ?thesis
    using t [of "serve 200 unknown_account" endpoint "''account_new''" "Generic GNil"] d1 d2 d6
      t [of "serve 200 unknown_account" "open_conn unknown_account" "''account_version''" "Generic GNil" None None None] d3 d4 d5 d7
    by (simp add: errors_New_def)
qed



text \<open>
  \<^bold>\<open>C2.\<close>  For each of the seven operations of the facade and every transport: when the call
  of the transport succeeds with a response whose result payload is the JSON text that
  \<^verbatim>\<open>json.Marshal\<close> writes for a value of the result type of the operation, the strings of the
  value being well-formed UTF-8, the operation returns that value and no error, and the
  transport after the call.  \<^verbatim>\<open>NewAccount\<close>, given any JSON string literal as the payload,
  returns the string that the literal denotes.
\<close>

theorem facade_returns_typed_decoding:
  "(call t ''account_new'' (Generic GNil) = (Inr resp, t')
      \<and> Result resp = encode (string_json a) \<and> valid_utf8 a
      \<longrightarrow> NewAccount call t = (Inr a, t'))
   \<and> (call t ''account_new'' (Generic GNil) = (Inr resp, t')
      \<and> Result resp = quote # b @ [quote] \<and> string_ok b
      \<longrightarrow> NewAccount call t = (Inr (unquote b), t'))
   \<and> (call t ''account_list'' (Generic GNil) = (Inr resp, t')
      \<and> Result resp = encode (strings_json l) \<and> (\<forall>ss. l = Some ss \<longrightarrow> list_all valid_utf8 ss)
      \<longrightarrow> ListAccounts call t = (Inr l, t'))
   \<and> (call t ''account_signTransaction'' (TransactionPtr tx) = (Inr resp, t')
      \<and> Result resp = encode (SignTxResponse_json signed)
      \<and> list_all valid_utf8 (SignTxResponse_strings signed)
      \<longrightarrow> SignTransaction call t tx = (Inr signed, t'))
   \<and> (call t ''account_signData'' (SignDataRequestPtr sd) = (Inr resp, t')
      \<and> Result resp = encode (SignDataResponse_json sig) \<and> valid_utf8 (Signature sig)
      \<longrightarrow> SignData call t sd = (Inr sig, t'))
   \<and> (call t ''account_signTypedData'' (TypedDataRequestPtr td) = (Inr resp, t')
      \<and> Result resp = encode (SignDataResponse_json sig) \<and> valid_utf8 (Signature sig)
      \<longrightarrow> SignTypedData call t td = (Inr sig, t'))
   \<and> (call t ''account_ecRecover'' (EcRecoverRequestPtr ec) = (Inr resp, t')
      \<and> Result resp = encode (EcRecoverResponse_json rec) \<and> valid_utf8 (Address rec)
      \<longrightarrow> EcRecover call t ec = (Inr rec, t'))
   \<and> (call t ''account_version'' (Generic GNil) = (Inr resp, t')
      \<and> Result resp = encode (VersionResponse_json ver) \<and> valid_utf8 (Version ver)
      \<longrightarrow> Version_query call t = (Inr ver, t'))"
proof (intro conjI impI; elim conjE)
  assume "call t ''account_new'' (Generic GNil) = (Inr resp, t')"
    "Result resp = encode (string_json a)" "valid_utf8 a"
  then show "NewAccount call t = (Inr a, t')"
    by (simp add: NewAccount_def Unmarshal_string_json del: encode.simps)
next
  assume "call t ''account_new'' (Generic GNil) = (Inr resp, t')"
    "Result resp = quote # b @ [quote]" "string_ok b"
  then show "NewAccount call t = (Inr (unquote b), t')"
    by (simp add: NewAccount_def Unmarshal_string)
next
  assume "call t ''account_list'' (Generic GNil) = (Inr resp, t')"
    "Result resp = encode (strings_json l)" "\<forall>ss. l = Some ss \<longrightarrow> list_all valid_utf8 ss"
  then show "ListAccounts call t = (Inr l, t')"
    by (simp add: ListAccounts_def Unmarshal_strings_json del: encode.simps)
next
  assume "call t ''account_signTransaction'' (TransactionPtr tx) = (Inr resp, t')"
    "Result resp = encode (SignTxResponse_json signed)"
    "list_all valid_utf8 (SignTxResponse_strings signed)"
  then show "SignTransaction call t tx = (Inr signed, t')"
    by (simp add: SignTransaction_def Unmarshal_SignTxResponse_json del: encode.simps)
next
  assume "call t ''account_signData'' (SignDataRequestPtr sd) = (Inr resp, t')"
    "Result resp = encode (SignDataResponse_json sig)" "valid_utf8 (Signature sig)"
  then show "SignData call t sd = (Inr sig, t')"
    by (simp add: SignData_def Unmarshal_SignDataResponse_json del: encode.simps)
next
  assume "call t ''account_signTypedData'' (TypedDataRequestPtr td) = (Inr resp, t')"
    "Result resp = encode (SignDataResponse_json sig)" "valid_utf8 (Signature sig)"
  then show "SignTypedData call t td = (Inr sig, t')"
    by (simp add: SignTypedData_def Unmarshal_SignDataResponse_json del: encode.simps)
next
  assume "call t ''account_ecRecover'' (EcRecoverRequestPtr ec) = (Inr resp, t')"
    "Result resp = encode (EcRecoverResponse_json rec)" "valid_utf8 (Address rec)"
  then show "EcRecover call t ec = (Inr rec, t')"
    by (simp add: EcRecover_def Unmarshal_EcRecoverResponse_json del: encode.simps)
next
  assume "call t ''account_version'' (Generic GNil) = (Inr resp, t')"
    "Result resp = encode (VersionResponse_json ver)" "valid_utf8 (Version ver)"
  then show "Version_query call t = (Inr ver, t')"
    by (simp add: Version_query_def Unmarshal_VersionResponse_json del: encode.simps)
qed

theorem facade_returns_typed_decoding_witness:
  "NewAccount (result_double address_payload) () = (Inr address1, ())
   \<and> ListAccounts (result_double accounts_payload) () = (Inr (Some [address1, address2]), ())
   \<and> SignTransaction (result_double signed_tx_payload) () None = (Inr signed_tx, ())
   \<and> SignData (result_double signature_payload) () None = (Inr \<lparr>Signature = signature1\<rparr>, ())
   \<and> SignTypedData (result_double signature_payload) () None = (Inr \<lparr>Signature = signature1\<rparr>, ())
   \<and> EcRecover (result_double recovered_payload) () None = (Inr \<lparr>Address = address1\<rparr>, ())
   \<and> Version_query (result_double version_payload) () = (Inr \<lparr>Version = ''6.1.0''\<rparr>, ())"
proof -
  have p: "address_payload = encode (string_json address1)"
    "address_payload = quote # appendString address1 @ [quote]"
    "accounts_payload = encode (strings_json (Some [address1, address2]))"
    "signed_tx_payload = encode (SignTxResponse_json signed_tx)"
    "signature_payload = encode (SignDataResponse_json \<lparr>Signature = signature1\<rparr>)"
    "recovered_payload = encode (EcRecoverResponse_json \<lparr>Address = address1\<rparr>)"
    "version_payload = encode (VersionResponse_json \<lparr>Version = ''6.1.0''\<rparr>)"
    by code_simp+
  have a: "list_all (\<lambda>c. byte c < RuneSelf) address1" "list_all (\<lambda>c. byte c < RuneSelf) address2"
    "list_all (\<lambda>c. byte c < RuneSelf) signature1" "list_all (\<lambda>c. byte c < RuneSelf) ''6.1.0''"
    "list_all (list_all (\<lambda>c. byte c < RuneSelf)) (SignTxResponse_strings signed_tx)"
    by code_simp+
  have v: "valid_utf8 address1" "valid_utf8 address2" "valid_utf8 signature1" "valid_utf8 ''6.1.0''"
    by (rule valid_utf8_ascii, rule a)+
  have vs: "list_all valid_utf8 (SignTxResponse_strings signed_tx)"
    using a(5) by (simp add: list_all_iff valid_utf8_ascii)
  have d: "\<And>payload m p. result_double payload () m p = (Inr (result_envelope payload), ())"
    by (simp add: result_double_def)
  have r: "\<And>payload. Result (result_envelope payload) = payload"
    by (simp add: result_envelope_def)
  have u: "unquote (appendString address1) = address1"
    by (rule unquote_appendString [OF v(1)])
  note t = facade_returns_typed_decoding
  have n1: "NewAccount (result_double address_payload) () = (Inr address1, ())"
    using t [where call = "result_double address_payload" and t = "()" and a = address1,
        THEN conjunct1, THEN mp, OF conjI [OF d conjI [OF _ v(1)]]] r p(1) by simp
  have n1b: "NewAccount (result_double address_payload) () = (Inr (unquote (appendString address1)), ())"
    using t [where call = "result_double address_payload" and t = "()" and b = "appendString address1",
        THEN conjunct2, THEN conjunct1, THEN mp, OF conjI [OF d conjI [OF _ string_ok_appendString]]]
      r p(2) by simp
  have n2: "ListAccounts (result_double accounts_payload) () = (Inr (Some [address1, address2]), ())"
    using t [where call = "result_double accounts_payload" and t = "()"
          and l = "Some [address1, address2]",
        THEN conjunct2, THEN conjunct2, THEN conjunct1, THEN mp, OF conjI [OF d]] r p(3) v by simp
  have n3: "SignTransaction (result_double signed_tx_payload) () None = (Inr signed_tx, ())"
    using t [where call = "result_double signed_tx_payload" and t = "()" and signed = signed_tx,
        THEN conjunct2, THEN conjunct2, THEN conjunct2, THEN conjunct1, THEN mp,
        OF conjI [OF d conjI [OF _ vs]]] r p(4) by simp
  have n4: "SignData (result_double signature_payload) () None = (Inr \<lparr>Signature = signature1\<rparr>, ())"
    using t [where call = "result_double signature_payload" and t = "()"
          and sig = "\<lparr>Signature = signature1\<rparr>",
        THEN conjunct2, THEN conjunct2, THEN conjunct2, THEN conjunct2, THEN conjunct1, THEN mp,
        OF conjI [OF d]] r p(5) v by simp
  have n5: "SignTypedData (result_double signature_payload) () None
             = (Inr \<lparr>Signature = signature1\<rparr>, ())"
    using t [where call = "result_double signature_payload" and t = "()"
          and sig = "\<lparr>Signature = signature1\<rparr>",
        THEN conjunct2, THEN conjunct2, THEN conjunct2, THEN conjunct2, THEN conjunct2,
        THEN conjunct1, THEN mp, OF conjI [OF d]] r p(5) v by simp
  have n6: "EcRecover (result_double recovered_payload) () None = (Inr \<lparr>Address = address1\<rparr>, ())"
    using t [where call = "result_double recovered_payload" and t = "()"
          and rec = "\<lparr>Address = address1\<rparr>",
        THEN conjunct2, THEN conjunct2, THEN conjunct2, THEN conjunct2, THEN conjunct2,
        THEN conjunct2, THEN conjunct1, THEN mp, OF conjI [OF d]] r p(6) v by simp
  have n7: "Version_query (result_double version_payload) () = (Inr \<lparr>Version = ''6.1.0''\<rparr>, ())"
    using t [where call = "result_double version_payload" and t = "()"
          and ver = "\<lparr>Version = ''6.1.0''\<rparr>",
        THEN conjunct2, THEN conjunct2, THEN conjunct2, THEN conjunct2, THEN conjunct2,
        THEN conjunct2, THEN conjunct2, THEN mp, OF conjI [OF d]] r p(7) v by simp
  from n1 n1b n2 n3 n4 n5 n6 n7 show ?thesis by simp
qed

text \<open>
  \<^bold>\<open>C3.\<close>  Each operation of the facade calls the transport once, with its own method name
  and parameter value, whatever the transport answers; both transports hand on the marshalled
  envelope \<^verbatim>\<open>{jsonrpc: "2.0", method, params, id: 1}\<close> of the method they are called with,
  whose member \<^verbatim>\<open>method\<close> is that name as a JSON string; and each of the seven names is
  written without any escape.
\<close>

theorem facade_method_names:
  "snd (NewAccount (recording reply) calls) = calls @ [(''account_new'', Generic GNil)]
   \<and> snd (ListAccounts (recording reply) calls) = calls @ [(''account_list'', Generic GNil)]
   \<and> snd (SignTransaction (recording reply) calls tx)
         = calls @ [(''account_signTransaction'', TransactionPtr tx)]
   \<and> snd (SignData (recording reply) calls sd) = calls @ [(''account_signData'', SignDataRequestPtr sd)]
   \<and> snd (SignTypedData (recording reply) calls td)
         = calls @ [(''account_signTypedData'', TypedDataRequestPtr td)]
   \<and> snd (EcRecover (recording reply) calls ec) = calls @ [(''account_ecRecover'', EcRecoverRequestPtr ec)]
   \<and> snd (Version_query (recording reply) calls) = calls @ [(''account_version'', Generic GNil)]
   \<and> httpTransport_call echo h m p =
        (case rpcRequest_json \<lparr>Jsonrpc = ''2.0'', Method = m, Params = p, ID = 1\<rparr> of
           Inl err \<Rightarrow> Inl err
         | Inr j \<Rightarrow> Inl (url_Error (encode j)))
   \<and> written (conn (snd (ipcTransport_call i m p))) =
        (case rpcRequest_json \<lparr>Jsonrpc = ''2.0'', Method = m, Params = p, ID = 1\<rparr> of
           Inl err \<Rightarrow> written (conn i)
         | Inr j \<Rightarrow>
             if closed (conn i) then written (conn i) else written (conn i) @ encode j @ [newline])
   \<and> rpcRequest_json \<lparr>Jsonrpc = ''2.0'', Method = m, Params = p, ID = 1\<rparr> =
        (case any_json p of
           Inl err \<Rightarrow> Inl err
         | Inr pj \<Rightarrow>
             Inr (JObject [(''jsonrpc'', JString ''2.0''), (''method'', JString (appendString m)),
                           (''params'', pj), (''id'', JNumber ''1'')]))
   \<and> map appendString
         [''account_new'', ''account_list'', ''account_signTransaction'', ''account_signData'',
          ''account_signTypedData'', ''account_ecRecover'', ''account_version'']
       = [''account_new'', ''account_list'', ''account_signTransaction'', ''account_signData'',
          ''account_signTypedData'', ''account_ecRecover'', ''account_version'']"
proof -
  have spy: "\<And>m p. recording reply calls m p = (reply m p, calls @ [(m, p)])"
    by (simp add: recording_def)
  have names: "map appendString
         [''account_new'', ''account_list'', ''account_signTransaction'', ''account_signData'',
          ''account_signTypedData'', ''account_ecRecover'', ''account_version'']
       = [''account_new'', ''account_list'', ''account_signTransaction'', ''account_signData'',
          ''account_signTypedData'', ''account_ecRecover'', ''account_version'']"
    by code_simp
  have v: "appendString ''2.0'' = ''2.0''" "FormatInt 1 = ''1''"
    by code_simp+
  have http: "httpTransport_call echo h m p =
        (case rpcRequest_json \<lparr>Jsonrpc = ''2.0'', Method = m, Params = p, ID = 1\<rparr> of
           Inl err \<Rightarrow> Inl err
         | Inr j \<Rightarrow> Inl (url_Error (encode j)))"
    by (simp add: httpTransport_call_def Marshal_rpcRequest_def echo_def split: sum.splits)
  have ipc: "written (conn (snd (ipcTransport_call i m p))) =
        (case rpcRequest_json \<lparr>Jsonrpc = ''2.0'', Method = m, Params = p, ID = 1\<rparr> of
           Inl err \<Rightarrow> written (conn i)
         | Inr j \<Rightarrow>
             if closed (conn i) then written (conn i) else written (conn i) @ encode j @ [newline])"
    by (auto simp: ipcTransport_call_def Marshal_rpcRequest_def conn_Write_def
          split: sum.splits prod.splits option.splits)
  have env: "rpcRequest_json \<lparr>Jsonrpc = ''2.0'', Method = m, Params = p, ID = 1\<rparr> =
        (case any_json p of
           Inl err \<Rightarrow> Inl err
         | Inr pj \<Rightarrow>
             Inr (JObject [(''jsonrpc'', JString ''2.0''), (''method'', JString (appendString m)),
                           (''params'', pj), (''id'', JNumber ''1'')]))"
    by (simp add: rpcRequest_json_def v string_json_def split: sum.splits)
  show ?thesis
    apply (intro conjI)
              apply (simp_all add: NewAccount_def ListAccounts_def SignTransaction_def SignData_def
        SignTypedData_def EcRecover_def Version_query_def spy split: sum.splits)[7]
    using http ipc env names by blast+
qed

text \<open>
  \<^bold>\<open>C4.\<close>  (as stated, refuted) The request of a no-argument operation does not omit
  \<^verbatim>\<open>params\<close>: the field has no \<^verbatim>\<open>omitempty\<close> tag, and a nil interface is written
  \<^verbatim>\<open>null\<close>.  The request of \<^verbatim>\<open>NewAccount\<close> has a member named \<^verbatim>\<open>params\<close>.
\<close>

theorem no_argument_request_has_params_member:
  "Marshal_rpcRequest \<lparr>Jsonrpc = ''2.0'', Method = ''account_new'', Params = Generic GNil, ID = 1\<rparr>
     = Inr new_account_request
   \<and> (case rpcRequest_json \<lparr>Jsonrpc = ''2.0'', Method = ''account_new'', Params = Generic GNil, ID = 1\<rparr> of
         Inl err \<Rightarrow> False
       | Inr j \<Rightarrow> ''params'' \<in> set (member_names j))
   \<and> fst (NewAccount (transport_call echo) endpoint)
       = Inl (url_Error new_account_request)"
  by code_simp

text \<open>
  \<^bold>\<open>C4.\<close>  (amended) For every no-argument operation (account creation, account listing,
  version query) the serialized request envelope is
  \<^verbatim>\<open>{"jsonrpc":"2.0","method":<name>,"params":null,"id":1}\<close>: the member \<^verbatim>\<open>params\<close> is present
  with the value \<^verbatim>\<open>null\<close>, on the HTTP transport and on the stream transport.
\<close>

theorem no_argument_request_params_null:
  "Marshal_rpcRequest \<lparr>Jsonrpc = ''2.0'', Method = m, Params = Generic GNil, ID = 1\<rparr>
     = Inr (encode (JObject [(''jsonrpc'', JString ''2.0''), (''method'', JString (appendString m)),
                             (''params'', JNull), (''id'', JNumber ''1'')]))
   \<and> fst (NewAccount (transport_call echo) (HTTP h))
       = Inl (url_Error new_account_request)
   \<and> fst (ListAccounts (transport_call echo) (HTTP h))
       = Inl (url_Error
               (encode (JObject [(''jsonrpc'', JString ''2.0''), (''method'', JString ''account_list''),
                                 (''params'', JNull), (''id'', JNumber ''1'')])))
   \<and> fst (Version_query (transport_call echo) (HTTP h))
       = Inl (url_Error
               (encode (JObject [(''jsonrpc'', JString ''2.0''), (''method'', JString ''account_version''),
                                 (''params'', JNull), (''id'', JNumber ''1'')])))
   \<and> written (conn (snd (ipcTransport_call i m (Generic GNil)))) =
       (if closed (conn i) then written (conn i)
        else written (conn i)
               @ encode (JObject [(''jsonrpc'', JString ''2.0''), (''method'', JString (appendString m)),
                                  (''params'', JNull), (''id'', JNumber ''1'')])
               @ [newline])"
proof -
  have v: "appendString ''2.0'' = ''2.0''" "FormatInt 1 = ''1''"
    "appendString ''account_new'' = ''account_new''"
    "appendString ''account_list'' = ''account_list''"
    "appendString ''account_version'' = ''account_version''"
    by code_simp+
  have m: "\<And>m. Marshal_rpcRequest \<lparr>Jsonrpc = ''2.0'', Method = m, Params = Generic GNil, ID = 1\<rparr>
     = Inr (encode (JObject [(''jsonrpc'', JString ''2.0''), (''method'', JString (appendString m)),
                             (''params'', JNull), (''id'', JNumber ''1'')]))"
    by (simp add: Marshal_rpcRequest_def rpcRequest_json_def string_json_def v)
  have e: "encode (JObject [(''jsonrpc'', JString ''2.0''), (''method'', JString ''account_new''),
                            (''params'', JNull), (''id'', JNumber ''1'')]) = new_account_request"
    by code_simp
  have h: "\<And>m. httpTransport_call echo h m (Generic GNil)
     = Inl (url_Error
         (encode (JObject [(''jsonrpc'', JString ''2.0''), (''method'', JString (appendString m)),
                             (''params'', JNull), (''id'', JNumber ''1'')])))"
    by (simp add: httpTransport_call_def m echo_def)
  have i: "written (conn (snd (ipcTransport_call i m (Generic GNil)))) =
       (if closed (conn i) then written (conn i)
        else written (conn i)
               @ encode (JObject [(''jsonrpc'', JString ''2.0''), (''method'', JString (appendString m)),
                                  (''params'', JNull), (''id'', JNumber ''1'')])
               @ [newline])"
    unfolding ipcTransport_call_def m
    by (auto simp: conn_Write_def split: sum.splits prod.splits option.splits)
  show ?thesis
    using m [of m] i
    by (simp add: NewAccount_def ListAccounts_def Version_query_def h v e [symmetric] del: encode.simps)
qed

text \<open>
  \<^bold>\<open>C5.\<close>  For every \<^verbatim>\<open>Transaction\<close>, each of the optional fields gas, gas price, value, nonce
  and data that is unset (the empty string) has no member in the serialized object; an
  unset data field is absent, not present as an empty string.
\<close>

theorem Transaction_omits_unset_fields:
  "(tx_Gas t = [] \<longrightarrow> ''gas'' \<notin> set (member_names (Transaction_json t)))
   \<and> (tx_GasPrice t = [] \<longrightarrow> ''gasPrice'' \<notin> set (member_names (Transaction_json t)))
   \<and> (tx_Value t = [] \<longrightarrow> ''value'' \<notin> set (member_names (Transaction_json t)))
   \<and> (tx_Nonce t = [] \<longrightarrow> ''nonce'' \<notin> set (member_names (Transaction_json t)))
   \<and> (tx_Data t = [] \<longrightarrow> ''data'' \<notin> set (member_names (Transaction_json t)))"
  by (simp add: Transaction_json_def member_names_def omitempty_def)

theorem Transaction_omits_unset_fields_witness:
  \<open>tx_Gas transfer = [] \<and> tx_GasPrice transfer = [] \<and> tx_Value transfer = []
   \<and> tx_Nonce transfer = [] \<and> tx_Data transfer = []
   \<and> ''gas'' \<notin> set (member_names (Transaction_json transfer))
   \<and> ''gasPrice'' \<notin> set (member_names (Transaction_json transfer))
   \<and> ''value'' \<notin> set (member_names (Transaction_json transfer))
   \<and> ''nonce'' \<notin> set (member_names (Transaction_json transfer))
   \<and> ''data'' \<notin> set (member_names (Transaction_json transfer))
   \<and> encode (Transaction_json transfer)
       = ''{"from":"0x0000000000000000000000000000000000000001","to":"0x0000000000000000000000000000000000000002"}''\<close>
proof -
  have u: "tx_Gas transfer = []" "tx_GasPrice transfer = []" "tx_Value transfer = []"
    "tx_Nonce transfer = []" "tx_Data transfer = []"
    by (simp_all add: transfer_def)
  have e: \<open>encode (Transaction_json transfer)
       = ''{"from":"0x0000000000000000000000000000000000000001","to":"0x0000000000000000000000000000000000000002"}''\<close>
    by code_simp
  show ?thesis
    using Transaction_omits_unset_fields [of transfer] u e by simp
qed


text \<open>
  \<^bold>\<open>C7.\<close>  (as stated, refuted) Decoding the bytes of a request envelope does not always give
  the envelope back.  \<^verbatim>\<open>Params\<close> is an \<^verbatim>\<open>interface{}\<close>: the \<^verbatim>\<open>*Transaction\<close> that
  \<^verbatim>\<open>SignTransaction\<close> passes comes back as a \<^verbatim>\<open>map[string]interface{}\<close>.  A method name
  that is not UTF-8 comes back with U+FFFD in the place of the ill-formed byte.
\<close>

theorem typed_params_come_back_as_map:
  "Marshal_rpcRequest sign_transaction_envelope = Inr sign_transaction_request
   \<and> Decode_rpcRequest sign_transaction_request
       = Inr \<lparr>Jsonrpc = ''2.0'', Method = ''account_signTransaction'',
               Params = Generic (GMap [(''from'', GString address1), (''to'', GString address2)]),
               ID = 1\<rparr>
   \<and> Decode_rpcRequest sign_transaction_request \<noteq> Inr sign_transaction_envelope
   \<and> Marshal_rpcRequest ill_formed_method_envelope = Inr ill_formed_method_request
   \<and> Decode_rpcRequest ill_formed_method_request
       = Inr \<lparr>Jsonrpc = ''2.0'', Method = [CHR 0xEF, CHR 0xBF, CHR 0xBD],
               Params = Generic GNil, ID = 1\<rparr>
   \<and> Decode_rpcRequest ill_formed_method_request \<noteq> Inr ill_formed_method_envelope"
proof -
  have m: "Marshal_rpcRequest sign_transaction_envelope = Inr sign_transaction_request"
    by code_simp
  have d: "Decode_rpcRequest sign_transaction_request
       = Inr \<lparr>Jsonrpc = ''2.0'', Method = ''account_signTransaction'',
               Params = Generic (GMap [(''from'', GString address1), (''to'', GString address2)]),
               ID = 1\<rparr>"
    by code_simp
  have v: "appendString ''2.0'' = ''2.0''" "FormatInt 1 = ''1''"
    by code_simp+
  have m': "Marshal_rpcRequest ill_formed_method_envelope = Inr ill_formed_method_request"
    by (simp add: Marshal_rpcRequest_def rpcRequest_json_def ill_formed_method_envelope_def
        string_json_def appendString_ill_formed v ill_formed_method_request_def quote_def
        backslash_def)
  have s: "scan_value 0 ill_formed_method_request
     = Inr (JObject [(''jsonrpc'', JString ''2.0''), (''method'', JString (CHR 0x5C # ''ufffd'')),
                     (''params'', JNull), (''id'', JNumber ''1'')], [])"
    by code_simp
  have u: "unquote ''2.0'' = ''2.0''" "ParseInt ''1'' = Some 1"
    by code_simp+
  have d': "Decode_rpcRequest ill_formed_method_request
       = Inr \<lparr>Jsonrpc = ''2.0'', Method = [CHR 0xEF, CHR 0xBF, CHR 0xBD],
               Params = Generic GNil, ID = 1\<rparr>"
    by (simp add: Decode_rpcRequest_def s decode_struct_def field_names_unquote find_field_def
        rpcRequest_fields_def field_def decode_string_def decode_any_def decode_int_def
        first_error_def zero_rpcRequest_def u unquote_replacement)
  show ?thesis
    unfolding m d m' d'
    by (simp add: sign_transaction_envelope_def ill_formed_method_envelope_def)
qed

text \<open>
  \<^bold>\<open>C7.\<close>  (amended) Take a request envelope as the transports build them: the params are
  nil or a pointer to a request record.  Let its version tag and its method name be
  well-formed UTF-8, its id an \<^verbatim>\<open>int64\<close>, and let its params be marshalled to a JSON value
  that the scanner reads (strings and number literals well-formed, nesting within the limit
  of 10000 levels).  Then marshalling succeeds.  When a number of the params is beyond the
  range of \<^verbatim>\<open>float64\<close>, decoding the bytes fails with the \<^verbatim>\<open>*json.UnmarshalTypeError\<close> of the
  first such number.  Otherwise decoding gives an envelope with the same version tag, method
  name and id, whose params are the value that the JSON of the original params decodes to in
  an \<^verbatim>\<open>interface{}\<close>: the envelope is the original one when the params were nil, and it is
  another one when they were a pointer.
\<close>

theorem request_round_trip:
  assumes "valid_utf8 (Jsonrpc r)" and "valid_utf8 (Method r)"
    and "- 9223372036854775808 \<le> ID r" and "ID r < 9223372036854775808"
    and "\<forall>g. Params r = Generic g \<longrightarrow> g = GNil"
    and "any_json (Params r) = Inr pj" and "json_ok 1 pj"
  shows "\<exists>data. Marshal_rpcRequest r = Inr data
           \<and> (case range_error pj of
                Some e \<Rightarrow> Decode_rpcRequest data = Inl e
              | None \<Rightarrow>
                  Decode_rpcRequest data = Inr (r\<lparr>Params := Generic (generic_of_json pj)\<rparr>)
                  \<and> (Params r = Generic GNil \<longrightarrow> Decode_rpcRequest data = Inr r)
                  \<and> (Params r \<noteq> Generic GNil \<longrightarrow> Decode_rpcRequest data \<noteq> Inr r))"
proof -
  from Decode_Marshal_rpcRequest [OF assms(1-4) assms(6,7)] obtain data
    where m: "Marshal_rpcRequest r = Inr data"
      and d: "Decode_rpcRequest data =
               (case range_error pj of
                  None \<Rightarrow> Inr (r\<lparr>Params := Generic (generic_of_json pj)\<rparr>)
                | Some e \<Rightarrow> Inl e)"
    by blast
  have same: "r\<lparr>Params := Generic (generic_of_json pj)\<rparr> = r" if "Params r = Generic GNil"
    using that assms(6) by (cases r) auto
  have other: "r\<lparr>Params := Generic (generic_of_json pj)\<rparr> \<noteq> r" if "Params r \<noteq> Generic GNil"
  proof
    assume "r\<lparr>Params := Generic (generic_of_json pj)\<rparr> = r"
    then have "Params (r\<lparr>Params := Generic (generic_of_json pj)\<rparr>) = Params r" by simp
    then have "Params r = Generic (generic_of_json pj)" by simp
    with assms(5) that show False by auto
  qed
  show ?thesis
  proof (cases "range_error pj")
    case None
    with m d same other show ?thesis by auto
  next
    case (Some e)
    with m d show ?thesis by auto
  qed
qed

theorem request_round_trip_witness:
  "Marshal_rpcRequest new_account_envelope = Inr new_account_request
   \<and> Decode_rpcRequest new_account_request = Inr new_account_envelope
   \<and> (\<exists>data. Marshal_rpcRequest recover_envelope = Inr data
         \<and> Decode_rpcRequest data
             = Inr (recover_envelope
                      \<lparr>Params := Generic (GMap [(''data'', GString ''0x48656c6c6f20576f726c64''),
                                               (''sig'', GString signature1)])\<rparr>)
         \<and> Decode_rpcRequest data \<noteq> Inr recover_envelope)
   \<and> (\<exists>data. Marshal_rpcRequest out_of_range_envelope = Inr data
         \<and> Decode_rpcRequest data = Inl (UnmarshalTypeError ''number 1e400'' ''float64''))"
proof -
  have a: "list_all (\<lambda>c. byte c < RuneSelf) ''2.0''"
    "list_all (\<lambda>c. byte c < RuneSelf) ''account_new''"
    "list_all (\<lambda>c. byte c < RuneSelf) ''account_ecRecover''"
    "list_all (\<lambda>c. byte c < RuneSelf) ''account_signTypedData''"
    by code_simp+
  have h: "valid_utf8 (Jsonrpc new_account_envelope)" "valid_utf8 (Method new_account_envelope)"
    "- 9223372036854775808 \<le> ID new_account_envelope" "ID new_account_envelope < 9223372036854775808"
    "\<forall>g. Params new_account_envelope = Generic g \<longrightarrow> g = GNil"
    "any_json (Params new_account_envelope) = Inr JNull" "json_ok 1 JNull"
    by (simp_all add: new_account_envelope_def valid_utf8_ascii [OF a(1)] valid_utf8_ascii [OF a(2)])
  have m: "Marshal_rpcRequest new_account_envelope = Inr new_account_request"
    by code_simp
  have p: "Params new_account_envelope = Generic GNil"
    by (simp add: new_account_envelope_def)
  let ?q = "\<lparr>ec_Data = ''0x48656c6c6f20576f726c64'', ec_Signature = signature1\<rparr>"
  have k: "valid_utf8 (Jsonrpc recover_envelope)" "valid_utf8 (Method recover_envelope)"
    "- 9223372036854775808 \<le> ID recover_envelope" "ID recover_envelope < 9223372036854775808"
    "\<forall>g. Params recover_envelope = Generic g \<longrightarrow> g = GNil"
    "any_json (Params recover_envelope) = Inr (EcRecoverRequest_json ?q)"
    by (simp_all add: recover_envelope_def valid_utf8_ascii [OF a(1)] valid_utf8_ascii [OF a(3)])
  have g: "generic_of_json (EcRecoverRequest_json ?q)
             = GMap [(''data'', GString ''0x48656c6c6f20576f726c64''), (''sig'', GString signature1)]"
    by code_simp
  have kp: "Params recover_envelope \<noteq> Generic GNil"
    by (simp add: recover_envelope_def)
  let ?pj = "JObject [(''address'', JString address1), (''data'', JNumber ''1e400'')]"
  have c: "compact ''1e400'' = Inr (JNumber ''1e400'')"
    "appendString address1 = address1"
    by code_simp+
  have o: "valid_utf8 (Jsonrpc out_of_range_envelope)" "valid_utf8 (Method out_of_range_envelope)"
    "- 9223372036854775808 \<le> ID out_of_range_envelope" "ID out_of_range_envelope < 9223372036854775808"
    "\<forall>g. Params out_of_range_envelope = Generic g \<longrightarrow> g = GNil"
    "any_json (Params out_of_range_envelope) = Inr ?pj"
    by (simp_all add: out_of_range_envelope_def valid_utf8_ascii [OF a(1)] valid_utf8_ascii [OF a(4)]
        TypedDataRequest_json_def RawMessage_json_def c string_json_def omitempty_def)
  have ok: "json_ok 1 ?pj"
    by code_simp
  have re: "range_error ?pj = Some (UnmarshalTypeError ''number 1e400'' ''float64'')"
    by (simp add: out_of_range_literal first_error_def)
  from request_round_trip [OF h] request_round_trip [OF k string_records_ok(3)]
    request_round_trip [OF o ok] m p kp
  show ?thesis
    unfolding g string_records_in_range re by auto
qed

text \<open>
  \<^bold>\<open>C9.\<close>  The HTTP transport never reads the status code: the result of \<^verbatim>\<open>call\<close> is the
  same whatever status the response carries, and a response whose body decodes to an envelope
  without error record makes the call return that envelope, with any status.
\<close>

theorem http_call_ignores_status:
  "httpTransport_call (\<lambda>u ct b. map_sum id (\<lambda>r. r\<lparr>StatusCode := s\<rparr>) (post u ct b)) t m p
     = httpTransport_call post t m p
   \<and> (Marshal_rpcRequest \<lparr>Jsonrpc = ''2.0'', Method = m, Params = p, ID = 1\<rparr> = Inr reqBody
        \<and> post (http_url t) ''application/json'' reqBody = Inr \<lparr>StatusCode = s, Body = b\<rparr>
        \<and> fst (Decode_rpcResponse b) = Inr env \<and> Error env = None
      \<longrightarrow> httpTransport_call post t m p = Inr env)"
proof -
  have "httpTransport_call (\<lambda>u ct b. map_sum id (\<lambda>r. r\<lparr>StatusCode := s\<rparr>) (post u ct b)) t m p
     = httpTransport_call post t m p"
  proof (cases "Marshal_rpcRequest \<lparr>Jsonrpc = ''2.0'', Method = m, Params = p, ID = 1\<rparr>")
    case (Inl e)
    then show ?thesis by (simp add: httpTransport_call_def)
  next
    case (Inr reqBody)
    then show ?thesis
      by (cases "post (http_url t) ''application/json'' reqBody") (simp_all add: httpTransport_call_def)
  qed
  then show ?thesis
    by (simp add: httpTransport_call_def)
qed

theorem http_call_ignores_status_witness:
  "httpTransport_call (serve 500 address_reply) (newHTTPTransport ''http://localhost:8550'')
     ''account_new'' (Generic GNil)
   = Inr \<lparr>rsp_Jsonrpc = ''2.0'', Result = address_payload, Error = None, rsp_ID = 1\<rparr>"
proof -
  have m: "Marshal_rpcRequest \<lparr>Jsonrpc = ''2.0'', Method = ''account_new'', Params = Generic GNil, ID = 1\<rparr>
             = Inr new_account_request"
    by code_simp
  have p: "serve 500 address_reply (http_url (newHTTPTransport ''http://localhost:8550''))
             ''application/json'' new_account_request
             = Inr \<lparr>StatusCode = 500, Body = bytes_reader address_reply\<rparr>"
    by (simp add: serve_def)
  have d: "fst (Decode_rpcResponse (bytes_reader address_reply))
             = Inr \<lparr>rsp_Jsonrpc = ''2.0'', Result = address_payload, Error = None, rsp_ID = 1\<rparr>"
    by code_simp
  show ?thesis
    using http_call_ignores_status [of 500 "serve 500 address_reply"
        "newHTTPTransport ''http://localhost:8550''" "''account_new''" "Generic GNil"
        new_account_request "bytes_reader address_reply"
        "\<lparr>rsp_Jsonrpc = ''2.0'', Result = address_payload, Error = None, rsp_ID = 1\<rparr>"] m p d
    by simp
qed

text \<open>
  \<^bold>\<open>C10.\<close>  The unexported \<^verbatim>\<open>rpcClient.call\<close> and \<^verbatim>\<open>httpTransport.call\<close> are the same
  function of the URL, the method, the parameters and the behaviour of the remote side.
\<close>

theorem rpcClient_call_is_httpTransport_call:
  "rpcClient_call post \<lparr>rpc_url = u\<rparr> m p = httpTransport_call post \<lparr>http_url = u\<rparr> m p"
  by (simp add: rpcClient_call_def httpTransport_call_def cong: sum.case_cong)


text \<open>
  \<^bold>\<open>C8.\<close>  (as stated, refuted) A failure of the channel can reach the caller as the same
  error as a protocol error.  The decoder returns an error of reading the response body as
  the reader made it, and the body of an HTTP response in chunks fails with
  \<^verbatim>\<open>errors.New("malformed chunked encoding")\<close>; a protocol error is \<^verbatim>\<open>errors.New\<close> of the
  message of the error record.  A call whose body breaks off in this way and a call that is
  answered with an error record of this message return the same error, though only the second
  has decoded an envelope.
\<close>

theorem read_error_passes_for_protocol_error:
  "httpTransport_call broken_body client ''account_new'' (Generic GNil)
     = Inl (errorString ''malformed chunked encoding'')
   \<and> decoded_response broken_body (HTTP client) ''account_new'' (Generic GNil) = None
   \<and> httpTransport_call (serve 200 chunk_error_reply) client ''account_new'' (Generic GNil)
     = Inl (errors_New ''malformed chunked encoding'')
   \<and> decoded_response (serve 200 chunk_error_reply) (HTTP client) ''account_new'' (Generic GNil)
     = Some \<lparr>rsp_Jsonrpc = ''2.0'', Result = [],
             Error = Some \<lparr>Code = - 32000, Message = ''malformed chunked encoding''\<rparr>,
             rsp_ID = 1\<rparr>
   \<and> httpTransport_call broken_body client ''account_new'' (Generic GNil)
     = httpTransport_call (serve 200 chunk_error_reply) client ''account_new'' (Generic GNil)"
  by code_simp

text \<open>
  \<^bold>\<open>C8.\<close>  (amended) A call that fails returns the error of marshalling the request (a
  \<^verbatim>\<open>*json.MarshalerError\<close>), the error of the POST (a \<^verbatim>\<open>*url.Error\<close>), the error of writing to
  a closed connection (a \<^verbatim>\<open>*net.OpError\<close>), an error of the decoder (\<^verbatim>\<open>io.EOF\<close>,
  \<^verbatim>\<open>io.ErrUnexpectedEOF\<close>, a \<^verbatim>\<open>*json.SyntaxError\<close> or a \<^verbatim>\<open>*json.UnmarshalTypeError\<close>), the error
  with which reading the response failed, or, when the decoded envelope has an error record,
  \<^verbatim>\<open>errors.New\<close> of its message.  The errors of the first four kinds are never a value that
  \<^verbatim>\<open>errors.New\<close> returns, whatever the message; an error of reading is told from a protocol
  error only when it is not such a value itself.  When the result payload does not decode
  into the type of an operation, the operation returns the error of \<^verbatim>\<open>json.Unmarshal\<close>, which
  is never a value that \<^verbatim>\<open>errors.New\<close> returns.
\<close>

theorem failures_by_kind:
  "(fst (transport_call post T m p) = Inl err
      \<longrightarrow> err = MarshalerError ''json.RawMessage'' \<or> (\<exists>c. err = url_Error c)
          \<or> err = ErrClosed \<or> err = io_EOF \<or> err = io_ErrUnexpectedEOF \<or> json_error err
          \<or> (\<exists>rd. response_reader post T m p = Some rd \<and> err = failure rd)
          \<or> (\<exists>env r. decoded_response post T m p = Some env \<and> Error env = Some r
                \<and> err = errors_New (Message r)))
   \<and> (e = MarshalerError name \<or> e = url_Error cause \<or> e = ErrClosed \<or> e = io_EOF
        \<or> e = io_ErrUnexpectedEOF \<or> json_error e
      \<longrightarrow> e \<noteq> errors_New msg)
   \<and> (Marshal_rpcRequest \<lparr>Jsonrpc = ''2.0'', Method = m, Params = p, ID = 1\<rparr> = Inr reqBody
      \<and> post (http_url h) ''application/json'' reqBody = Inl cause
      \<longrightarrow> httpTransport_call post h m p = Inl (url_Error cause))
   \<and> (Marshal_rpcRequest \<lparr>Jsonrpc = ''2.0'', Method = m, Params = p, ID = 1\<rparr> = Inr reqBody
      \<and> post (http_url h) ''application/json'' reqBody = Inr resp
      \<and> fst (Decode_rpcResponse (Body resp)) = Inl e
      \<longrightarrow> httpTransport_call post h m p = Inl e
          \<and> (e \<noteq> failure (Body resp) \<longrightarrow> e \<noteq> errors_New msg))
   \<and> (Marshal_rpcRequest \<lparr>Jsonrpc = ''2.0'', Method = m, Params = p, ID = 1\<rparr> = Inr reqBody
      \<and> closed (conn i)
      \<longrightarrow> fst (ipcTransport_call i m p) = Inl ErrClosed)
   \<and> (Marshal_rpcRequest \<lparr>Jsonrpc = ''2.0'', Method = m, Params = p, ID = 1\<rparr> = Inr reqBody
      \<and> \<not> closed (conn i) \<and> fst (Decode_rpcResponse (incoming (conn i))) = Inl e
      \<longrightarrow> fst (ipcTransport_call i m p) = Inl e
          \<and> (e \<noteq> failure (incoming (conn i)) \<longrightarrow> e \<noteq> errors_New msg))
   \<and> (decoded_response post T m p = Some env \<and> Error env = Some r
      \<longrightarrow> fst (transport_call post T m p) = Inl (errors_New (Message r)))
   \<and> (call t ''account_new'' (Generic GNil) = (Inr rsp, t')
      \<and> Unmarshal decode_string [] (Result rsp) = Inl e
      \<longrightarrow> NewAccount call t = (Inl e, t') \<and> e \<noteq> errors_New msg)
   \<and> (call t ''account_list'' (Generic GNil) = (Inr rsp, t')
      \<and> Unmarshal decode_strings None (Result rsp) = Inl e
      \<longrightarrow> ListAccounts call t = (Inl e, t') \<and> e \<noteq> errors_New msg)
   \<and> (call t ''account_signTransaction'' (TransactionPtr tx) = (Inr rsp, t')
      \<and> Unmarshal (decode_struct ''clefclient.SignTxResponse'' SignTxResponse_fields)
            zero_SignTxResponse (Result rsp) = Inl e
      \<longrightarrow> SignTransaction call t tx = (Inl e, t') \<and> e \<noteq> errors_New msg)
   \<and> (call t ''account_signData'' (SignDataRequestPtr sd) = (Inr rsp, t')
      \<and> Unmarshal (decode_struct ''clefclient.SignDataResponse'' SignDataResponse_fields)
            \<lparr>Signature = []\<rparr> (Result rsp) = Inl e
      \<longrightarrow> SignData call t sd = (Inl e, t') \<and> e \<noteq> errors_New msg)
   \<and> (call t ''account_signTypedData'' (TypedDataRequestPtr td) = (Inr rsp, t')
      \<and> Unmarshal (decode_struct ''clefclient.SignDataResponse'' SignDataResponse_fields)
            \<lparr>Signature = []\<rparr> (Result rsp) = Inl e
      \<longrightarrow> SignTypedData call t td = (Inl e, t') \<and> e \<noteq> errors_New msg)
   \<and> (call t ''account_ecRecover'' (EcRecoverRequestPtr ec) = (Inr rsp, t')
      \<and> Unmarshal (decode_struct ''clefclient.EcRecoverResponse'' EcRecoverResponse_fields)
            \<lparr>Address = []\<rparr> (Result rsp) = Inl e
      \<longrightarrow> EcRecover call t ec = (Inl e, t') \<and> e \<noteq> errors_New msg)
   \<and> (call t ''account_version'' (Generic GNil) = (Inr rsp, t')
      \<and> Unmarshal (decode_struct ''clefclient.VersionResponse'' VersionResponse_fields)
            \<lparr>Version = []\<rparr> (Result rsp) = Inl e
      \<longrightarrow> Version_query call t = (Inl e, t') \<and> e \<noteq> errors_New msg)"
proof (intro conjI impI; (elim conjE)?)
  assume "fst (transport_call post T m p) = Inl err"
  then show "err = MarshalerError ''json.RawMessage'' \<or> (\<exists>c. err = url_Error c)
          \<or> err = ErrClosed \<or> err = io_EOF \<or> err = io_ErrUnexpectedEOF \<or> json_error err
          \<or> (\<exists>rd. response_reader post T m p = Some rd \<and> err = failure rd)
          \<or> (\<exists>env r. decoded_response post T m p = Some env \<and> Error env = Some r
                \<and> err = errors_New (Message r))"
    by (rule transport_call_failures)
next
  assume "e = MarshalerError name \<or> e = url_Error cause \<or> e = ErrClosed \<or> e = io_EOF
        \<or> e = io_ErrUnexpectedEOF \<or> json_error e"
  then show "e \<noteq> errors_New msg"
    by (rule library_errors_not_New)
qed (simp_all add: httpTransport_call_def ipcTransport_call_def conn_Write_def split_beta
       Decode_not_New transport_call_error_record
       NewAccount_def ListAccounts_def SignTransaction_def SignData_def
       SignTypedData_def EcRecover_def Version_query_def
       Unmarshal_not_New [OF decode_string_errors] Unmarshal_not_New [OF decode_strings_errors]
       Unmarshal_not_New [OF result_decoders_errors(1)]
       Unmarshal_not_New [OF result_decoders_errors(2)]
       Unmarshal_not_New [OF result_decoders_errors(3)]
       Unmarshal_not_New [OF result_decoders_errors(4)])

theorem failures_by_kind_witness:
  \<open>httpTransport_call refuse client ''account_new'' (Generic GNil) = Inl (url_Error ''connection refused'')
   \<and> url_Error ''connection refused'' \<noteq> errors_New ''connection refused''
   \<and> httpTransport_call (serve 502 bad_gateway) client ''account_new'' (Generic GNil) = Inl SyntaxError
   \<and> httpTransport_call broken_body client ''account_new'' (Generic GNil)
       = Inl (errorString ''malformed chunked encoding'')
   \<and> (\<exists>rd. response_reader broken_body (HTTP client) ''account_new'' (Generic GNil) = Some rd
         \<and> failure rd = errorString ''malformed chunked encoding'')
   \<and> fst (ipcTransport_call (stream True []) ''account_new'' (Generic GNil)) = Inl ErrClosed
   \<and> fst (ipcTransport_call (stream False ''{"jsonrpc":"2.0","res'') ''account_new'' (Generic GNil))
       = Inl io_ErrUnexpectedEOF
   \<and> fst (transport_call (serve 200 unknown_account) (HTTP client) ''account_new'' (Generic GNil))
       = Inl (errorString ''unknown account'')
   \<and> NewAccount (result_double ''42'') () = (Inl (UnmarshalTypeError ''number'' ''string''), ())
   \<and> ListAccounts (result_double ''{}'') () = (Inl (UnmarshalTypeError ''object'' ''[]string''), ())
   \<and> SignTransaction (result_double ''{"raw":1}'') () None
       = (Inl (UnmarshalTypeError ''number'' ''string''), ())
   \<and> SignData (result_double ''"0x00"'') () None
       = (Inl (UnmarshalTypeError ''string'' ''clefclient.SignDataResponse''), ())
   \<and> SignTypedData (result_double ''[]'') () None
       = (Inl (UnmarshalTypeError ''array'' ''clefclient.SignDataResponse''), ())
   \<and> EcRecover (result_double ''true'') () None
       = (Inl (UnmarshalTypeError ''bool'' ''clefclient.EcRecoverResponse''), ())
   \<and> Version_query (result_double []) () = (Inl SyntaxError, ())\<close>
proof -
  have m: "Marshal_rpcRequest \<lparr>Jsonrpc = ''2.0'', Method = ''account_new'', Params = Generic GNil, ID = 1\<rparr>
             = Inr new_account_request"
    by code_simp
  have p1: "refuse (http_url client) ''application/json'' new_account_request = Inl ''connection refused''"
    by (simp add: refuse_def)
  have p2: "serve 502 bad_gateway (http_url client) ''application/json'' new_account_request
              = Inr \<lparr>StatusCode = 502, Body = bytes_reader bad_gateway\<rparr>"
    by (simp add: serve_def)
  have d2: "fst (Decode_rpcResponse (Body \<lparr>StatusCode = 502, Body = bytes_reader bad_gateway\<rparr>))
              = Inl SyntaxError"
    by code_simp
  let ?broken = \<open>\<lparr>StatusCode = 200,
                   Body = \<lparr>pending = ''{"jsonrpc":"2.0","res'',
                           failure = errorString ''malformed chunked encoding''\<rparr>\<rparr>\<close>
  have p3: "broken_body (http_url client) ''application/json'' new_account_request = Inr ?broken"
    by (simp add: broken_body_def)
  have d3: "fst (Decode_rpcResponse (Body ?broken)) = Inl (errorString ''malformed chunked encoding'')"
    by code_simp
  have f3: "fst (transport_call broken_body (HTTP client) ''account_new'' (Generic GNil))
              = Inl (errorString ''malformed chunked encoding'')"
    by code_simp
  have n3: "decoded_response broken_body (HTTP client) ''account_new'' (Generic GNil) = None"
    by code_simp
  have c3: "closed (conn (stream True []))"
    by (simp add: stream_def)
  have c4: \<open>\<not> closed (conn (stream False ''{"jsonrpc":"2.0","res''))\<close>
    by (simp add: stream_def)
  have d4: \<open>fst (Decode_rpcResponse (incoming (conn (stream False ''{"jsonrpc":"2.0","res''))))
              = Inl io_ErrUnexpectedEOF\<close>
    by code_simp
  have d5: "decoded_response (serve 200 unknown_account) (HTTP client) ''account_new'' (Generic GNil)
              = Some unknown_account_envelope"
    by code_simp
  have e5: "Error unknown_account_envelope = Some \<lparr>Code = - 32000, Message = ''unknown account''\<rparr>"
    by (simp add: unknown_account_envelope_def)
  have r: "\<And>payload m p. result_double payload () m p = (Inr (result_envelope payload), ())"
    by (simp add: result_double_def)
  have [simp]: "\<And>payload. Result (result_envelope payload) = payload"
    by (simp add: result_envelope_def)
  have u1: "Unmarshal decode_string [] ''42'' = Inl (UnmarshalTypeError ''number'' ''string'')"
    by code_simp
  have u2: "Unmarshal decode_strings None ''{}'' = Inl (UnmarshalTypeError ''object'' ''[]string'')"
    by code_simp
  have u3: \<open>Unmarshal (decode_struct ''clefclient.SignTxResponse'' SignTxResponse_fields)
              zero_SignTxResponse ''{"raw":1}'' = Inl (UnmarshalTypeError ''number'' ''string'')\<close>
    by code_simp
  have u4: \<open>Unmarshal (decode_struct ''clefclient.SignDataResponse'' SignDataResponse_fields)
              \<lparr>Signature = []\<rparr> ''"0x00"''
            = Inl (UnmarshalTypeError ''string'' ''clefclient.SignDataResponse'')\<close>
    by code_simp
  have u5: "Unmarshal (decode_struct ''clefclient.SignDataResponse'' SignDataResponse_fields)
              \<lparr>Signature = []\<rparr> ''[]''
            = Inl (UnmarshalTypeError ''array'' ''clefclient.SignDataResponse'')"
    by code_simp
  have u6: "Unmarshal (decode_struct ''clefclient.EcRecoverResponse'' EcRecoverResponse_fields)
              \<lparr>Address = []\<rparr> ''true''
            = Inl (UnmarshalTypeError ''bool'' ''clefclient.EcRecoverResponse'')"
    by code_simp
  have u7: "Unmarshal (decode_struct ''clefclient.VersionResponse'' VersionResponse_fields)
              \<lparr>Version = []\<rparr> [] = Inl SyntaxError"
    by code_simp
  note t = failures_by_kind
  have a0: "\<exists>rd. response_reader broken_body (HTTP client) ''account_new'' (Generic GNil) = Some rd
              \<and> failure rd = errorString ''malformed chunked encoding''"
    using t [where post = broken_body and T = "HTTP client", THEN conjunct1, THEN mp, OF f3] n3
    by (auto simp: ErrClosed_def errors_New_def)
  have a1: "httpTransport_call refuse client ''account_new'' (Generic GNil)
              = Inl (url_Error ''connection refused'')"
    using t [where post = refuse and h = client, THEN conjunct2, THEN conjunct2, THEN conjunct1, THEN mp, OF conjI [OF m p1]] by simp
  have a1': "url_Error ''connection refused'' \<noteq> errors_New ''connection refused''"
    using t [where e = "url_Error ''connection refused''" and cause = "''connection refused''", THEN conjunct2, THEN conjunct1, THEN mp]
    by simp
  have a2: "httpTransport_call (serve 502 bad_gateway) client ''account_new'' (Generic GNil)
              = Inl SyntaxError"
    using t [where post = "serve 502 bad_gateway" and h = client, THEN conjunct2, THEN conjunct2, THEN conjunct2, THEN conjunct1, THEN mp,
        OF conjI [OF m conjI [OF p2 d2]]] by simp
  have a2': "httpTransport_call broken_body client ''account_new'' (Generic GNil)
              = Inl (errorString ''malformed chunked encoding'')"
    using t [where post = broken_body and h = client, THEN conjunct2, THEN conjunct2, THEN conjunct2, THEN conjunct1, THEN mp,
        OF conjI [OF m conjI [OF p3 d3]]] by simp
  have a3: "fst (ipcTransport_call (stream True []) ''account_new'' (Generic GNil)) = Inl ErrClosed"
    using t [THEN conjunct2, THEN conjunct2, THEN conjunct2, THEN conjunct2, THEN conjunct1, THEN mp, OF conjI [OF m c3]] by simp
  have a4: \<open>fst (ipcTransport_call (stream False ''{"jsonrpc":"2.0","res'') ''account_new'' (Generic GNil))
              = Inl io_ErrUnexpectedEOF\<close>
    using t [THEN conjunct2, THEN conjunct2, THEN conjunct2, THEN conjunct2, THEN conjunct2, THEN conjunct1, THEN mp, OF conjI [OF m conjI [OF c4 d4]]] by simp
  have a5: "fst (transport_call (serve 200 unknown_account) (HTTP client) ''account_new'' (Generic GNil))
              = Inl (errorString ''unknown account'')"
    using t [THEN conjunct2, THEN conjunct2, THEN conjunct2, THEN conjunct2, THEN conjunct2, THEN conjunct2, THEN conjunct1, THEN mp, OF conjI [OF d5 e5]] by (simp add: errors_New_def)
  have b1: "NewAccount (result_double ''42'') () = (Inl (UnmarshalTypeError ''number'' ''string''), ())"
    using t [where call = "result_double ''42''" and t = "()", THEN conjunct2, THEN conjunct2, THEN conjunct2, THEN conjunct2, THEN conjunct2, THEN conjunct2, THEN conjunct2, THEN conjunct1, THEN mp, OF conjI [OF r]] u1
    by simp
  have b2: "ListAccounts (result_double ''{}'') () = (Inl (UnmarshalTypeError ''object'' ''[]string''), ())"
    using t [where call = "result_double ''{}''" and t = "()", THEN conjunct2, THEN conjunct2, THEN conjunct2, THEN conjunct2, THEN conjunct2, THEN conjunct2, THEN conjunct2, THEN conjunct2, THEN conjunct1, THEN mp, OF conjI [OF r]] u2
    by simp
  have b3: \<open>SignTransaction (result_double ''{"raw":1}'') () None
              = (Inl (UnmarshalTypeError ''number'' ''string''), ())\<close>
    using t [where call = \<open>result_double ''{"raw":1}''\<close> and t = "()", THEN conjunct2, THEN conjunct2, THEN conjunct2, THEN conjunct2, THEN conjunct2, THEN conjunct2, THEN conjunct2, THEN conjunct2, THEN conjunct2, THEN conjunct1, THEN mp, OF conjI [OF r]] u3
    by simp
  have b4: \<open>SignData (result_double ''"0x00"'') () None
              = (Inl (UnmarshalTypeError ''string'' ''clefclient.SignDataResponse''), ())\<close>
    using t [where call = \<open>result_double ''"0x00"''\<close> and t = "()", THEN conjunct2, THEN conjunct2, THEN conjunct2, THEN conjunct2, THEN conjunct2, THEN conjunct2, THEN conjunct2, THEN conjunct2, THEN conjunct2, THEN conjunct2, THEN conjunct1, THEN mp, OF conjI [OF r]] u4
    by simp
  have b5: "SignTypedData (result_double ''[]'') () None
              = (Inl (UnmarshalTypeError ''array'' ''clefclient.SignDataResponse''), ())"
    using t [where call = "result_double ''[]''" and t = "()", THEN conjunct2, THEN conjunct2, THEN conjunct2, THEN conjunct2, THEN conjunct2, THEN conjunct2, THEN conjunct2, THEN conjunct2, THEN conjunct2, THEN conjunct2, THEN conjunct2, THEN conjunct1, THEN mp, OF conjI [OF r]] u5
    by simp
  have b6: "EcRecover (result_double ''true'') () None
              = (Inl (UnmarshalTypeError ''bool'' ''clefclient.EcRecoverResponse''), ())"
    using t [where call = "result_double ''true''" and t = "()", THEN conjunct2, THEN conjunct2, THEN conjunct2, THEN conjunct2, THEN conjunct2, THEN conjunct2, THEN conjunct2, THEN conjunct2, THEN conjunct2, THEN conjunct2, THEN conjunct2, THEN conjunct2, THEN conjunct1, THEN mp, OF conjI [OF r]] u6
    by simp
  have b7: "Version_query (result_double []) () = (Inl SyntaxError, ())"
    using t [where call = "result_double []" and t = "()", THEN conjunct2, THEN conjunct2, THEN conjunct2, THEN conjunct2, THEN conjunct2, THEN conjunct2, THEN conjunct2, THEN conjunct2, THEN conjunct2, THEN conjunct2, THEN conjunct2, THEN conjunct2, THEN conjunct2, THEN mp, OF conjI [OF r]] u7
    by simp
  show ?thesis
    using a0 a1 a1' a2 a2' a3 a4 a5 b1 b2 b3 b4 b5 b6 b7 by simp
qed

end
